(* ===== verification/Prelude.thy ===== *)
theory Prelude
  imports Unicode "HOL-Library.AList" "HOL-Library.Multiset" "HOL-Library.Code_Target_Nat"
begin

text \<open>
  What the components share: the error values of the stores, Python's \<open>str\<close> methods as the sources
  use them (\<open>strip\<close>, \<open>split\<close> and \<open>join\<close>, \<open>encode\<close>, the number formats), \<open>list.insert\<close>
  and \<open>pop\<close> by index, dictionaries in insertion order, and the facts the component proofs share.
\<close>

named_theorems text_simps "facts on the text functions"
named_theorems list_simps "facts on lists changed by index"

section \<open>Errors\<close>

text \<open>Why the compiler of \<open>runtime_config.py\<close> refuses to build a document.\<close>

datatype compile_cause =
    Settings_Wire | Stores_Unreadable | Text_Bound | Count_Bound | Names_Conflict
  | Playlist_Unseen | Fallback_Unseen bool | Service_Too_Old | Inventory_Shape
  | Status_Budget | Document_Size | Override_Interval | Generation_Token

text \<open>
  The machine-readable kind of a \<open>ScheduleError\<close>, \<open>PlaylistError\<close>, \<open>DisplayError\<close> or
  \<open>FavouritesError\<close>, or the cause of a \<open>RuntimeConfigError\<close>; the message for a person is left out. \<open>ValueErr\<close> is any \<open>ValueError\<close> (a
  \<open>UnicodeEncodeError\<close> is one) that no store turns into an error of its own.
\<close>

datatype error_kind =
    LocalIO | NewerVersion | Unreadable | Full | Validation | IdentityConflict
  | NoSuchRule | InvalidTime | InvalidDay | InvalidMonth | InvalidConnector | InvalidName
  | NoSuchPlaylist | NoSuchEntry | InvalidState
  | RuntimeConfig compile_cause

datatype exn = Err error_kind | ValueErr

type_synonym 'a result = "exn + 'a"

definition is_ok :: "'a result \<Rightarrow> bool" where
  "is_ok r = (case r of Inl _ \<Rightarrow> False | Inr _ \<Rightarrow> True)"

lemma is_ok_simps [simp]: "is_ok (Inr x)" "\<not> is_ok (Inl e)"
  by (simp_all add: is_ok_def)

text \<open>Python's statement sequence: the first exception ends it.\<close>

definition and_then :: "'a result \<Rightarrow> ('a \<Rightarrow> 'b result) \<Rightarrow> 'b result" where
  "and_then r f = (case r of Inl e \<Rightarrow> Inl e | Inr x \<Rightarrow> f x)"

lemma and_then_simps [simp]: "and_then (Inl e) f = Inl e" "and_then (Inr x) f = f x"
  by (simp_all add: and_then_def)

lemma and_then_Inr: "and_then r f = Inr y \<longleftrightarrow> (\<exists>x. r = Inr x \<and> f x = Inr y)"
  by (cases r) auto

fun map_result :: "('a \<Rightarrow> 'b result) \<Rightarrow> 'a list \<Rightarrow> 'b list result" where
  "map_result f [] = Inr []"
| "map_result f (x # xs) =
     (case f x of
        Inl e \<Rightarrow> Inl e
      | Inr y \<Rightarrow> (case map_result f xs of Inl e \<Rightarrow> Inl e | Inr ys \<Rightarrow> Inr (y # ys)))"

lemma map_result_map: "\<forall>x\<in>set xs. f (g x) = Inr (h x) \<Longrightarrow> map_result f (map g xs) = Inr (map h xs)"
  by (induction xs) auto

lemma map_result_Inr: "map_result f xs = Inr ys \<Longrightarrow> list_all2 (\<lambda>x y. f x = Inr y) xs ys"
  by (induction xs arbitrary: ys) (auto split: sum.splits)

section \<open>Whitespace\<close>

definition strip :: "pystr \<Rightarrow> pystr" where
  "strip s = rev (dropWhile cp_isspace (rev (dropWhile cp_isspace s)))"

text \<open>\<open>str.split()\<close>: the runs of characters that are no whitespace.\<close>

function words :: "pystr \<Rightarrow> pystr list" where
  "words s =
     (case dropWhile cp_isspace s of
        [] \<Rightarrow> []
      | t \<Rightarrow> takeWhile (\<lambda>c. \<not> cp_isspace c) t # words (dropWhile (\<lambda>c. \<not> cp_isspace c) t))"
  by pat_completeness auto
termination
proof (relation "measure length", simp)
  fix s :: pystr and x ys
  assume "dropWhile cp_isspace s = x # ys"
  then have len: "Suc (length ys) \<le> length s" and x: "\<not> cp_isspace x"
    using length_dropWhile_le [of cp_isspace s] hd_dropWhile [of cp_isspace s] by auto
  then show "(dropWhile (\<lambda>c. \<not> cp_isspace c) (x # ys), s) \<in> measure length"
    using length_dropWhile_le [of "\<lambda>c. \<not> cp_isspace c" ys] by simp
qed

declare words.simps [simp del]

fun join :: "pystr \<Rightarrow> pystr list \<Rightarrow> pystr" where
  "join sep [] = []"
| "join sep [w] = w"
| "join sep (w # ws) = w @ sep @ join sep ws"

text \<open>\<open>" ".join(raw.split())\<close>.\<close>

definition collapse :: "pystr \<Rightarrow> pystr" where
  "collapse s = join [32] (words s)"

subsection \<open>Facts on whitespace\<close>

definition no_space :: "pystr \<Rightarrow> bool" where
  "no_space s \<longleftrightarrow> (\<forall>c\<in>set s. \<not> cp_isspace c)"

definition is_word :: "pystr \<Rightarrow> bool" where
  "is_word s \<longleftrightarrow> s \<noteq> [] \<and> no_space s"

lemma cp_isspace_32 [simp]: "cp_isspace 32"
  by (simp add: cp_isspace_def)

lemma strip_Nil [simp]: "strip [] = []"
  by (simp add: strip_def)

lemma dropWhile_hd: "s = [] \<or> \<not> P (hd s) \<Longrightarrow> dropWhile P s = s"
  by (simp add: dropWhile_eq_self_iff)

lemma strip_edges: "strip s = [] \<or> (\<not> cp_isspace (hd (strip s)) \<and> \<not> cp_isspace (last (strip s)))"
proof (cases "strip s = []")
  case False
  let ?d = "dropWhile cp_isspace s"
  let ?e = "dropWhile cp_isspace (rev ?d)"
  have e: "?e \<noteq> []" using False by (simp add: strip_def)
  then have "\<not> cp_isspace (hd ?e)" by (rule hd_dropWhile)
  then have l: "\<not> cp_isspace (last (strip s))" by (simp add: strip_def last_rev)
  obtain p where "rev ?d = p @ ?e" by (metis takeWhile_dropWhile_id)
  then have "?d = strip s @ rev p" by (metis strip_def rev_append rev_rev_ident)
  then have "hd ?d = hd (strip s)" and "?d \<noteq> []" using False by auto
  then have "\<not> cp_isspace (hd (strip s))" by (metis hd_dropWhile)
  with l show ?thesis by simp
qed simp

lemma strip_id_iff:
  "strip s = s \<longleftrightarrow> s = [] \<or> (\<not> cp_isspace (hd s) \<and> \<not> cp_isspace (last s))"
proof
  assume "strip s = s"
  with strip_edges [of s] show "s = [] \<or> (\<not> cp_isspace (hd s) \<and> \<not> cp_isspace (last s))"
    by simp
next
  assume edge: "s = [] \<or> (\<not> cp_isspace (hd s) \<and> \<not> cp_isspace (last s))"
  then have "dropWhile cp_isspace s = s" by (intro dropWhile_hd) auto
  moreover from edge have "dropWhile cp_isspace (rev s) = rev s"
    by (intro dropWhile_hd) (auto simp: hd_rev)
  ultimately show "strip s = s" by (simp add: strip_def)
qed

lemma strip_no_space [text_simps]: "no_space s \<Longrightarrow> strip s = s"
  by (cases "s = []") (auto simp: strip_id_iff no_space_def)

lemma strip_idem [simp]: "strip (strip s) = strip s"
  using strip_edges strip_id_iff by blast

lemma set_strip: "set (strip s) \<subseteq> set s"
  unfolding strip_def by (metis set_dropWhileD set_rev subsetI)

lemma words_no_space: "w \<in> set (words s) \<Longrightarrow> is_word w"
proof (induction s rule: words.induct)
  case (1 s)
  show ?case
  proof (cases "dropWhile cp_isspace s")
    case Nil
    then have "words s = []" by (subst words.simps) (simp only: list.case)
    with "1.prems" show ?thesis by simp
  next
    case (Cons x ys)
    then have x: "\<not> cp_isspace x" by (metis hd_dropWhile list.discI list.sel(1))
    from 1(2) Cons have "w = takeWhile (\<lambda>c. \<not> cp_isspace c) (x # ys) \<or>
       w \<in> set (words (dropWhile (\<lambda>c. \<not> cp_isspace c) (x # ys)))"
      by (subst (asm) words.simps) simp
    then show ?thesis
    proof
      assume "w = takeWhile (\<lambda>c. \<not> cp_isspace c) (x # ys)"
      with x show ?thesis by (auto simp: is_word_def no_space_def dest: set_takeWhileD)
    next
      assume "w \<in> set (words (dropWhile (\<lambda>c. \<not> cp_isspace c) (x # ys)))"
      with 1(1) Cons show ?thesis by blast
    qed
  qed
qed

lemma words_word_append:
  assumes "is_word w"
  shows "words (w @ 32 # s) = w # words s" and "words w = [w]"
proof -
  obtain x xs where w: "w = x # xs" and x: "\<not> cp_isspace x" and xs: "\<forall>c\<in>set xs. \<not> cp_isspace c"
    using assms by (cases w) (auto simp: is_word_def no_space_def)
  have t: "takeWhile (\<lambda>c. \<not> cp_isspace c) (xs @ 32 # s) = xs"
    using xs by (simp add: takeWhile_tail)
  have d: "dropWhile (\<lambda>c. \<not> cp_isspace c) (xs @ 32 # s) = 32 # s"
    using xs by (simp add: dropWhile_append3)
  have sp: "words (32 # s) = words s"
    by (subst words.simps, subst (2) words.simps) simp
  show "words (w @ 32 # s) = w # words s"
    using w x t d sp by (subst words.simps) simp
  have tw: "takeWhile (\<lambda>c. \<not> cp_isspace c) xs = xs" and dw: "dropWhile (\<lambda>c. \<not> cp_isspace c) xs = []"
    using xs by simp_all
  have "words [] = []" by (simp add: words.simps)
  then show "words w = [w]"
    unfolding w by (subst words.simps) (simp only: x tw dw dropWhile.simps takeWhile.simps list.case if_False if_True simp_thms)
qed

lemma words_join: "\<forall>w\<in>set ws. is_word w \<Longrightarrow> words (join [32] ws) = ws"
proof (induction "[32] :: pystr" ws rule: join.induct)
  case 1
  then show ?case by (simp add: words.simps)
next
  case (2 w)
  then show ?case by (simp add: words_word_append)
next
  case (3 w v ws)
  then show ?case by (simp add: words_word_append)
qed

lemma collapse_idem [simp]: "collapse (collapse s) = collapse s"
  unfolding collapse_def by (simp add: words_join words_no_space)

lemma join_word_edges:
  assumes "ws \<noteq> []" and "\<forall>w\<in>set ws. is_word w"
  shows "join [32] ws \<noteq> [] \<and> \<not> cp_isspace (hd (join [32] ws)) \<and> \<not> cp_isspace (last (join [32] ws))"
  using assms
proof (induction "[32] :: pystr" ws rule: join.induct)
  case (2 w)
  then show ?case by (cases w) (auto simp: is_word_def no_space_def)
next
  case (3 w v ws)
  then have ih: "join [32] (v # ws) \<noteq> []" "\<not> cp_isspace (last (join [32] (v # ws)))" by auto
  from 3 have "w \<noteq> []" "\<not> cp_isspace (hd w)" by (auto simp: is_word_def no_space_def)
  with ih show ?case by simp
qed simp

lemma collapse_empty_iff: "collapse s = [] \<longleftrightarrow> words s = []"
  unfolding collapse_def using join_word_edges words_no_space by (metis join.simps(1))

lemma strip_collapse [simp]: "strip (collapse s) = collapse s"
proof (cases "words s = []")
  case True
  then show ?thesis by (simp add: collapse_def)
next
  case False
  then show ?thesis
    unfolding collapse_def strip_id_iff using join_word_edges words_no_space by metis
qed

section \<open>Encoding\<close>

text \<open>\<open>s.encode("utf-8")\<close> raises for a lone surrogate; \<open>utf8_len\<close> counts what it returns, and
  counts a surrogate as the three bytes \<open>surrogatepass\<close> gives it.\<close>

definition cp_surrogate :: "nat \<Rightarrow> bool" where
  "cp_surrogate c \<longleftrightarrow> 55296 \<le> c \<and> c \<le> 57343"

definition encodable :: "pystr \<Rightarrow> bool" where
  "encodable s \<longleftrightarrow> list_all (\<lambda>c. \<not> cp_surrogate c) s"

definition cp_utf8_len :: "nat \<Rightarrow> nat" where
  "cp_utf8_len c = (if c < 128 then 1 else if c < 2048 then 2 else if c < 65536 then 3 else 4)"

definition utf8_len :: "pystr \<Rightarrow> nat" where
  "utf8_len s = sum_list (map cp_utf8_len s)"

text \<open>\<open>ord(c) < 32 or 0x7F <= ord(c) <= 0x9F\<close>.\<close>

definition cp_control :: "nat \<Rightarrow> bool" where
  "cp_control c \<longleftrightarrow> c < 32 \<or> (127 \<le> c \<and> c \<le> 159)"

lemma encodable_Nil [simp]: "encodable []"
  by (simp add: encodable_def)

lemma encodable_append [simp]: "encodable (s @ t) \<longleftrightarrow> encodable s \<and> encodable t"
  by (simp add: encodable_def)

lemma encodable_subset: "encodable s \<Longrightarrow> set t \<subseteq> set s \<Longrightarrow> encodable t"
  by (auto simp: encodable_def list_all_iff)

lemma encodable_lit [simp]: "encodable (lit s)"
proof -
  have "of_char c < (55296 :: nat)" for c
    by (rule order_less_trans [OF nat_of_char_less_256]) simp
  then show ?thesis
    by (auto simp: encodable_def lit_def list_all_iff cp_surrogate_def linorder_not_le [symmetric])
qed

lemma encodable_strip: "encodable s \<Longrightarrow> encodable (strip s)"
  by (rule encodable_subset [OF _ set_strip])

section \<open>Numbers\<close>

fun show_nat :: "nat \<Rightarrow> pystr" where
  "show_nat n = (if n < 10 then [48 + n] else show_nat (n div 10) @ [48 + n mod 10])"

declare show_nat.simps [simp del]

definition show_int :: "int \<Rightarrow> pystr" where
  "show_int i = (if i < 0 then 45 # show_nat (nat (- i)) else show_nat (nat i))"

text \<open>\<open>f"{n:02d}"\<close>.\<close>

definition pad2 :: "int \<Rightarrow> pystr" where
  "pad2 i = (if 0 \<le> i \<and> i < 10 then 48 # show_int i else show_int i)"

text \<open>\<open>int(s)\<close> of a text that is all digits: \<open>None\<close> where it raises \<open>ValueError\<close>, for a digit
  that is no decimal digit and past the interpreter's limit of 4300 digits.\<close>

fun decimal_value :: "nat \<Rightarrow> pystr \<Rightarrow> nat option" where
  "decimal_value acc [] = Some acc"
| "decimal_value acc (c # cs) =
     (case cp_decimal c of None \<Rightarrow> None | Some d \<Rightarrow> decimal_value (10 * acc + d) cs)"

definition int_of_digits :: "pystr \<Rightarrow> int option" where
  "int_of_digits s =
     (if s = [] \<or> 4300 < length s then None else map_option int (decimal_value 0 s))"

text \<open>\<open>int(s)\<close> in full: surrounding whitespace, a sign, and single underscores between digits.\<close>

definition int_space :: "pystr \<Rightarrow> nat \<Rightarrow> bool" where
  "int_space s c \<longleftrightarrow>
     (if list_all (\<lambda>c. c < 128) s then (9 \<le> c \<and> c \<le> 13) \<or> c = 32 else cp_isspace c)"

fun drop_underscores :: "pystr \<Rightarrow> pystr option" where
  "drop_underscores [] = Some []"
| "drop_underscores [c] = (if c = 95 then None else Some [c])"
| "drop_underscores (c # d # cs) =
     (if c = 95 then None
      else if d = 95 then
        (if cs = [] \<or> hd cs = 95 then None else map_option ((#) c) (drop_underscores cs))
      else map_option ((#) c) (drop_underscores (d # cs)))"

definition py_int :: "pystr \<Rightarrow> int option" where
  "py_int s =
     (let t = rev (dropWhile (int_space s) (rev (dropWhile (int_space s) s)));
          (neg, digits) = (case t of
             [] \<Rightarrow> (False, [])
           | c # cs \<Rightarrow> if c = 45 then (True, cs) else if c = 43 then (False, cs) else (False, t))
      in case drop_underscores digits of
           None \<Rightarrow> None
         | Some ds \<Rightarrow> map_option (\<lambda>n. if neg then - n else n) (int_of_digits ds))"

lemma show_nat_digits: "c \<in> set (show_nat n) \<Longrightarrow> 48 \<le> c \<and> c \<le> 57"
proof (induction n rule: show_nat.induct)
  case (1 n)
  then show ?case by (subst (asm) (2) show_nat.simps) (auto split: if_splits)
qed

lemma show_nat_small: "n < 10 \<Longrightarrow> show_nat n = [48 + n]"
  by (simp add: show_nat.simps)

lemma show_nat_two: "10 \<le> n \<Longrightarrow> n < 100 \<Longrightarrow> show_nat n = [48 + n div 10, 48 + n mod 10]"
  by (subst show_nat.simps) (simp add: show_nat_small)

lemma pad2_two:
  assumes "0 \<le> i" "i < 100"
  shows "pad2 i = [48 + nat i div 10, 48 + nat i mod 10]"
proof (cases "i < 10")
  case True
  with assms show ?thesis by (simp add: pad2_def show_int_def show_nat_small)
next
  case False
  then have "10 \<le> nat i" "nat i < 100" using assms by auto
  with False assms show ?thesis by (simp add: pad2_def show_int_def show_nat_two)
qed

section \<open>Lists changed by index\<close>

text \<open>\<open>max(0, min(len(xs), i))\<close>, and \<open>xs.insert(i, x)\<close> at an index in range.\<close>

definition clamp :: "nat \<Rightarrow> int \<Rightarrow> nat" where
  "clamp n i = nat (max 0 (min (int n) i))"

definition insert_at :: "nat \<Rightarrow> 'a \<Rightarrow> 'a list \<Rightarrow> 'a list" where
  "insert_at i x xs = take i xs @ x # drop i xs"

definition remove_at :: "nat \<Rightarrow> 'a list \<Rightarrow> 'a list" where
  "remove_at i xs = take i xs @ drop (Suc i) xs"

fun find_index :: "('a \<Rightarrow> bool) \<Rightarrow> 'a list \<Rightarrow> nat option" where
  "find_index P [] = None"
| "find_index P (x # xs) = (if P x then Some 0 else map_option Suc (find_index P xs))"

lemma clamp_le [simp, list_simps]: "clamp n i \<le> n"
  by (simp add: clamp_def)

lemma clamp_id [list_simps]: "i \<le> n \<Longrightarrow> clamp n (int i) = i"
  by (simp add: clamp_def)

lemma length_insert_at [simp]: "i \<le> length xs \<Longrightarrow> length (insert_at i x xs) = Suc (length xs)"
  by (simp add: insert_at_def)

lemma set_insert_at [simp]: "set (insert_at i x xs) = insert x (set xs)"
proof -
  have "set xs = set (take i xs) \<union> set (drop i xs)"
    by (metis append_take_drop_id set_append)
  then show ?thesis by (auto simp: insert_at_def)
qed

lemma mset_insert_at: "mset (insert_at i x xs) = add_mset x (mset xs)"
proof -
  have "mset xs = mset (take i xs) + mset (drop i xs)"
    by (metis append_take_drop_id mset_append)
  then show ?thesis by (simp add: insert_at_def)
qed

lemma mset_remove_at:
  assumes "i < length xs"
  shows "add_mset (xs ! i) (mset (remove_at i xs)) = mset xs"
proof -
  have "mset xs = mset (take i xs @ xs ! i # drop (Suc i) xs)"
    using assms by (simp add: id_take_nth_drop [symmetric])
  then show ?thesis by (simp add: remove_at_def)
qed

lemma length_remove_at: "i < length xs \<Longrightarrow> length (remove_at i xs) = length xs - 1"
  by (simp add: remove_at_def)

lemma distinct_map_insert_at:
  "distinct (map f (insert_at i x xs)) \<longleftrightarrow> f x \<notin> f ` set xs \<and> distinct (map f xs)"
proof -
  have "distinct (map f (insert_at i x xs)) \<longleftrightarrow> distinct (map f (x # xs))"
    by (rule mset_eq_imp_distinct_iff) (simp add: mset_insert_at)
  then show ?thesis by simp
qed

lemma nth_insert_at: "i \<le> length xs \<Longrightarrow> insert_at i x xs ! i = x"
  by (simp add: insert_at_def nth_append)

lemma remove_insert_at: "i \<le> length xs \<Longrightarrow> remove_at i (insert_at i x xs) = xs"
  by (simp add: remove_at_def insert_at_def min_absorb2)

lemma find_index_Some:
  "find_index P xs = Some i \<Longrightarrow> i < length xs \<and> P (xs ! i) \<and> (\<forall>j<i. \<not> P (xs ! j))"
proof (induction xs arbitrary: i)
  case (Cons x xs)
  show ?case
  proof (cases "P x")
    case False
    with Cons.prems obtain j where j: "find_index P xs = Some j" "i = Suc j" by auto
    from Cons.IH [OF j(1)] False j(2) show ?thesis
      by (auto simp: less_Suc_eq_0_disj)
  qed (use Cons.prems in auto)
qed simp

lemma find_index_None: "find_index P xs = None \<longleftrightarrow> (\<forall>x\<in>set xs. \<not> P x)"
  by (induction xs) auto

lemma find_index_nth: "distinct xs \<Longrightarrow> i < length xs \<Longrightarrow> find_index (\<lambda>k. k = xs ! i) xs = Some i"
proof (induction xs arbitrary: i)
  case (Cons x xs)
  then show ?case by (cases i) auto
qed simp

lemma set_list_update_subset: "set (xs[i := x]) \<subseteq> insert x (set xs)"
  by (rule set_update_subset_insert)

section \<open>Dictionaries\<close>

text \<open>
  A \<open>dict\<close> is an association list in insertion order. \<open>d[k] = v\<close> keeps the place of a key that is
  there and appends a new one (\<open>AList.update\<close>), \<open>del d[k]\<close> is \<open>AList.delete\<close>, \<open>d.get(k)\<close> is
  \<open>map_of\<close>, and \<open>d.setdefault(k, v)\<close> appends a key that is not there.
\<close>

definition setdefault :: "('k \<times> 'v) list \<Rightarrow> 'k \<Rightarrow> 'v \<Rightarrow> ('k \<times> 'v) list" where
  "setdefault d k v = (if map_of d k = None then d @ [(k, v)] else d)"

lemma map_of_setdefault:
  "map_of (setdefault d k v) j = (if j = k \<and> map_of d k = None then Some v else map_of d j)"
  by (auto simp: setdefault_def map_of_append map_add_def split: option.splits)

lemma map_of_update [simp]: "map_of (AList.update k v d) = (map_of d)(k \<mapsto> v)"
  by (rule update_conv')

lemma map_of_delete [simp]: "map_of (AList.delete k d) j = (if j = k then None else map_of d j)"
  by (simp add: delete_conv)

lemma distinct_keys_update: "distinct (map fst d) \<Longrightarrow> distinct (map fst (AList.update k v d))"
  by (rule distinct_update)

lemma distinct_keys_delete: "distinct (map fst d) \<Longrightarrow> distinct (map fst (AList.delete k d))"
  by (rule distinct_delete)

end
