(* ===== verification/Calendar.thy ===== *)
theory Calendar
  imports Prelude
begin

text \<open>
  What the sources use of Python's \<open>datetime\<close>: a date is its proleptic Gregorian ordinal
  (\<open>date.toordinal()\<close>, day 1 is 0001-01-01), \<open>timedelta(days=n)\<close> adds to it, \<open>weekday()\<close> counts from
  Monday, and \<open>month\<close> is worked out from the 400-year cycle. The range check of \<open>datetime\<close>
  (years 1 to 9999) is left out.
\<close>

type_synonym date = int

record datetime =
  at_day :: date
  at_hour :: int
  at_minute :: int

definition weekday :: "date \<Rightarrow> int" where
  "weekday d = (d + 6) mod 7"

definition month :: "date \<Rightarrow> int" where
  "month d =
     (let z = d + 305;
          day_of_era = z mod 146097;
          year_of_era = (day_of_era - day_of_era div 1460 + day_of_era div 36524
                         - day_of_era div 146096) div 365;
          day_of_year = day_of_era - (365 * year_of_era + year_of_era div 4 - year_of_era div 100);
          mp = (5 * day_of_year + 2) div 153
      in if mp < 10 then mp + 3 else mp - 9)"

text \<open>\<open>at.hour * 60 + at.minute\<close>.\<close>

definition minute_of_day :: "datetime \<Rightarrow> int" where
  "minute_of_day at = at_hour at * 60 + at_minute at"

definition wf_datetime :: "datetime \<Rightarrow> bool" where
  "wf_datetime at \<longleftrightarrow> 0 \<le> at_hour at \<and> at_hour at < 24 \<and> 0 \<le> at_minute at \<and> at_minute at < 60"

lemma wf_datetime_minute: "wf_datetime at \<Longrightarrow> 0 \<le> minute_of_day at \<and> minute_of_day at < 1440"
  by (auto simp: wf_datetime_def minute_of_day_def)

lemma weekday_bounds: "0 \<le> weekday d \<and> weekday d < 7"
  by (simp add: weekday_def)

text \<open>2026-09-28 is a Monday in September, 2026-12-31 a Thursday and 2024-02-29 a Thursday.\<close>

lemma calendar_samples:
  "weekday 739887 = 0" "month 739887 = 9"
  "weekday 739981 = 3" "month 739981 = 12" "month 739982 = 1"
  "weekday 738945 = 3" "month 738945 = 2" "month 738946 = 3"
  by code_simp+

end
