(* ===== verification/Json.thy ===== *)
theory Json
  imports Prelude
begin

text \<open>
  JSON documents as \<open>json.loads\<close> hands them to the stores, and the text \<open>json.dumps\<close> writes. An
  object is a \<open>dict\<close> in document order. A float is what the sources see of it: its \<open>repr\<close> and the
  integer \<open>int\<close> truncates it to. The readers reject NaN, infinities and repeated keys
  (\<open>_unique_object\<close>), so a document here has none.
\<close>

datatype json =
    JNull
  | JBool bool
  | JInt int
  | JFloat pystr int
  | JStr pystr
  | JArr "json list"
  | JObj "(pystr \<times> json) list"

type_synonym dict = "(pystr \<times> json) list"

section \<open>The text \<open>json.dumps(payload, indent=2, ensure_ascii=False)\<close> writes\<close>

definition hex_digit :: "nat \<Rightarrow> nat" where
  "hex_digit n = (if n < 10 then 48 + n else 87 + n)"

definition escape_cp :: "nat \<Rightarrow> pystr" where
  "escape_cp c =
     (if c = 34 then [92, 34]
      else if c = 92 then [92, 92]
      else if c = 10 then [92, 110]
      else if c = 13 then [92, 114]
      else if c = 9 then [92, 116]
      else if c = 8 then [92, 98]
      else if c = 12 then [92, 102]
      else if c < 32 then [92, 117, 48, 48, hex_digit (c div 16), hex_digit (c mod 16)]
      else [c])"

definition dumps_str :: "pystr \<Rightarrow> pystr" where
  "dumps_str s = 34 # concat (map escape_cp s) @ [34]"

definition newline :: "nat \<Rightarrow> pystr" where
  "newline level = 10 # replicate (2 * level) 32"

lemma size_list_member: "y \<in> set xs \<Longrightarrow> size y \<le> size_list size xs"
  by (induction xs) auto

lemma size_list_pair_member:
  "(k, v) \<in> set ps \<Longrightarrow> size v \<le> size_list (size_prod (\<lambda>x. 0) size) ps"
  by (induction ps) auto

function (sequential) dumps :: "nat \<Rightarrow> json \<Rightarrow> pystr" where
  "dumps level JNull = lit ''null''"
| "dumps level (JBool b) = (if b then lit ''true'' else lit ''false'')"
| "dumps level (JInt i) = show_int i"
| "dumps level (JFloat r t) = r"
| "dumps level (JStr s) = dumps_str s"
| "dumps level (JArr []) = lit ''[]''"
| "dumps level (JArr (x # xs)) =
     91 # newline (Suc level) @ dumps (Suc level) x @
     concat (map (\<lambda>y. 44 # newline (Suc level) @ dumps (Suc level) y) xs) @ newline level @ [93]"
| "dumps level (JObj []) = lit ''{}''"
| "dumps level (JObj (p # ps)) =
     123 # newline (Suc level) @ dumps_str (fst p) @ lit '': '' @ dumps (Suc level) (snd p) @
     concat (map (\<lambda>q. 44 # newline (Suc level) @ dumps_str (fst q) @ lit '': '' @
       dumps (Suc level) (snd q)) ps) @ newline level @ [125]"
  by pat_completeness auto
termination
  by (relation "measure (\<lambda>(level, j). size j)")
    (auto simp: less_Suc_eq_le intro: le_SucI trans_le_add2 dest!: size_list_member size_list_pair_member)

section \<open>Which documents encode\<close>

text \<open>Every text of the document encodes as UTF-8: it holds no lone surrogate.\<close>

fun json_encodable :: "json \<Rightarrow> bool" where
  "json_encodable (JStr s) = encodable s"
| "json_encodable (JArr xs) = list_all json_encodable xs"
| "json_encodable (JObj ps) = list_all (\<lambda>p. encodable (fst p) \<and> json_encodable (snd p)) ps"
| "json_encodable _ = True"

section \<open>Reading a value\<close>

definition is_str :: "json \<Rightarrow> bool" where
  "is_str j = (case j of JStr _ \<Rightarrow> True | _ \<Rightarrow> False)"

definition is_arr :: "json \<Rightarrow> bool" where
  "is_arr j = (case j of JArr _ \<Rightarrow> True | _ \<Rightarrow> False)"

definition is_bool :: "json \<Rightarrow> bool" where
  "is_bool j = (case j of JBool _ \<Rightarrow> True | _ \<Rightarrow> False)"

definition is_dict :: "json \<Rightarrow> bool" where
  "is_dict j = (case j of JObj _ \<Rightarrow> True | _ \<Rightarrow> False)"

text \<open>\<open>int(value)\<close> for a value a document can hold; \<open>None\<close> for a \<open>TypeError\<close> or \<open>ValueError\<close>.\<close>

definition json_int :: "json \<Rightarrow> int option" where
  "json_int j =
     (case j of
        JBool b \<Rightarrow> Some (if b then 1 else 0)
      | JInt i \<Rightarrow> Some i
      | JFloat r t \<Rightarrow> Some t
      | JStr s \<Rightarrow> py_int s
      | _ \<Rightarrow> None)"

lemma is_json_simps [simp]:
  "is_str (JStr s)" "is_arr (JArr xs)" "is_bool (JBool b)" "is_dict (JObj d)"
  by (simp_all add: is_str_def is_arr_def is_bool_def is_dict_def)

end
