(* ===== verification/State_File.thy ===== *)
theory State_File
  imports Json
begin

text \<open>
  \<open>library/state_file.py\<close>: what every authoring store shares. The fields a build does not model
  (\<open>Shape\<close>, \<open>Unknown\<close>, \<open>capture_unknown\<close>, \<open>merge_unknown\<close>), format versions and faults, the
  bounded reader, and the rendered document's size check.
\<close>

section \<open>Shapes and unknown fields\<close>

datatype shape = Shape
  (known: "pystr list")
  (identity: "pystr option")
  (strip_identity: bool)
  (records: "(pystr \<times> shape) list")
  (objects: "(pystr \<times> shape) list")
  (kept: "pystr list")

definition models :: "shape \<Rightarrow> pystr \<Rightarrow> bool" where
  "models sh k \<longleftrightarrow>
     k \<in> set (known sh) \<or> k \<in> set (map fst (records sh)) \<or> k \<in> set (map fst (objects sh))"

definition identity_of :: "shape \<Rightarrow> dict \<Rightarrow> pystr option" where
  "identity_of sh r =
     (case identity sh of
        None \<Rightarrow> None
      | Some key \<Rightarrow>
          (case map_of r key of
             Some (JStr v) \<Rightarrow> Some (if strip_identity sh then strip v else v)
           | _ \<Rightarrow> None))"

datatype unknown = Unknown
  (u_fields: dict)
  (u_records: "(pystr \<times> (pystr \<times> unknown) list) list")
  (u_objects: "(pystr \<times> unknown) list")

definition nothing_unknown :: unknown where
  "nothing_unknown = Unknown [] [] []"

definition has_unknown :: "unknown \<Rightarrow> bool" where
  "has_unknown u \<longleftrightarrow> u_fields u \<noteq> [] \<or> u_records u \<noteq> [] \<or> u_objects u \<noteq> []"

text \<open>The loop over the records of one list: the first record with an identity owns it.\<close>

fun capture_list :: "(dict \<Rightarrow> unknown) \<Rightarrow> shape \<Rightarrow> pystr list \<Rightarrow> json list \<Rightarrow> (pystr \<times> unknown) list" where
  "capture_list f sh seen [] = []"
| "capture_list f sh seen (JObj r # xs) =
     (case identity_of sh r of
        None \<Rightarrow> capture_list f sh seen xs
      | Some i \<Rightarrow>
          (if i \<in> set seen then capture_list f sh seen xs
           else if has_unknown (f r) then (i, f r) # capture_list f sh (i # seen) xs
           else capture_list f sh (i # seen) xs))"
| "capture_list f sh seen (_ # xs) = capture_list f sh seen xs"

lemma capture_list_ext:
  "(\<And>r. JObj r \<in> set xs \<Longrightarrow> f r = g r) \<Longrightarrow> capture_list f sh seen xs = capture_list g sh seen xs"
  by (induction g sh seen xs rule: capture_list.induct) (auto split: option.splits)

lemma capture_list_cong [fundef_cong]:
  "xs = ys \<Longrightarrow> (\<And>r. JObj r \<in> set ys \<Longrightarrow> f r = g r) \<Longrightarrow>
     capture_list f sh seen xs = capture_list g sh seen ys"
  using capture_list_ext by blast

fun capture_unknown :: "shape \<Rightarrow> dict \<Rightarrow> unknown"
  and capture_records :: "(pystr \<times> shape) list \<Rightarrow> dict \<Rightarrow> (pystr \<times> (pystr \<times> unknown) list) list"
  and capture_objects :: "(pystr \<times> shape) list \<Rightarrow> dict \<Rightarrow> (pystr \<times> unknown) list" where
  "capture_unknown (Shape kn i st recs objs kp) d =
     Unknown (filter (\<lambda>(k, v). \<not> models (Shape kn i st recs objs kp) k) d)
       (capture_records recs d) (capture_objects objs d)"
| "capture_records [] d = []"
| "capture_records ((name, child) # rest) d =
     (case map_of d name of
        Some (JArr xs) \<Rightarrow>
          (let found = capture_list (\<lambda>r. capture_unknown child r) child [] xs
           in if found = [] then capture_records rest d else (name, found) # capture_records rest d)
      | _ \<Rightarrow> capture_records rest d)"
| "capture_objects [] d = []"
| "capture_objects ((name, child) # rest) d =
     (case map_of d name of
        Some (JObj ps) \<Rightarrow>
          (let nested = capture_unknown child ps
           in if has_unknown nested then (name, nested) # capture_objects rest d
              else capture_objects rest d)
      | _ \<Rightarrow> capture_objects rest d)"

text \<open>\<open>merge_unknown\<close> puts captured fields back: top-level fields, then nested objects, then the
  records still written, found by identity.\<close>

definition merge_fields :: "shape \<Rightarrow> dict \<Rightarrow> dict \<Rightarrow> dict" where
  "merge_fields sh fs d = foldl (\<lambda>d (k, v). if models sh k then d else setdefault d k v) d fs"

definition merge_record :: "(unknown \<Rightarrow> dict \<Rightarrow> dict) \<Rightarrow> shape \<Rightarrow> (pystr \<times> unknown) list \<Rightarrow> json \<Rightarrow> json" where
  "merge_record f child by_identity j =
     (case j of
        JObj r \<Rightarrow>
          (case identity_of child r of
             None \<Rightarrow> j
           | Some i \<Rightarrow> (case map_of by_identity i of None \<Rightarrow> j | Some u \<Rightarrow> JObj (f u r)))
      | _ \<Rightarrow> j)"

lemma merge_record_cong [fundef_cong]:
  "by1 = by2 \<Longrightarrow> j1 = j2 \<Longrightarrow> (\<And>i u r. (i, u) \<in> set by2 \<Longrightarrow> f u r = g u r) \<Longrightarrow>
     merge_record f child by1 j1 = merge_record g child by2 j2"
  by (auto simp: merge_record_def split: json.splits option.splits dest: map_of_SomeD)

lemma size_unknown_member:
  "(i, u) \<in> set us \<Longrightarrow> size u \<le> size_list (size_prod (\<lambda>x. 0) size) us"
  by (induction us) auto

function (sequential) merge_unknown :: "unknown \<Rightarrow> shape \<Rightarrow> dict \<Rightarrow> dict"
  and merge_objects :: "(pystr \<times> unknown) list \<Rightarrow> shape \<Rightarrow> dict \<Rightarrow> dict"
  and merge_records :: "(pystr \<times> (pystr \<times> unknown) list) list \<Rightarrow> shape \<Rightarrow> dict \<Rightarrow> dict" where
  "merge_unknown (Unknown fs rs os) sh d =
     merge_records rs sh (merge_objects os sh (merge_fields sh fs d))"
| "merge_objects [] sh d = d"
| "merge_objects ((name, nested) # os) sh d =
     merge_objects os sh
       (case map_of (objects sh) name of
          None \<Rightarrow> d
        | Some child \<Rightarrow>
            (case map_of d name of
               Some (JObj ps) \<Rightarrow> AList.update name (JObj (merge_unknown nested child ps)) d
             | None \<Rightarrow>
                 (if name \<in> set (kept sh)
                  then AList.update name (JObj (merge_unknown nested child [])) d else d)
             | Some JNull \<Rightarrow>
                 (if name \<in> set (kept sh)
                  then AList.update name (JObj (merge_unknown nested child [])) d else d)
             | Some _ \<Rightarrow> d))"
| "merge_records [] sh d = d"
| "merge_records ((name, by_identity) # rs) sh d =
     merge_records rs sh
       (case map_of (records sh) name of
          None \<Rightarrow> d
        | Some child \<Rightarrow>
            (case map_of d name of
               Some (JArr xs) \<Rightarrow>
                 AList.update name
                   (JArr (map (merge_record (\<lambda>u r. merge_unknown u child r) child by_identity) xs)) d
             | _ \<Rightarrow> d))"
  by pat_completeness auto

termination
  by (relation "measure (\<lambda>x. case x of Inl (u, _, _) \<Rightarrow> 2 * size u
        | Inr (Inl (us, _, _)) \<Rightarrow> Suc (2 * size_list (size_prod (\<lambda>x. 0) size) us)
        | Inr (Inr (rs, _, _)) \<Rightarrow>
            Suc (2 * size_list (size_prod (\<lambda>x. 0) (size_list (size_prod (\<lambda>x. 0) size))) rs))")
    (auto dest!: size_unknown_member)


section \<open>What a merge keeps\<close>

text \<open>A shape without nested objects, as the schedule, playlist, display and favourite files have.\<close>

fun no_objects :: "shape \<Rightarrow> bool" where
  "no_objects (Shape kn i st recs objs kp) \<longleftrightarrow> objs = [] \<and> (\<forall>p\<in>set recs. no_objects (snd p))"

lemma no_objects_child: "no_objects sh \<Longrightarrow> map_of (records sh) name = Some child \<Longrightarrow> no_objects child"
  by (cases sh) (fastforce dest: map_of_SomeD)

lemma no_objects_objects: "no_objects sh \<Longrightarrow> objects sh = []"
  by (cases sh) simp

text \<open>The part of a document a build models: the keys of the shape, and of the records below.\<close>

definition project_json :: "(dict \<Rightarrow> dict) \<Rightarrow> json \<Rightarrow> json" where
  "project_json f j = (case j of JObj r \<Rightarrow> JObj (f r) | _ \<Rightarrow> j)"

definition project_value :: "(json \<Rightarrow> json) \<Rightarrow> json \<Rightarrow> json" where
  "project_value f v = (case v of JArr xs \<Rightarrow> JArr (map f xs) | _ \<Rightarrow> v)"

fun project :: "shape \<Rightarrow> dict \<Rightarrow> dict"
  and project_entry :: "(pystr \<times> shape) list \<Rightarrow> pystr \<times> json \<Rightarrow> pystr \<times> json" where
  "project (Shape kn i st recs objs kp) d =
     map (project_entry recs) (filter (\<lambda>(k, v). models (Shape kn i st recs objs kp) k) d)"
| "project_entry [] p = p"
| "project_entry ((name, child) # rest) (k, v) =
     (if k = name then (k, project_value (project_json (\<lambda>r. project child r)) v)
      else project_entry rest (k, v))"

lemma project_entry_map_of:
  "project_entry recs (k, v) =
     (case map_of recs k of
        None \<Rightarrow> (k, v) | Some child \<Rightarrow> (k, project_value (project_json (project child)) v))"
  by (induction recs) auto

lemma fst_project_entry [simp]: "fst (project_entry recs p) = fst p"
  by (cases p) (simp add: project_entry_map_of split: option.splits)

lemma project_def':
  "project sh d = map (project_entry (records sh)) (filter (\<lambda>(k, v). models sh k) d)"
  by (cases sh) simp

lemma map_of_project:
  "map_of (project sh d) k =
     (if models sh k then map_option (\<lambda>v. snd (project_entry (records sh) (k, v))) (map_of d k)
      else None)"
  unfolding project_def' by (induction d) (auto simp: project_entry_map_of split: option.splits)

lemma project_plain [simp]:
  "models sh k \<Longrightarrow> map_of (records sh) k = None \<Longrightarrow> map_of (project sh d) k = map_of d k"
  by (simp add: map_of_project project_entry_map_of option.map_ident)

lemma project_records:
  "map_of (records sh) k = Some child \<Longrightarrow>
     map_of (project sh d) k = map_option (project_value (project_json (project child))) (map_of d k)"
  by (auto simp: map_of_project project_entry_map_of models_def dest: map_of_SomeD
      intro: rev_image_eqI)

lemma project_update_same:
  assumes "map_of d name = Some v" and "project_entry recs (name, v') = project_entry recs (name, v)"
  shows "map (project_entry recs) (filter (\<lambda>(k, v). P k) (AList.update name v' d)) =
         map (project_entry recs) (filter (\<lambda>(k, v). P k) d)"
  using assms by (induction d) (auto split: if_splits)

lemma project_merge_fields [simp]: "project sh (merge_fields sh fs d) = project sh d"
  unfolding merge_fields_def
  by (induction fs arbitrary: d) (auto simp: project_def' setdefault_def)

lemma project_merge:
  "no_objects sh \<Longrightarrow> project sh (merge_unknown u sh d) = project sh d"
  "no_objects sh \<Longrightarrow> project sh (merge_objects os sh d) = project sh d"
  "no_objects sh \<Longrightarrow> project sh (merge_records rs sh d) = project sh d"
proof (induction u sh d and os sh d and rs sh d
    rule: merge_unknown_merge_objects_merge_records.induct)
  case (5 name by_identity rs sh d)
  let ?d = "case map_of (records sh) name of None \<Rightarrow> d | Some child \<Rightarrow>
     (case map_of d name of
        Some (JArr xs) \<Rightarrow>
          AList.update name (JArr (map (merge_record (\<lambda>u r. merge_unknown u child r) child by_identity) xs)) d
      | _ \<Rightarrow> d)"
  have "project sh ?d = project sh d"
  proof (cases "\<exists>child xs. map_of (records sh) name = Some child \<and> map_of d name = Some (JArr xs)")
    case True
    then obtain child xs where c: "map_of (records sh) name = Some child"
      and x: "map_of d name = Some (JArr xs)" by blast
    have one: "project_json (project child) (merge_record (\<lambda>u r. merge_unknown u child r) child by_identity j)
       = project_json (project child) j" if "j \<in> set xs" for j
      using "5.IH"(1) [OF c x, simplified] that no_objects_child [OF "5.prems" c]
      by (auto simp: merge_record_def project_json_def split: json.splits option.splits
          dest: map_of_SomeD)
    then have "project_entry (records sh)
        (name, JArr (map (merge_record (\<lambda>u r. merge_unknown u child r) child by_identity) xs)) =
      project_entry (records sh) (name, JArr xs)"
      using c by (simp add: project_entry_map_of project_value_def)
    from project_update_same [OF x this, of "models sh"] show ?thesis
      using c x by (simp add: project_def')
  qed (auto split: option.splits json.splits)
  then show ?case using "5.IH"(2) "5.prems" by simp
qed (auto simp: no_objects_objects)


subsection \<open>Unknown fields come back\<close>

lemma capture_unknown_fields:
  "u_fields (capture_unknown sh d) = filter (\<lambda>(k, v). \<not> models sh k) d"
  by (cases sh) simp

lemma map_of_filter_keys:
  "map_of (filter (\<lambda>(k, v). P k) d) k = (if P k then map_of d k else None)"
  by (induction d) auto

lemma map_of_merge_fields:
  "map_of (merge_fields sh fs d) k =
     (case map_of d k of
        Some v \<Rightarrow> Some v
      | None \<Rightarrow> (if models sh k then None else map_of fs k))"
proof (induction fs arbitrary: d)
  case (Cons p fs)
  obtain j v where p: "p = (j, v)" by (cases p)
  let ?d = "if models sh j then d else setdefault d j v"
  have "merge_fields sh (p # fs) d = merge_fields sh fs ?d"
    by (simp add: merge_fields_def p)
  moreover have "map_of ?d k =
     (if k = j \<and> \<not> models sh j \<and> map_of d j = None then Some v else map_of d k)"
    by (simp add: map_of_setdefault)
  ultimately show ?case
    using p by (simp add: Cons.IH split: option.split)
qed (simp add: merge_fields_def split: option.split)

lemma merge_plain:
  "\<not> models sh k \<Longrightarrow> map_of (merge_objects os sh d) k = map_of d k"
  "\<not> models sh k \<Longrightarrow> map_of (merge_records rs sh d) k = map_of d k"
proof -
  assume nk: "\<not> models sh k"
  have o: "map_of (objects sh) k = None" and r: "map_of (records sh) k = None"
    using nk by (auto simp: models_def map_of_eq_None_iff)
  show "map_of (merge_objects os sh d) k = map_of d k"
  proof (induction os arbitrary: d)
    case (Cons p os)
    show ?case using o by (cases p) (auto simp: Cons split: option.splits json.splits)
  qed simp
  show "map_of (merge_records rs sh d) k = map_of d k"
  proof (induction rs arbitrary: d)
    case (Cons p rs)
    show ?case using r by (cases p) (auto simp: Cons split: option.splits json.splits)
  qed simp
qed

lemma merge_unknown_field:
  "\<not> models sh k \<Longrightarrow>
     map_of (merge_unknown u sh d) k =
       (case map_of d k of Some v \<Rightarrow> Some v | None \<Rightarrow> map_of (u_fields u) k)"
  by (cases u) (simp add: merge_plain map_of_merge_fields split: option.split)

lemma merge_captured_field:
  "\<not> models sh k \<Longrightarrow> map_of d k = None \<Longrightarrow>
     map_of (merge_unknown (capture_unknown sh old) sh d) k = map_of old k"
  by (simp add: merge_unknown_field capture_unknown_fields map_of_filter_keys)

lemma merge_without_unknown: "\<not> has_unknown u \<Longrightarrow> merge_unknown u sh d = d"
  by (cases u) (simp add: has_unknown_def merge_fields_def)

text \<open>The first record of a list with a given identity.\<close>

definition first_record :: "shape \<Rightarrow> json list \<Rightarrow> pystr \<Rightarrow> dict option" where
  "first_record sh xs i =
     (case find (\<lambda>j. case j of JObj r \<Rightarrow> identity_of sh r = Some i | _ \<Rightarrow> False) xs of
        Some (JObj r) \<Rightarrow> Some r
      | _ \<Rightarrow> None)"

lemma first_record_simps [simp]:
  "first_record sh [] i = None"
  "first_record sh (JObj r # xs) i =
     (if identity_of sh r = Some i then Some r else first_record sh xs i)"
  "\<not> is_dict j \<Longrightarrow> first_record sh (j # xs) i = first_record sh xs i"
  by (auto simp: first_record_def is_dict_def split: json.splits)

lemma map_of_capture_list:
  "map_of (capture_list f sh seen xs) i =
     (if i \<in> set seen then None
      else case first_record sh xs i of
        None \<Rightarrow> None
      | Some r \<Rightarrow> (if has_unknown (f r) then Some (f r) else None))"
  by (induction f sh seen xs rule: capture_list.induct)
    (auto simp: is_dict_def split: option.splits)

lemma map_of_capture_records:
  "distinct (map fst recs) \<Longrightarrow> map_of recs name = Some child \<Longrightarrow>
     map_of (capture_records recs d) name =
       (case map_of d name of
          Some (JArr xs) \<Rightarrow>
            (let found = capture_list (capture_unknown child) child [] xs
             in if found = [] then None else Some found)
        | _ \<Rightarrow> None)"
proof (induction recs)
  case (Cons p recs)
  obtain n c where p: "p = (n, c)" by (cases p)
  have absent: "map_of (capture_records rs d) n = None" if "n \<notin> fst ` set rs" for rs
    using that by (induction rs) (auto simp: Let_def split: option.splits json.splits)
  show ?case
  proof (cases "n = name")
    case True
    with Cons.prems p have "c = child" "name \<notin> fst ` set recs" by auto
    with True p absent [of recs] show ?thesis
      by (auto simp: Let_def split: option.splits json.splits)
  next
    case False
    with Cons p show ?thesis by (auto simp: Let_def split: option.splits json.splits)
  qed
qed simp

lemma capture_unknown_records:
  "u_records (capture_unknown sh d) = capture_records (records sh) d"
  by (cases sh) simp

lemma capture_records_Cons:
  "capture_records (p # recs) d = capture_records recs d \<or>
     (\<exists>found. capture_records (p # recs) d = (fst p, found) # capture_records recs d)"
  by (cases p) (auto simp: Let_def split: option.split json.split)

lemma capture_records_keys: "fst ` set (capture_records recs d) \<subseteq> fst ` set recs"
proof (induction recs)
  case (Cons p recs)
  with capture_records_Cons [of p recs d] show ?case
    by (elim disjE exE) (auto simp del: capture_records.simps)
qed simp

lemma distinct_capture_records:
  "distinct (map fst recs) \<Longrightarrow> distinct (map fst (capture_records recs d))"
proof (induction recs)
  case (Cons p recs)
  with capture_records_Cons [of p recs d] capture_records_keys [of recs d] show ?case
    by (elim disjE exE) (auto simp del: capture_records.simps simp: subset_iff image_iff)
qed simp

lemma merge_records_at:
  assumes "distinct (map fst rs)" and "map_of (records sh) name = Some child"
  shows "map_of (merge_records rs sh d) name =
    (case map_of rs name of
       None \<Rightarrow> map_of d name
     | Some by_identity \<Rightarrow>
         (case map_of d name of
            Some (JArr xs) \<Rightarrow>
              Some (JArr (map (merge_record (\<lambda>u r. merge_unknown u child r) child by_identity) xs))
          | v \<Rightarrow> v))"
  using assms
proof (induction rs arbitrary: d)
  case (Cons p rs)
  obtain n b where p: "p = (n, b)" by (cases p)
  show ?case
  proof (cases "n = name")
    case True
    with Cons.prems p have "map_of rs name = None" by (simp add: map_of_eq_None_iff)
    with True Cons p show ?thesis by (auto split: option.splits json.splits)
  next
    case False
    with Cons p show ?thesis by (auto split: option.splits json.splits)
  qed
qed simp

text \<open>
  Every record still written gets back exactly what the first record of that identity carried.
\<close>

lemma merge_captured_records:
  assumes flat: "no_objects sh" and dist: "distinct (map fst (records sh))"
    and child: "map_of (records sh) name = Some child"
    and old: "map_of old name = Some (JArr olds)" and new: "map_of d name = Some (JArr news)"
  shows "map_of (merge_unknown (capture_unknown sh old) sh d) name =
    Some (JArr (map (\<lambda>j. case j of
       JObj r \<Rightarrow>
         (case Option.bind (identity_of child r) (first_record child olds) of
            None \<Rightarrow> j
          | Some r0 \<Rightarrow> JObj (merge_unknown (capture_unknown child r0) child r))
     | _ \<Rightarrow> j) news))"
proof -
  let ?u = "capture_unknown sh old"
  have m: "models sh name" using child by (auto simp: models_def dest: map_of_SomeD intro: rev_image_eqI)
  have objs: "u_objects ?u = []" using flat by (cases sh) simp
  have rec: "map_of (merge_records (u_records ?u) sh (merge_fields sh (u_fields ?u) d)) name =
    (case map_of (u_records ?u) name of None \<Rightarrow> Some (JArr news)
     | Some b \<Rightarrow> Some (JArr (map (merge_record (\<lambda>u r. merge_unknown u child r) child b) news)))"
    using merge_records_at [OF _ child, of "u_records ?u"] dist new
    by (auto simp: capture_unknown_records distinct_capture_records map_of_merge_fields
        split: option.splits)
  have found: "map_of (u_records ?u) name =
    (let found = capture_list (capture_unknown child) child [] olds
     in if found = [] then None else Some found)"
    using map_of_capture_records [OF dist child, of old] old by (simp add: capture_unknown_records)
  let ?found = "capture_list (capture_unknown child) child [] olds"
  have one: "merge_record (\<lambda>u r. merge_unknown u child r) child ?found j = (case j of
       JObj r \<Rightarrow>
         (case Option.bind (identity_of child r) (first_record child olds) of
            None \<Rightarrow> j
          | Some r0 \<Rightarrow> JObj (merge_unknown (capture_unknown child r0) child r))
     | _ \<Rightarrow> j)" for j
    by (auto simp: merge_record_def map_of_capture_list merge_without_unknown
        split: json.splits option.splits)
  have "merge_unknown ?u sh d = merge_records (u_records ?u) sh (merge_fields sh (u_fields ?u) d)"
    using objs by (cases ?u) simp
  moreover have "map_of (merge_records (u_records ?u) sh (merge_fields sh (u_fields ?u) d)) name =
    Some (JArr (map (merge_record (\<lambda>u r. merge_unknown u child r) child ?found) news))"
  proof (cases "?found = []")
    case True
    then have "merge_record (\<lambda>u r. merge_unknown u child r) child ?found j = j" for j
      by (auto simp: merge_record_def split: json.splits option.splits)
    then have "map (merge_record (\<lambda>u r. merge_unknown u child r) child ?found) news = news"
      by (simp add: map_idI)
    with True rec found show ?thesis by (simp only: Let_def if_True option.case refl)
  next
    case False
    with rec found show ?thesis by (simp only: Let_def if_False option.case)
  qed
  ultimately show ?thesis by (simp only: ext [OF one])
qed

section \<open>Versions and faults\<close>

text \<open>
  Why a file is passed over. \<open>ReadFailure\<close> says it could not be read at all, and nothing is known to
  be wrong with its bytes; every other fault is about what it holds. The texts are left out, the
  data they are built from is kept.
\<close>

datatype fault_item =
    NotRegular | TooLarge | NotReadableJson | NotThisFile
  | UnsupportedVersion json | SavedByNewer int | NoRecords | TooMany
  | MalformedRecords nat | DuplicateRecords nat | InvalidRotations nat | DuplicateEntries nat
  | TooManyEntries pystr | MalformedList | MalformedListEntries nat

datatype fault = ReadFailure | ContentFault "fault_item list"

datatype fault_kind = KindNewerVersion | KindUnreadable

definition joined_faults :: "fault_item list \<Rightarrow> fault option" where
  "joined_faults fs = (if fs = [] then None else Some (ContentFault fs))"

definition read_failed :: "fault option \<Rightarrow> bool" where
  "read_failed f \<longleftrightarrow> f = Some ReadFailure"

definition fault_kind_of :: "fault option \<Rightarrow> bool \<Rightarrow> fault_kind option" where
  "fault_kind_of f newer =
     (case f of None \<Rightarrow> None | Some _ \<Rightarrow> Some (if newer then KindNewerVersion else KindUnreadable))"

text \<open>\<open>FormatVersions.declared\<close> for a store that reads versions \<open>oldest\<close> to \<open>current\<close>.\<close>

definition declared_version :: "int \<Rightarrow> int \<Rightarrow> dict \<Rightarrow> int option" where
  "declared_version oldest current d =
     (case map_of d (lit ''version'') of
        None \<Rightarrow> Some oldest
      | Some JNull \<Rightarrow> Some oldest
      | Some (JInt v) \<Rightarrow> (if oldest \<le> v \<and> v \<le> current then Some v else None)
      | Some _ \<Rightarrow> None)"

definition version_fault :: "int \<Rightarrow> dict \<Rightarrow> fault_item list" where
  "version_fault expected d =
     (case map_of d (lit ''version'') of
        None \<Rightarrow> []
      | Some JNull \<Rightarrow> []
      | Some v \<Rightarrow> (if v = JInt expected then [] else [UnsupportedVersion v]))"

definition newer_version_fault :: "int \<Rightarrow> dict \<Rightarrow> fault option" where
  "newer_version_fault understood d =
     (case map_of d (lit ''version'') of
        Some (JInt v) \<Rightarrow> (if understood < v then Some (ContentFault [SavedByNewer v]) else None)
      | _ \<Rightarrow> None)"

definition stored_version :: "dict \<Rightarrow> json" where
  "stored_version d = (case map_of d (lit ''version'') of None \<Rightarrow> JNull | Some v \<Rightarrow> v)"

record 'v reading =
  r_value :: 'v
  r_fault :: "fault option"
  r_newer :: bool
  r_unknown :: unknown
  r_version :: "int option"

definition reading_fault_kind :: "'v reading \<Rightarrow> fault_kind option" where
  "reading_fault_kind r = fault_kind_of (r_fault r) (r_newer r)"

section \<open>The bounded reader\<close>

text \<open>
  What is at a store's path: \<open>Uninspectable\<close> where \<open>lstat\<close> raises, and for a regular file its size
  and its content: bytes that could not be opened or read (or were replaced meanwhile), bytes
  \<open>json.loads\<close> refuses, or a document.
\<close>

datatype content = ReadError | NotJson | Decoded json

datatype node = Absent | Uninspectable | Symlink | Directory | Special | Regular nat content

definition decode_content :: "content \<Rightarrow> dict option \<times> fault option" where
  "decode_content c =
     (case c of
        ReadError \<Rightarrow> (None, Some ReadFailure)
      | NotJson \<Rightarrow> (None, Some (ContentFault [NotReadableJson]))
      | Decoded j \<Rightarrow>
          (if \<not> json_encodable j then (None, Some (ContentFault [NotReadableJson]))
           else (case j of
                   JObj d \<Rightarrow> (Some d, None)
                 | _ \<Rightarrow> (None, Some (ContentFault [NotThisFile])))))"

definition read_object :: "nat \<Rightarrow> node \<Rightarrow> dict option \<times> fault option" where
  "read_object maximum n =
     (case n of
        Absent \<Rightarrow> (None, None)
      | Uninspectable \<Rightarrow> (None, Some ReadFailure)
      | Regular bytes c \<Rightarrow>
          (if maximum < bytes then (None, Some (ContentFault [TooLarge])) else decode_content c)
      | _ \<Rightarrow> (None, Some (ContentFault [NotRegular])))"

section \<open>The rendered document\<close>

definition rendered_size :: "json \<Rightarrow> nat" where
  "rendered_size p = utf8_len (dumps 0 p @ [10])"

text \<open>\<open>render_json\<close>: refused when the store's own reader would find it too large.\<close>

definition render_json :: "nat \<Rightarrow> json \<Rightarrow> json result" where
  "render_json maximum p = (if maximum < rendered_size p then Inl (Err Full) else Inr p)"

lemma read_object_written:
  "rendered_size (JObj d) \<le> maximum \<Longrightarrow> json_encodable (JObj d) \<Longrightarrow>
     read_object maximum (Regular (rendered_size (JObj d)) (Decoded (JObj d))) = (Some d, None)"
  by (simp add: read_object_def decode_content_def)

lemma read_object_Some:
  "read_object maximum n = (Some d, f) \<Longrightarrow>
     f = None \<and> (\<exists>bytes. n = Regular bytes (Decoded (JObj d)) \<and> bytes \<le> maximum \<and> json_encodable (JObj d))"
  by (auto simp: read_object_def decode_content_def split: node.splits content.splits json.splits if_splits)

lemma read_object_None_fault:
  "read_object maximum n = (None, None) \<longleftrightarrow> n = Absent"
  by (auto simp: read_object_def decode_content_def split: node.splits content.splits json.splits if_splits)

end
