(* ===== verification/Store_Transaction.thy ===== *)
theory Store_Transaction
  imports State_File
begin

text \<open>
  The locked transaction every store's \<open>_mutate\<close> runs (\<open>library/schedules.py\<close>,
  \<open>playlists.py\<close>, \<open>displays.py\<close>, \<open>favourites.py\<close>), with the save it ends in, \<open>open\<close> and
  \<open>worker_copy\<close>, over an explicit disk and the outcomes of the operating system's calls. The stores
  differ in what they read, render and adopt (\<open>store_ops\<close>); the contract between a store's
  document code and the transaction is the locale \<open>authoring_store\<close>.
\<close>

section \<open>The store, the disk and the operating system\<close>

record 'v store =
  st_value :: 'v
  st_fault :: "fault option"
  st_kind :: "fault_kind option"
  st_loaded :: bool

datatype warning = MoveNotDurable | WriteNotDurable

record world =
  w_node :: node
  w_backups :: "node list"
  w_warnings :: "warning list"

text \<open>
  What the operating system answers in one transaction: the lock and the observation
  (\<open>mutation_lock\<close>, \<open>observe\<close>), moving the damaged file aside, creating the directory, and
  publishing the new file. \<open>Unsynced\<close>: it happened, and syncing the folder failed.
\<close>

datatype outcome = Done | Unsynced | Failed

record env =
  e_lock :: bool
  e_observe :: bool
  e_preserve :: outcome
  e_directory :: bool
  e_publish :: outcome

text \<open>
  What one store brings: its reader, the document its \<open>_render\<close> builds (unknown fields merged in),
  its size cap, whether it adopts the disk's fault before its change runs, the error kinds that a
  fault turns into \<open>unreadable\<close>, and whether its \<open>_write\<close> catches \<open>UnicodeError\<close>.
\<close>

record 'v store_ops =
  op_read :: "node \<Rightarrow> 'v reading result"
  op_document :: "'v \<Rightarrow> unknown \<Rightarrow> dict result"
  op_max :: nat
  op_early :: bool
  op_missing :: "error_kind list"
  op_catches_unicode :: bool

section \<open>Saving\<close>

definition render_document :: "'v store_ops \<Rightarrow> 'v \<Rightarrow> unknown \<Rightarrow> json result" where
  "render_document ops v u =
     (case op_document ops v u of Inl e \<Rightarrow> Inl e | Inr d \<Rightarrow> render_json (op_max ops) (JObj d))"

text \<open>\<open>save\<close> inside \<open>published_counts\<close>: a publication whose folder sync failed counts as one.\<close>

definition save_document :: "'v store_ops \<Rightarrow> env \<Rightarrow> 'v \<Rightarrow> unknown \<Rightarrow> world \<Rightarrow> unit result \<times> world" where
  "save_document ops env v u w =
     (case render_document ops v u of
        Inl e \<Rightarrow> (Inl e, w)
      | Inr p \<Rightarrow>
          (if \<not> e_directory env then (Inl (Err LocalIO), w)
           else if \<not> json_encodable p
             then (Inl (if op_catches_unicode ops then Err LocalIO else ValueErr), w)
           else (case e_publish env of
                   Failed \<Rightarrow> (Inl (Err LocalIO), w)
                 | Done \<Rightarrow> (Inr (), w\<lparr>w_node := Regular (rendered_size p) (Decoded p)\<rparr>)
                 | Unsynced \<Rightarrow>
                     (Inr (), w\<lparr>w_node := Regular (rendered_size p) (Decoded p),
                                w_warnings := w_warnings w @ [WriteNotDurable]\<rparr>))))"

text \<open>\<open>preserve_faulted\<close>: the file moves to a free \<open>.broken\<close> name; a directory never does.\<close>

definition preserve_faulted :: "env \<Rightarrow> world \<Rightarrow> unit result \<times> world" where
  "preserve_faulted env w =
     (if w_node w = Absent \<or> w_node w = Directory then (Inl (Err LocalIO), w)
      else case e_preserve env of
        Failed \<Rightarrow> (Inl (Err LocalIO), w)
      | Done \<Rightarrow> (Inr (), w\<lparr>w_node := Absent, w_backups := w_backups w @ [w_node w]\<rparr>)
      | Unsynced \<Rightarrow>
          (Inr (), w\<lparr>w_node := Absent, w_backups := w_backups w @ [w_node w],
                     w_warnings := w_warnings w @ [MoveNotDurable]\<rparr>))"

text \<open>The write of a transaction whose change did change something.\<close>

definition persist :: "'v store_ops \<Rightarrow> env \<Rightarrow> fault option \<Rightarrow> 'v \<Rightarrow> unknown \<Rightarrow> world \<Rightarrow> unit result \<times> world" where
  "persist ops env fault v u w =
     (case render_document ops v u of
        Inl e \<Rightarrow> (Inl e, w)
      | Inr _ \<Rightarrow>
          (if fault = None then save_document ops env v u w
           else case preserve_faulted env w of
             (Inl e, w1) \<Rightarrow> (Inl e, w1)
           | (Inr _, w1) \<Rightarrow> save_document ops env v u w1))"

section \<open>The transaction\<close>

text \<open>
  \<open>change\<close> is one operation's inner function: on the value read under the lock it raises, or
  returns its result, whether anything changed, and the value it leaves.
\<close>

type_synonym ('v, 'r) change = "'v \<Rightarrow> ('r \<times> bool \<times> 'v) result"

definition transact ::
  "'v store_ops \<Rightarrow> env \<Rightarrow> bool \<Rightarrow> ('v, 'r) change \<Rightarrow> 'v store \<Rightarrow> world \<Rightarrow> 'r result \<times> 'v store \<times> world"
where
  "transact ops env refuse change st w =
     (if \<not> e_lock env \<or> \<not> e_observe env \<or> w_node w = Uninspectable then (Inl (Err LocalIO), st, w)
      else case op_read ops (w_node w) of
        Inl e \<Rightarrow> (Inl e, st, w)
      | Inr r \<Rightarrow>
          (if r_newer r
           then (Inl (Err NewerVersion),
                 st\<lparr>st_fault := r_fault r, st_kind := reading_fault_kind r\<rparr>, w)
           else
             let durable = (w_node w \<noteq> Absent \<or> st_loaded st);
                 base = (if durable then r_value r else st_value st);
                 st1 = (if op_early ops \<and> durable
                        then st\<lparr>st_fault := r_fault r, st_kind := reading_fault_kind r,
                                st_loaded := True\<rparr>
                        else st)
             in if r_fault r \<noteq> None \<and> (refuse \<or> read_failed (r_fault r))
                then (Inl (Err Unreadable), st1, w)
                else case change base of
                  Inl e \<Rightarrow>
                    (Inl (if r_fault r \<noteq> None \<and> (\<exists>k\<in>set (op_missing ops). e = Err k)
                          then Err Unreadable else e), st1, w)
                | Inr (res, changed, v) \<Rightarrow>
                    (let loaded = (if op_early ops then durable \<or> changed else True)
                     in if \<not> changed
                        then (Inr res,
                              \<lparr>st_value = v, st_fault = r_fault r,
                               st_kind = fault_kind_of (r_fault r) False, st_loaded = loaded\<rparr>, w)
                        else case persist ops env (r_fault r) v (r_unknown r) w of
                          (Inl e, w1) \<Rightarrow> (Inl e, st1, w1)
                        | (Inr _, w1) \<Rightarrow>
                            (Inr res, \<lparr>st_value = v, st_fault = None, st_kind = None,
                                       st_loaded = loaded\<rparr>, w1))))"

text \<open>\<open>Store.open\<close> and \<open>Store.worker_copy\<close>.\<close>

definition open_store :: "'v store_ops \<Rightarrow> world \<Rightarrow> 'v store result" where
  "open_store ops w =
     (case op_read ops (w_node w) of
        Inl e \<Rightarrow> Inl e
      | Inr r \<Rightarrow> Inr \<lparr>st_value = r_value r, st_fault = r_fault r, st_kind = reading_fault_kind r,
                      st_loaded = True\<rparr>)"

definition worker_copy :: "'v store_ops \<Rightarrow> bool \<Rightarrow> 'v store \<Rightarrow> world \<Rightarrow> 'v store result" where
  "worker_copy ops rebase st w =
     (if rebase \<and> (w_node w \<noteq> Absent \<or> st_loaded st) then open_store ops w else Inr st)"

text \<open>\<open>durable_problem\<close>: why no change can be made to the file as it is, with no write.\<close>

definition durable_problem :: "'v store_ops \<Rightarrow> world \<Rightarrow> error_kind option result" where
  "durable_problem ops w =
     (case op_read ops (w_node w) of
        Inl e \<Rightarrow> Inl e
      | Inr r \<Rightarrow>
          Inr (if r_newer r then Some NewerVersion
               else if r_fault r \<noteq> None then Some Unreadable else None))"

text \<open>The operating system when nothing fails, for the samples.\<close>

definition calm :: env where
  "calm = \<lparr>e_lock = True, e_observe = True, e_preserve = Done, e_directory = True, e_publish = Done\<rparr>"

text \<open>A store as \<open>open\<close> leaves it where there was no file yet.\<close>

definition opened_empty :: "'a list store" where
  "opened_empty = \<lparr>st_value = [], st_fault = None, st_kind = None, st_loaded = True\<rparr>"

definition holding :: "dict \<Rightarrow> world" where
  "holding d = \<lparr>w_node = Regular 1 (Decoded (JObj d)), w_backups = [], w_warnings = []\<rparr>"

section \<open>What every transaction guarantees\<close>

lemma save_document_error: "save_document ops env v u w = (Inl e, w1) \<Longrightarrow> w1 = w"
  by (auto simp: save_document_def split: sum.splits if_splits outcome.splits)

lemma save_document_ok:
  "save_document ops env v u w = (Inr x, w1) \<Longrightarrow>
     \<exists>d. op_document ops v u = Inr d \<and> rendered_size (JObj d) \<le> op_max ops \<and>
         json_encodable (JObj d) \<and> w_node w1 = Regular (rendered_size (JObj d)) (Decoded (JObj d)) \<and>
         w_backups w1 = w_backups w"
  by (auto simp: save_document_def render_document_def render_json_def
      split: sum.splits if_splits outcome.splits)

lemma preserve_faulted_cases:
  "preserve_faulted env w = (x, w1) \<Longrightarrow>
     (\<exists>e. x = Inl e) \<and> w1 = w \<or>
     x = Inr () \<and> w_node w1 = Absent \<and> w_backups w1 = w_backups w @ [w_node w]"
  by (auto simp: preserve_faulted_def split: if_splits outcome.splits)

lemma persist_error:
  "persist ops env fault v u w = (Inl e, w1) \<Longrightarrow>
     w1 = w \<or> (fault \<noteq> None \<and> w_node w1 = Absent \<and> w_backups w1 = w_backups w @ [w_node w])"
  by (auto simp: persist_def split: sum.splits if_splits prod.splits
      dest!: save_document_error preserve_faulted_cases)

lemma persist_ok:
  "persist ops env fault v u w = (Inr x, w1) \<Longrightarrow>
     \<exists>d. op_document ops v u = Inr d \<and> rendered_size (JObj d) \<le> op_max ops \<and>
         json_encodable (JObj d) \<and> w_node w1 = Regular (rendered_size (JObj d)) (Decoded (JObj d)) \<and>
         w_backups w1 = w_backups w @ (if fault = None then [] else [w_node w])"
  by (auto simp: persist_def split: sum.splits if_splits prod.splits
      dest!: save_document_ok preserve_faulted_cases)

text \<open>The one case split the properties of a transaction start from.\<close>

lemma transact_cases:
  assumes "transact ops env refuse change st w = (res, st1, w1)"
  obtains
    (stopped) e where "res = Inl e" "st_value st1 = st_value st" "w1 = w"
  | (not_saved) r e x v where "res = Inl e" "st_value st1 = st_value st"
      "op_read ops (w_node w) = Inr r" "\<not> r_newer r"
      "persist ops env (r_fault r) v (r_unknown r) w = (Inl e, w1)"
      "r_fault r \<noteq> None \<longrightarrow> \<not> refuse \<and> \<not> read_failed (r_fault r)"
      "change (if w_node w \<noteq> Absent \<or> st_loaded st then r_value r else st_value st) = Inr (x, True, v)"
  | (unchanged) r x v where "res = Inr x" "w1 = w" "st_value st1 = v" "st_fault st1 = r_fault r"
      "op_read ops (w_node w) = Inr r" "\<not> r_newer r"
      "r_fault r \<noteq> None \<longrightarrow> \<not> refuse \<and> \<not> read_failed (r_fault r)"
      "change (if w_node w \<noteq> Absent \<or> st_loaded st then r_value r else st_value st) = Inr (x, False, v)"
  | (saved) r x v where "res = Inr x" "st_value st1 = v" "st_fault st1 = None" "st_loaded st1"
      "op_read ops (w_node w) = Inr r" "\<not> r_newer r"
      "r_fault r \<noteq> None \<longrightarrow> \<not> refuse \<and> \<not> read_failed (r_fault r)"
      "change (if w_node w \<noteq> Absent \<or> st_loaded st then r_value r else st_value st) = Inr (x, True, v)"
      "persist ops env (r_fault r) v (r_unknown r) w = (Inr (), w1)"
proof (cases "\<not> e_lock env \<or> \<not> e_observe env \<or> w_node w = Uninspectable")
  case True
  with assms stopped show ?thesis by (auto simp: transact_def)
next
  case ok: False
  show ?thesis
  proof (cases "op_read ops (w_node w)")
    case (Inl e)
    with assms ok stopped show ?thesis by (auto simp: transact_def)
  next
    case (Inr r)
    let ?base = "if w_node w \<noteq> Absent \<or> st_loaded st then r_value r else st_value st"
    show ?thesis
    proof (cases "r_newer r \<or> r_fault r \<noteq> None \<and> (refuse \<or> read_failed (r_fault r))")
      case True
      with assms ok Inr stopped show ?thesis
        by (auto simp: transact_def Let_def split: if_splits)
    next
      case go: False
      show ?thesis
      proof (cases "change ?base")
        case (Inl e)
        with assms ok Inr go stopped show ?thesis
          by (auto simp: transact_def Let_def split: if_splits)
      next
        case change: (Inr y)
        obtain x changed v where y: "y = (x, changed, v)" by (cases y)
        show ?thesis
        proof (cases changed)
          case False
          with assms ok Inr go change y show ?thesis
            by (intro unchanged [of x v r]) (auto simp: transact_def Let_def split: if_splits)
        next
          case True
          obtain z w2 where p: "persist ops env (r_fault r) v (r_unknown r) w = (z, w2)"
            by (cases "persist ops env (r_fault r) v (r_unknown r) w")
          show ?thesis
          proof (cases z)
            case (Inl e)
            with assms ok \<open>op_read ops (w_node w) = Inr r\<close> go change y True p show ?thesis
              by (intro not_saved [of e r v x]) (auto simp: transact_def Let_def split: if_splits)
          next
            case (Inr u)
            with assms ok \<open>op_read ops (w_node w) = Inr r\<close> go change y True p show ?thesis
              by (intro saved [of x v r]) (auto simp: transact_def Let_def split: if_splits)
          qed
        qed
      qed
    qed
  qed
qed

lemma transact_error_keeps:
  assumes "transact ops env refuse change st w = (Inl e, st1, w1)"
  shows "st_value st1 = st_value st \<and>
    (w1 = w \<or> (w_node w1 = Absent \<and> w_backups w1 = w_backups w @ [w_node w]))"
  using assms
proof (cases rule: transact_cases)
  case (not_saved r e' x v)
  then show ?thesis using persist_error [of ops env "r_fault r" v "r_unknown r" w e' w1] by auto
qed auto

lemma transact_newer:
  assumes "op_read ops (w_node w) = Inr r" and "r_newer r"
  shows "transact ops env refuse change st w = (res, st1, w1) \<Longrightarrow>
    (res = Inl (Err NewerVersion) \<or> res = Inl (Err LocalIO)) \<and> w1 = w \<and> st_value st1 = st_value st"
  using assms by (auto simp: transact_def split: if_splits)

lemma transact_untouched:
  assumes "transact ops env refuse change st w = (res, st1, w1)"
    and "op_read ops (w_node w) = Inr r" and "r_newer r \<or> read_failed (r_fault r)"
  shows "w1 = w \<and> st_value st1 = st_value st \<and> \<not> is_ok res"
  using assms(1)
proof (cases rule: transact_cases)
  case (not_saved r' e x v)
  with assms(2,3) show ?thesis by (auto simp: read_failed_def)
next
  case (unchanged r' x v)
  with assms(2,3) show ?thesis by (auto simp: read_failed_def)
next
  case (saved r' x v)
  with assms(2,3) show ?thesis by (auto simp: read_failed_def)
qed auto

lemma transact_keeps_clean:
  assumes "transact ops env refuse change st w = (res, st1, w1)"
  shows "set (w_backups w) \<subseteq> set (w_backups w1) \<and>
    (w_node w1 = w_node w \<or> w_node w \<in> set (w_backups w1) \<or>
     (\<exists>r. op_read ops (w_node w) = Inr r \<and> r_fault r = None \<and> \<not> r_newer r))"
  using assms
proof (cases rule: transact_cases)
  case (not_saved r e x v)
  then show ?thesis using persist_error [of ops env "r_fault r" v "r_unknown r" w e w1] by auto
next
  case (saved r x v)
  then show ?thesis using persist_ok [of ops env "r_fault r" v "r_unknown r" w "()" w1] by auto
qed auto

text \<open>What the file and the store both satisfy and every change keeps, the store satisfies after.\<close>

lemma transact_keeps:
  assumes "transact ops env refuse change st w = (res, st1, w1)"
    and "\<And>v x b v'. Q v \<Longrightarrow> change v = Inr (x, b, v') \<Longrightarrow> Q v'"
    and "Q (st_value st)" and "\<And>r. op_read ops (w_node w) = Inr r \<Longrightarrow> Q (r_value r)"
  shows "Q (st_value st1)"
  using assms(1)
proof (cases rule: transact_cases)
  case (unchanged r x v)
  have "Q (if w_node w \<noteq> Absent \<or> st_loaded st then r_value r else st_value st)"
    using assms(3) assms(4) [OF unchanged(5)] by simp
  from assms(2) [OF this unchanged(8)] show ?thesis using unchanged(3) by simp
next
  case (saved r x v)
  have "Q (if w_node w \<noteq> Absent \<or> st_loaded st then r_value r else st_value st)"
    using assms(3) assms(4) [OF saved(5)] by simp
  from assms(2) [OF this saved(8)] show ?thesis using saved(2) by simp
qed (use assms(3) in auto)

text \<open>A transaction that refuses a damaged file never touches one.\<close>

lemma transact_refusing_error:
  assumes "transact ops env True change st w = (Inl e, st1, w1)"
  shows "st_value st1 = st_value st \<and> w1 = w"
  using assms
proof (cases rule: transact_cases)
  case (not_saved r e' x v)
  then show ?thesis using persist_error by fastforce
qed auto

lemma transact_refusing_ok:
  assumes "transact ops env True change st w = (Inr x, st1, w1)" and "op_read ops (w_node w) = Inr r"
  shows "r_fault r = None \<and> \<not> r_newer r"
  using assms(1)
proof (cases rule: transact_cases)
  case (unchanged r' y v)
  with assms(2) show ?thesis by auto
next
  case (saved r' y v)
  with assms(2) show ?thesis by auto
qed auto

section \<open>The contract of a store's document code\<close>

text \<open>
  \<open>wf\<close> is the store's invariant on the values it holds, whatever file they were read from, \<open>clean\<close>
  what a value read without a fault satisfies beside it, \<open>content\<close> what a value means (for a map of
  records: the map, whatever the order). The provider promises that its reader returns
  well-formed values, clean ones where it finds no fault, and that the document it renders of a clean
  value reads back, with no fault, as that value.
\<close>

locale authoring_store =
  fixes ops :: "'v store_ops" and wf :: "'v \<Rightarrow> bool" and clean :: "'v \<Rightarrow> bool" and content :: "'v \<Rightarrow> 'c"
  assumes read_wf: "op_read ops n = Inr r \<Longrightarrow> wf (r_value r)"
    and read_clean: "op_read ops n = Inr r \<Longrightarrow> r_fault r = None \<Longrightarrow> clean (r_value r)"
    and read_absent: "\<exists>r. op_read ops Absent = Inr r \<and> r_fault r = None \<and> \<not> r_newer r"
    and reads_back: "wf v \<Longrightarrow> clean v \<Longrightarrow> op_document ops v u = Inr d \<Longrightarrow> bytes \<le> op_max ops \<Longrightarrow>
      json_encodable (JObj d) \<Longrightarrow>
      \<exists>r. op_read ops (Regular bytes (Decoded (JObj d))) = Inr r \<and> r_fault r = None \<and>
          \<not> r_newer r \<and> content (r_value r) = content v"
begin

text \<open>A change keeps the invariant.\<close>

definition preserves :: "('v, 'r) change \<Rightarrow> bool" where
  "preserves change \<longleftrightarrow> (\<forall>v x b v'. wf v \<longrightarrow> change v = Inr (x, b, v') \<longrightarrow> wf v')"

text \<open>A change makes no clean value one that would not read back.\<close>

definition keeps_clean :: "('v, 'r) change \<Rightarrow> bool" where
  "keeps_clean change \<longleftrightarrow>
     (\<forall>v x b v'. wf v \<longrightarrow> clean v \<longrightarrow> change v = Inr (x, b, v') \<longrightarrow> clean v')"

lemma transact_wf:
  assumes "transact ops env refuse change st w = (res, st1, w1)" and "preserves change"
    and "wf (st_value st)"
  shows "wf (st_value st1)"
proof -
  have base: "op_read ops n = Inr r \<Longrightarrow> wf (if b then r_value r else st_value st)" for n r b
    using read_wf assms(3) by simp
  from assms(1) show ?thesis
  proof (cases rule: transact_cases)
    case (unchanged r x v)
    then show ?thesis using base assms(2) unfolding preserves_def by blast
  next
    case (saved r x v)
    then show ?thesis using base assms(2) unfolding preserves_def by blast
  qed (use assms(3) in auto)
qed

text \<open>A transaction that changed something is what the next reader finds.\<close>

lemma transact_saved_reads_back:
  assumes t: "transact ops env refuse change st w = (Inr x, st1, w1)" and "preserves change"
    and "wf (st_value st)" and "w1 \<noteq> w" and "clean (st_value st1)"
  shows "\<exists>r. op_read ops (w_node w1) = Inr r \<and> r_fault r = None \<and> \<not> r_newer r \<and>
    content (r_value r) = content (st_value st1)"
  using t
proof (cases rule: transact_cases)
  case (saved r y v)
  from persist_ok [OF saved(9)] obtain d where
    "op_document ops v (r_unknown r) = Inr d" "rendered_size (JObj d) \<le> op_max ops"
    "json_encodable (JObj d)" "w_node w1 = Regular (rendered_size (JObj d)) (Decoded (JObj d))"
    by blast
  moreover have "wf v" using transact_wf [OF t assms(2,3)] saved(2) by simp
  ultimately show ?thesis using reads_back saved(2) assms(5) by metis
qed (use assms(4) in auto)

text \<open>
  Whatever this process held in memory, a change that succeeds runs on what the file holds: the
  value adopted is the change applied to the disk's value.
\<close>

lemma transact_rebases:
  assumes "transact ops env refuse change st w = (Inr x, st1, w1)"
    and "op_read ops (w_node w) = Inr r" and "w_node w \<noteq> Absent \<or> st_loaded st"
  shows "\<exists>b. change (r_value r) = Inr (x, b, st_value st1)"
  using assms(1)
proof (cases rule: transact_cases)
  case (unchanged r' y v)
  with assms(2,3) show ?thesis by auto
next
  case (saved r' y v)
  with assms(2,3) show ?thesis by auto
qed auto

end

section \<open>Several processes on one file\<close>

text \<open>
  The GUI, the control helper and the crash replayer each hold a store of their own and take turns at
  the lock, in any order: a job is the process it runs in, what the operating system answers it, and
  its change. \<open>serial_value\<close> is the abstract machine: the changes that succeeded, one after the other,
  on one value.
\<close>

record ('v, 'r) job =
  job_process :: nat
  job_env :: env
  job_refuse :: bool
  job_change :: "('v, 'r) change"

fun run_jobs ::
  "'v store_ops \<Rightarrow> ('v, 'r) job list \<Rightarrow> (nat \<Rightarrow> 'v store) \<Rightarrow> world \<Rightarrow> 'r result list \<times> (nat \<Rightarrow> 'v store) \<times> world"
where
  "run_jobs ops [] sts w = ([], sts, w)"
| "run_jobs ops (j # js) sts w =
     (let (res, st, w1) =
            transact ops (job_env j) (job_refuse j) (job_change j) (sts (job_process j)) w;
          (rest, sts2, w2) = run_jobs ops js (sts(job_process j := st)) w1
      in (res # rest, sts2, w2))"

fun serial_value :: "('v, 'r) job list \<Rightarrow> 'r result list \<Rightarrow> 'v \<Rightarrow> 'v" where
  "serial_value (j # js) (Inr x # rs) v =
     (case job_change j v of
        Inr (_, _, v') \<Rightarrow> serial_value js rs v'
      | Inl _ \<Rightarrow> serial_value js rs v)"
| "serial_value (j # js) (Inl e # rs) v = serial_value js rs v"
| "serial_value _ _ v = v"

text \<open>A store whose documents read back as the very value they were rendered from.\<close>

locale exact_store = authoring_store ops wf clean "\<lambda>v. v" for ops :: "'v store_ops" and wf and clean
begin

text \<open>A change that says nothing changed leaves the value alone.\<close>

definition honest :: "('v, 'r) change \<Rightarrow> bool" where
  "honest change \<longleftrightarrow> (\<forall>v x v'. wf v \<longrightarrow> change v = Inr (x, False, v') \<longrightarrow> v' = v)"

definition holds_value :: "world \<Rightarrow> 'v \<Rightarrow> bool" where
  "holds_value w v \<longleftrightarrow>
     (\<exists>r. op_read ops (w_node w) = Inr r \<and> r_fault r = None \<and> \<not> r_newer r \<and> r_value r = v)"

lemma transact_loaded:
  "transact ops env refuse change st w = (res, st1, w1) \<Longrightarrow> st_loaded st \<Longrightarrow> st_loaded st1"
  by (auto simp: transact_def Let_def split: if_splits sum.splits prod.splits)

lemma transact_step:
  assumes t: "transact ops env refuse change st w = (res, st1, w1)"
    and disk: "holds_value w v" and loaded: "st_loaded st" and wf: "wf (st_value st)"
    and "preserves change" and "keeps_clean change" and "honest change"
  shows "holds_value w1
    (case res of Inl _ \<Rightarrow> v
     | Inr _ \<Rightarrow> (case change v of Inr (_, _, v') \<Rightarrow> v' | Inl _ \<Rightarrow> v))"
proof -
  obtain r where r: "op_read ops (w_node w) = Inr r" "r_fault r = None" "r_value r = v"
    using disk unfolding holds_value_def by blast
  from t show ?thesis
  proof (cases rule: transact_cases)
    case (stopped e)
    then show ?thesis using disk by simp
  next
    case (not_saved r' e x v')
    with persist_error [OF not_saved(5)] r disk show ?thesis by auto
  next
    case (unchanged r' x v')
    moreover have "wf v" using read_wf [OF r(1)] r(3) by simp
    ultimately have "change v = Inr (x, False, v)"
      using r loaded \<open>honest change\<close> by (auto simp: honest_def)
    with unchanged disk show ?thesis by simp
  next
    case (saved r' x v')
    with r loaded have ch: "change v = Inr (x, True, v')" by auto
    have "wf v" "clean v" using read_wf [OF r(1)] read_clean [OF r(1,2)] r(3) by simp_all
    with ch \<open>preserves change\<close> \<open>keeps_clean change\<close> have "wf v'" "clean v'"
      unfolding preserves_def keeps_clean_def by blast+
    with persist_ok [OF saved(9)] reads_back show ?thesis
      unfolding holds_value_def using saved(1) ch by fastforce
  qed
qed

theorem jobs_serialize:
  assumes "run_jobs ops jobs sts w = (results, sts', w')" and "holds_value w v"
    and "\<forall>p. st_loaded (sts p) \<and> wf (st_value (sts p))"
    and "\<forall>j\<in>set jobs. preserves (job_change j) \<and> keeps_clean (job_change j) \<and> honest (job_change j)"
  shows "holds_value w' (serial_value jobs results v)"
  using assms
proof (induction jobs arbitrary: sts w v results)
  case (Cons j js)
  obtain res st1 w1 where t:
    "transact ops (job_env j) (job_refuse j) (job_change j) (sts (job_process j)) w = (res, st1, w1)"
    by (metis prod_cases3)
  obtain rest sts2 w2 where run: "run_jobs ops js (sts(job_process j := st1)) w1 = (rest, sts2, w2)"
    by (metis prod_cases3)
  from Cons.prems t run have res: "results = res # rest" "w' = w2" "sts' = sts2" by auto
  have loaded: "st_loaded (sts (job_process j))" and wf: "wf (st_value (sts (job_process j)))"
    and pres: "preserves (job_change j)" and cl: "keeps_clean (job_change j)" and hon: "honest (job_change j)"
    using Cons.prems by auto
  let ?v = "case res of Inl _ \<Rightarrow> v
     | Inr _ \<Rightarrow> (case job_change j v of Inr (_, _, v') \<Rightarrow> v' | Inl _ \<Rightarrow> v)"
  have "holds_value w1 ?v" by (rule transact_step [OF t Cons.prems(2) loaded wf pres cl hon])
  moreover have "\<forall>p. st_loaded ((sts(job_process j := st1)) p) \<and> wf (st_value ((sts(job_process j := st1)) p))"
    using Cons.prems(3) transact_loaded [OF t loaded] transact_wf [OF t pres wf] by simp
  ultimately have "holds_value w2 (serial_value js rest ?v)"
    using Cons.IH run res Cons.prems(4) by simp
  moreover have "serial_value (j # js) results v = serial_value js rest ?v"
    using res by (cases res) (auto split: sum.splits)
  ultimately show ?case using res by simp
qed simp

end

end
