(* ===== verification/Schedules.thy ===== *)
theory Schedules
  imports Calendar Store_Transaction
begin

text \<open>
  \<open>library/schedules.py\<close>: a rule, its parsing and printing, when it matches, which rule is in force,
  and the \<open>schedules.json\<close> document. The store's operations are in \<open>Schedule_Store\<close>.
\<close>

section \<open>Cleaning what a rule is made of\<close>

definition MAX_RULES :: nat where "MAX_RULES = 512"
definition MAX_CONNECTOR_BYTES :: nat where "MAX_CONNECTOR_BYTES = 256"
definition MAX_NAME_LENGTH :: nat where "MAX_NAME_LENGTH = 120"
definition MAX_SCHEDULE_BYTES :: nat where "MAX_SCHEDULE_BYTES = 4 * 1024 * 1024"

definition clean_connector :: "pystr \<Rightarrow> pystr result" where
  "clean_connector raw =
     (if \<not> encodable raw then Inl (Err InvalidConnector)
      else if MAX_CONNECTOR_BYTES < utf8_len raw then Inl (Err InvalidConnector)
      else if list_ex cp_isspace raw then Inl (Err InvalidConnector)
      else if list_ex cp_control raw then Inl (Err InvalidConnector)
      else Inr raw)"

definition tidy_name :: "pystr option \<Rightarrow> pystr option result" where
  "tidy_name raw =
     (case raw of
        None \<Rightarrow> Inr None
      | Some s \<Rightarrow>
          (let name = collapse s
           in if name = [] then Inr None
              else if MAX_NAME_LENGTH < length name then Inl (Err InvalidName)
              else if \<not> encodable name then Inl (Err InvalidName)
              else Inr (Some name)))"

text \<open>\<open>str.partition(":")\<close>: what is before and after the first colon, if there is one.\<close>

definition partition_colon :: "pystr \<Rightarrow> (pystr \<times> pystr) option" where
  "partition_colon s =
     (case dropWhile (\<lambda>c. c \<noteq> 58) s of
        [] \<Rightarrow> None
      | _ # rest \<Rightarrow> Some (takeWhile (\<lambda>c. c \<noteq> 58) s, rest))"

definition isdigit :: "pystr \<Rightarrow> bool" where
  "isdigit s \<longleftrightarrow> s \<noteq> [] \<and> list_all cp_isdigit s"

text \<open>\<open>int(hours)\<close> and \<open>int(minutes)\<close> are outside every \<open>try\<close>: what \<open>isdigit\<close> accepts and \<open>int\<close>
  does not ends in a \<open>ValueError\<close> of Python's own.\<close>

definition parse_time :: "pystr \<Rightarrow> int result" where
  "parse_time raw =
     (case partition_colon (strip raw) of
        None \<Rightarrow> Inl (Err InvalidTime)
      | Some (hours, minutes) \<Rightarrow>
          (if \<not> isdigit hours \<or> \<not> isdigit minutes then Inl (Err InvalidTime)
           else case int_of_digits hours of
             None \<Rightarrow> Inl ValueErr
           | Some hour \<Rightarrow>
               (case int_of_digits minutes of
                  None \<Rightarrow> Inl ValueErr
                | Some minute \<Rightarrow>
                    (if 23 < hour \<or> 59 < minute then Inl (Err InvalidTime)
                     else Inr (hour * 60 + minute)))))"

definition format_time :: "int \<Rightarrow> pystr" where
  "format_time m = pad2 (m div 60) @ lit '':'' @ pad2 (m mod 60)"

definition weekday_names :: "pystr list" where
  "weekday_names = map lit [''mon'', ''tue'', ''wed'', ''thu'', ''fri'', ''sat'', ''sun'']"

definition weekday_key :: "pystr \<Rightarrow> pystr" where
  "weekday_key name = take 3 (casefold (strip name))"

fun parse_weekdays :: "pystr list \<Rightarrow> int set result" where
  "parse_weekdays [] = Inr {}"
| "parse_weekdays (name # names) =
     (case find_index (\<lambda>k. k = weekday_key name) weekday_names of
        None \<Rightarrow> Inl (Err InvalidDay)
      | Some i \<Rightarrow> map_sum id (insert (int i)) (parse_weekdays names))"

fun parse_months :: "json list \<Rightarrow> int set result" where
  "parse_months [] = Inr {}"
| "parse_months (value # values) =
     (case json_int value of
        None \<Rightarrow> Inl (Err InvalidMonth)
      | Some m \<Rightarrow>
          (if \<not> (1 \<le> m \<and> m \<le> 12) then Inl (Err InvalidMonth)
           else map_sum id (insert m) (parse_months values)))"

section \<open>Rules\<close>

record rule =
  rule_id :: pystr
  rule_playlist :: pystr
  rule_connector :: pystr
  rule_months :: "int set"
  rule_weekdays :: "int set"
  rule_start :: "int option"
  rule_end :: "int option"
  rule_enabled :: bool
  rule_name :: "pystr option"

definition calendar_date :: "rule \<Rightarrow> datetime \<Rightarrow> date" where
  "calendar_date r at =
     (case (rule_start r, rule_end r) of
        (Some s, Some e) \<Rightarrow>
          (if s \<le> e then at_day at
           else if minute_of_day at < e then at_day at - 1 else at_day at)
      | _ \<Rightarrow> at_day at)"

definition within :: "rule \<Rightarrow> int \<Rightarrow> bool" where
  "within r minutes =
     (case (rule_start r, rule_end r) of
        (Some s, Some e) \<Rightarrow>
          (if s = e then True
           else if s < e then s \<le> minutes \<and> minutes < e
           else s \<le> minutes \<or> minutes < e)
      | _ \<Rightarrow> True)"

definition matches :: "rule \<Rightarrow> datetime \<Rightarrow> pystr \<Rightarrow> bool" where
  "matches r at connector =
     (if rule_connector r \<noteq> [] \<and> rule_connector r \<noteq> connector then False
      else if \<not> rule_enabled r then False
      else let d = calendar_date r at
           in if rule_months r \<noteq> {} \<and> month d \<notin> rule_months r then False
              else if rule_weekdays r \<noteq> {} \<and> weekday d \<notin> rule_weekdays r then False
              else within r (minute_of_day at))"

fun resolve_rule :: "rule list \<Rightarrow> datetime \<Rightarrow> pystr \<Rightarrow> rule option \<Rightarrow> rule option" where
  "resolve_rule [] at connector chosen = chosen"
| "resolve_rule (r # rs) at connector chosen =
     resolve_rule rs at connector (if matches r at connector then Some r else chosen)"

definition resolve :: "rule list \<Rightarrow> datetime \<Rightarrow> pystr \<Rightarrow> pystr result" where
  "resolve rs at connector =
     (case clean_connector connector of
        Inl e \<Rightarrow> Inl e
      | Inr c \<Rightarrow>
          Inr (case resolve_rule rs at c None of None \<Rightarrow> [] | Some r \<Rightarrow> rule_playlist r))"

text \<open>\<open>resolve(...) or default\<close>.\<close>

definition effective :: "rule list \<Rightarrow> pystr \<Rightarrow> datetime \<Rightarrow> pystr \<Rightarrow> pystr result" where
  "effective rs fallback at connector =
     map_sum id (\<lambda>p. if p = [] then fallback else p) (resolve rs at connector)"

definition rule_label :: "rule \<Rightarrow> (pystr \<rightharpoonup> pystr) \<Rightarrow> pystr" where
  "rule_label r names =
     (case rule_name r of
        Some n \<Rightarrow> n
      | None \<Rightarrow> (case names (rule_playlist r) of Some n \<Rightarrow> n | None \<Rightarrow> rule_playlist r))"

definition describe_rule :: "rule \<Rightarrow> pystr" where
  "describe_rule r =
     (let parts =
        (if rule_months r = {} then []
         else [lit ''months '' @ join (lit '','') (map show_int (sorted_list_of_set (rule_months r)))]) @
        (if rule_weekdays r = {} then []
         else [join (lit '','') (map (\<lambda>d. weekday_names ! nat d) (sorted_list_of_set (rule_weekdays r)))]) @
        (case (rule_start r, rule_end r) of
           (Some s, Some e) \<Rightarrow> [format_time s @ lit ''-'' @ format_time e]
         | _ \<Rightarrow> [])
      in if parts = [] then lit ''always'' else join (lit '' '') parts)"

section \<open>The document\<close>

definition rule_to_json :: "rule \<Rightarrow> dict" where
  "rule_to_json r =
     [(lit ''id'', JStr (rule_id r)), (lit ''playlist'', JStr (rule_playlist r))] @
     (if rule_connector r = [] then [] else [(lit ''connector'', JStr (rule_connector r))]) @
     (if rule_months r = {} then []
      else [(lit ''months'', JArr (map JInt (sorted_list_of_set (rule_months r))))]) @
     (if rule_weekdays r = {} then []
      else [(lit ''weekdays'',
             JArr (map (\<lambda>d. JStr (weekday_names ! nat d)) (sorted_list_of_set (rule_weekdays r))))]) @
     (case (rule_start r, rule_end r) of
        (Some s, Some e) \<Rightarrow>
          [(lit ''start'', JStr (format_time s)), (lit ''end'', JStr (format_time e))]
      | _ \<Rightarrow> []) @
     (if rule_enabled r then [] else [(lit ''enabled'', JBool False)]) @
     (case rule_name r of None \<Rightarrow> [] | Some n \<Rightarrow> [(lit ''name'', JStr n)])"

definition stored_name :: "json option \<Rightarrow> pystr option" where
  "stored_name v =
     (case v of
        Some (JStr s) \<Rightarrow> (case tidy_name (Some s) of Inl _ \<Rightarrow> None | Inr n \<Rightarrow> n)
      | _ \<Rightarrow> None)"

definition name_is_malformed :: "dict \<Rightarrow> bool" where
  "name_is_malformed raw =
     (case map_of raw (lit ''name'') of
        None \<Rightarrow> False
      | Some (JStr s) \<Rightarrow> \<not> is_ok (tidy_name (Some s))
      | Some _ \<Rightarrow> True)"

text \<open>A stored time: \<open>None\<close> where the key is absent or no text, and what \<open>parse_time\<close> raises.\<close>

definition stored_time :: "json option \<Rightarrow> int option result" where
  "stored_time v = (case v of Some (JStr s) \<Rightarrow> map_sum id Some (parse_time s) | _ \<Rightarrow> Inr None)"

text \<open>
  \<open>_rule\<close>: one stored rule, or \<open>None\<close>. \<open>Inl\<close> is a \<open>ValueError\<close> that escapes its
  \<open>except ScheduleError\<close>.
\<close>

definition scheduled :: "'a option result \<Rightarrow> 'a option result" where
  "scheduled x = (case x of Inl (Err _) \<Rightarrow> Inr None | _ \<Rightarrow> x)"

text \<open>What is in the \<open>try\<close>, once the identifier, the playlist and the connector are texts.\<close>

definition stored_weekdays :: "json option \<Rightarrow> pystr list" where
  "stored_weekdays v =
     (case v of Some (JArr days) \<Rightarrow> map (\<lambda>j. case j of JStr s \<Rightarrow> s | _ \<Rightarrow> []) days | _ \<Rightarrow> [])"

definition stored_months :: "json option \<Rightarrow> json list" where
  "stored_months v = (case v of Some (JArr values) \<Rightarrow> values | _ \<Rightarrow> [])"

definition rule_from_fields :: "dict \<Rightarrow> pystr \<Rightarrow> pystr \<Rightarrow> pystr \<Rightarrow> rule option result" where
  "rule_from_fields raw identifier playlist connector_value =
     and_then (clean_connector connector_value) (\<lambda>connector.
     if map_of raw (lit ''connector'') \<noteq> None \<and> connector = [] then Inr None
     else
       and_then (parse_months (stored_months (map_of raw (lit ''months'')))) (\<lambda>months.
       and_then (parse_weekdays (stored_weekdays (map_of raw (lit ''weekdays'')))) (\<lambda>weekdays.
       and_then (stored_time (map_of raw (lit ''start''))) (\<lambda>start.
       and_then (stored_time (map_of raw (lit ''end''))) (\<lambda>finish.
       let half = ((start = None) \<noteq> (finish = None)) in
       Inr (Some \<lparr>rule_id = strip identifier, rule_playlist = strip playlist,
         rule_connector = connector, rule_months = months, rule_weekdays = weekdays,
         rule_start = (if half then None else start),
         rule_end = (if half then None else finish),
         rule_enabled =
           (case map_of raw (lit ''enabled'') of Some (JBool b) \<Rightarrow> b | _ \<Rightarrow> True),
         rule_name = stored_name (map_of raw (lit ''name''))\<rparr>))))))"

definition rule_of_dict :: "dict \<Rightarrow> rule option result" where
  "rule_of_dict raw =
     (case (map_of raw (lit ''id''), map_of raw (lit ''playlist'')) of
        (Some (JStr identifier), Some (JStr playlist)) \<Rightarrow>
          (if strip identifier = [] \<or> strip playlist = [] then Inr None
           else if \<not> encodable identifier \<or> \<not> encodable playlist then Inr None
           else case (case map_of raw (lit ''connector'') of None \<Rightarrow> JStr [] | Some v \<Rightarrow> v) of
             JStr connector_value \<Rightarrow>
               (case map_of raw (lit ''weekdays'') of
                  Some (JArr days) \<Rightarrow>
                    (if list_all is_str days
                     then scheduled (rule_from_fields raw identifier playlist connector_value)
                     else Inr None)
                | _ \<Rightarrow> scheduled (rule_from_fields raw identifier playlist connector_value))
           | _ \<Rightarrow> Inr None)
      | _ \<Rightarrow> Inr None)"

definition rule_of_json :: "json \<Rightarrow> rule option result" where
  "rule_of_json raw = (case raw of JObj d \<Rightarrow> rule_of_dict d | _ \<Rightarrow> Inr None)"

text \<open>How many fields of a usable record are there but unusable.\<close>

definition present_but :: "(json \<Rightarrow> bool) \<Rightarrow> json option \<Rightarrow> nat" where
  "present_but P v = (case v of Some j \<Rightarrow> (if P j then 0 else 1) | None \<Rightarrow> 0)"

definition field_faults :: "dict \<Rightarrow> nat" where
  "field_faults raw =
     present_but is_arr (map_of raw (lit ''months'')) +
     present_but is_arr (map_of raw (lit ''weekdays'')) +
     present_but is_str (map_of raw (lit ''start'')) +
     present_but is_str (map_of raw (lit ''end'')) +
     present_but is_str (map_of raw (lit ''connector'')) +
     present_but is_bool (map_of raw (lit ''enabled'')) +
     (if (map_of raw (lit ''start'') \<noteq> None) \<noteq> (map_of raw (lit ''end'') \<noteq> None) then 1 else 0) +
     (if name_is_malformed raw then 1 else 0)"

text \<open>The loop of \<open>_parse\<close>: the rules, the malformed fields and the duplicate ids.\<close>

fun parse_rules :: "pystr list \<Rightarrow> json list \<Rightarrow> (rule list \<times> nat \<times> nat) result" where
  "parse_rules seen [] = Inr ([], 0, 0)"
| "parse_rules seen (raw # raws) =
     and_then (rule_of_json raw) (\<lambda>found.
       case found of
         None \<Rightarrow> and_then (parse_rules seen raws) (\<lambda>(rs, m, d). Inr (rs, Suc m, d))
       | Some r \<Rightarrow>
           (let bad = (case raw of JObj dict \<Rightarrow> field_faults dict | _ \<Rightarrow> 0) in
            if rule_id r \<in> set seen
            then and_then (parse_rules seen raws) (\<lambda>(rs, m, d). Inr (rs, bad + m, Suc d))
            else and_then (parse_rules (rule_id r # seen) raws)
                   (\<lambda>(rs, m, d). Inr (r # rs, bad + m, d))))"

definition parse_schedule :: "dict \<Rightarrow> (rule list \<times> fault option) result" where
  "parse_schedule payload =
     (let versions = (if declared_version 1 3 payload = None
                      then [UnsupportedVersion (stored_version payload)] else [])
      in case map_of payload (lit ''rules'') of
           Some (JArr stored) \<Rightarrow>
             and_then (parse_rules [] (take MAX_RULES stored)) (\<lambda>(rs, malformed, duplicate).
               Inr (rs, joined_faults
                 (versions @
                  (if MAX_RULES < length stored then [TooMany] else []) @
                  (if malformed = 0 then [] else [MalformedRecords malformed]) @
                  (if duplicate = 0 then [] else [DuplicateRecords duplicate]))))
         | _ \<Rightarrow> Inr ([], Some (ContentFault [NoRecords])))"

definition rule_shape :: shape where
  "rule_shape = Shape
     (map lit [''id'', ''playlist'', ''connector'', ''months'', ''weekdays'', ''start'', ''end'',
               ''enabled'', ''name''])
     (Some (lit ''id'')) True [] [] []"

definition schedule_shape :: shape where
  "schedule_shape = Shape [lit ''version''] None False [(lit ''rules'', rule_shape)] [] []"

definition read_schedule :: "node \<Rightarrow> rule list reading result" where
  "read_schedule n =
     (case read_object MAX_SCHEDULE_BYTES n of
        (None, fault) \<Rightarrow>
          Inr \<lparr>r_value = [], r_fault = fault, r_newer = False, r_unknown = nothing_unknown,
               r_version = None\<rparr>
      | (Some payload, _) \<Rightarrow>
          and_then (parse_schedule payload) (\<lambda>(rs, fault).
            let unknown = capture_unknown schedule_shape payload in
            case newer_version_fault 3 payload of
              Some newer \<Rightarrow>
                Inr \<lparr>r_value = rs, r_fault = Some newer, r_newer = True, r_unknown = unknown,
                     r_version = None\<rparr>
            | None \<Rightarrow>
                Inr \<lparr>r_value = rs, r_fault = fault, r_newer = False, r_unknown = unknown,
                     r_version = declared_version 1 3 payload\<rparr>))"

definition schedule_document :: "rule list \<Rightarrow> unknown \<Rightarrow> dict result" where
  "schedule_document rs u =
     Inr (merge_unknown u schedule_shape
       [(lit ''version'', JInt 3), (lit ''rules'', JArr (map (\<lambda>r. JObj (rule_to_json r)) rs))])"

definition reads_cleanly :: "node \<Rightarrow> bool result" where
  "reads_cleanly n =
     map_sum id (\<lambda>r. r_fault r = None \<and> r_version r \<noteq> None) (read_schedule n)"

definition held_record_ids :: "node \<Rightarrow> pystr list option result" where
  "held_record_ids n =
     map_sum id (\<lambda>r. if r_fault r \<noteq> None \<or> r_version r = None then None
                       else Some (map rule_id (r_value r))) (read_schedule n)"

definition record_ids :: "nat \<Rightarrow> content \<Rightarrow> pystr list option result" where
  "record_ids bytes c =
     (case (if MAX_SCHEDULE_BYTES < bytes then (None, Some (ContentFault [TooLarge])) else decode_content c) of
        (Some document, None) \<Rightarrow>
          map_sum id (\<lambda>(rs, fault). if fault \<noteq> None then None else Some (map rule_id rs))
            (parse_schedule document)
      | _ \<Rightarrow> Inr None)"

definition saved_by_newer_version :: "node \<Rightarrow> bool result" where
  "saved_by_newer_version n = map_sum id r_newer (read_schedule n)"

definition load :: "node \<Rightarrow> rule list result" where
  "load n = map_sum id r_value (read_schedule n)"

end
