(* ===== verification/Schedule_Codec.thy ===== *)
theory Schedule_Codec
  imports Schedules
begin

text \<open>
  The schedule document reads back: the invariant of a rule and of the list, the round trips of
  times, weekdays, months and rules, and the interpretation of \<open>authoring_store\<close> on the schedule's
  reader and renderer.
\<close>

section \<open>Well-formed rules\<close>

definition time_ok :: "int option \<Rightarrow> bool" where
  "time_ok t = (case t of None \<Rightarrow> True | Some m \<Rightarrow> 0 \<le> m \<and> m < 1440)"

definition name_ok :: "pystr option \<Rightarrow> bool" where
  "name_ok n = (n = None \<or> tidy_name n = Inr n)"

definition wf_rule :: "rule \<Rightarrow> bool" where
  "wf_rule r \<longleftrightarrow>
     rule_id r \<noteq> [] \<and> strip (rule_id r) = rule_id r \<and> encodable (rule_id r) \<and>
     rule_playlist r \<noteq> [] \<and> strip (rule_playlist r) = rule_playlist r \<and> encodable (rule_playlist r) \<and>
     clean_connector (rule_connector r) = Inr (rule_connector r) \<and>
     rule_months r \<subseteq> set [1..12] \<and> rule_weekdays r \<subseteq> set [0..6] \<and>
     (rule_start r = None \<longleftrightarrow> rule_end r = None) \<and>
     time_ok (rule_start r) \<and> time_ok (rule_end r) \<and> name_ok (rule_name r)"

lemma time_ok_iff: "time_ok t \<longleftrightarrow> (\<forall>m. t = Some m \<longrightarrow> 0 \<le> m \<and> m < 1440)"
  by (simp add: time_ok_def split: option.split)

lemma name_ok_iff: "name_ok n \<longleftrightarrow> (\<forall>m. n = Some m \<longrightarrow> tidy_name (Some m) = Inr (Some m))"
  by (cases n) (simp_all add: name_ok_def)

lemmas wf_rule_iff = wf_rule_def [unfolded time_ok_iff name_ok_iff set_upto]

definition wf_rules :: "rule list \<Rightarrow> bool" where
  "wf_rules rs \<longleftrightarrow> list_all wf_rule rs \<and> distinct (map rule_id rs) \<and> length rs \<le> MAX_RULES"

section \<open>Times\<close>

lemma parse_time_bounds: "parse_time s = Inr m \<Longrightarrow> 0 \<le> m \<and> m < 1440"
proof -
  have nonneg: "0 \<le> n" if "int_of_digits t = Some n" for t n
    using that by (auto simp: int_of_digits_def split: if_splits)
  assume "parse_time s = Inr m"
  then show ?thesis
    by (auto simp: parse_time_def split: option.splits if_splits prod.splits dest!: nonneg)
qed

lemma int_of_two_digits: "x < 100 \<Longrightarrow> int_of_digits [48 + x div 10, 48 + x mod 10] = Some (int x)"
  by (simp add: int_of_digits_def)

lemma parse_format_time_parts:
  assumes "h < 24" "n < 60"
  shows "parse_time ([48 + h div 10, 48 + h mod 10, 58, 48 + n div 10, 48 + n mod 10]) =
    Inr (int h * 60 + int n)"
proof -
  let ?f = "[48 + h div 10, 48 + h mod 10, 58, 48 + n div 10, 48 + n mod 10]"
  have d: "h div 10 < 10" "h mod 10 < 10" "n div 10 < 10" "n mod 10 < 10" using assms by auto
  then have ns: "no_space ?f" unfolding no_space_def by (auto simp: cp_isspace_def)
  have part: "partition_colon ?f = Some ([48 + h div 10, 48 + h mod 10], [48 + n div 10, 48 + n mod 10])"
    unfolding partition_colon_def using d by simp
  have dig: "isdigit [48 + a, 48 + b]" if "a < 10" "b < 10" for a b
    using that by (simp add: isdigit_def)
  show ?thesis
    unfolding parse_time_def strip_no_space [OF ns] part
    using dig [OF d(1,2)] dig [OF d(3,4)] int_of_two_digits [of h] int_of_two_digits [of n] assms
    by simp
qed

lemma parse_format_time:
  assumes "0 \<le> m" "m < 1440"
  shows "parse_time (format_time m) = Inr m"
proof -
  define h n where "h = nat (m div 60)" and "n = nat (m mod 60)"
  have h: "m div 60 = int h" "h < 24" and n: "m mod 60 = int n" "n < 60"
    using assms unfolding h_def n_def by auto
  have "format_time m = [48 + h div 10, 48 + h mod 10, 58, 48 + n div 10, 48 + n mod 10]"
    unfolding format_time_def h(1) n(1) using h(2) n(2) by (simp add: pad2_two lit_def)
  moreover have "int h * 60 + int n = m"
    using h(1) n(1) div_mult_mod_eq [of m 60] by simp
  ultimately show ?thesis using parse_format_time_parts [OF h(2) n(2)] by simp
qed

section \<open>Weekdays and months\<close>

lemma weekday_names_ascii:
  "n \<in> set weekday_names \<Longrightarrow>
     no_space n \<and> (\<forall>c\<in>set n. c < 128 \<and> \<not> (65 \<le> c \<and> c \<le> 90)) \<and> length n = 3"
  by (auto simp: weekday_names_def lit_def no_space_def cp_isspace_def)

lemma weekday_key_name: "n \<in> set weekday_names \<Longrightarrow> weekday_key n = n"
  using weekday_names_ascii [of n]
  by (simp add: weekday_key_def strip_no_space casefold_ascii_lower)

lemma length_weekday_names: "length weekday_names = 7"
  and distinct_weekday_names: "distinct weekday_names"
  by (simp_all add: weekday_names_def)

lemma weekday_name_index:
  assumes "d \<in> {0..6}"
  shows "find_index (\<lambda>k. k = weekday_key (weekday_names ! nat d)) weekday_names = Some (nat d)"
proof -
  have i: "nat d < length weekday_names" using assms by (auto simp: length_weekday_names)
  then have "weekday_key (weekday_names ! nat d) = weekday_names ! nat d"
    by (simp add: weekday_key_name)
  then show ?thesis using find_index_nth [OF distinct_weekday_names i] by simp
qed

lemma parse_weekdays_names:
  "set ds \<subseteq> {0..6} \<Longrightarrow> parse_weekdays (map (\<lambda>d. weekday_names ! nat d) ds) = Inr (set ds)"
  by (induction ds) (auto simp: weekday_name_index)

lemma parse_weekdays_bounds: "parse_weekdays ns = Inr D \<Longrightarrow> D \<subseteq> {0..6}"
proof (induction ns arbitrary: D)
  case (Cons n ns)
  then obtain i D' where i: "find_index (\<lambda>k. k = weekday_key n) weekday_names = Some i"
    and D: "parse_weekdays ns = Inr D'" "D = insert (int i) D'"
    by (cases "parse_weekdays ns") (auto split: option.splits)
  from find_index_Some [OF i] have "i < 7" by (simp add: length_weekday_names)
  with Cons.IH [OF D(1)] D(2) show ?case by auto
qed simp

lemma parse_months_ints: "set ms \<subseteq> {1..12} \<Longrightarrow> parse_months (map JInt ms) = Inr (set ms)"
  by (induction ms) (auto simp: json_int_def)

lemma parse_months_bounds: "parse_months vs = Inr M \<Longrightarrow> M \<subseteq> {1..12}"
proof (induction vs arbitrary: M)
  case (Cons v vs)
  then show ?case by (cases "parse_months vs") (auto split: option.splits if_splits)
qed simp

section \<open>Names and connectors\<close>

lemma clean_connector_id: "clean_connector s = Inr t \<Longrightarrow> t = s"
  by (auto simp: clean_connector_def split: if_splits)

lemma clean_connector_Nil [simp]: "clean_connector [] = Inr []"
  by (simp add: clean_connector_def utf8_len_def)

lemma clean_connector_encodable: "clean_connector s = Inr t \<Longrightarrow> encodable s"
  by (auto simp: clean_connector_def split: if_splits)

lemma tidy_name_idem: "tidy_name raw = Inr (Some n) \<Longrightarrow> tidy_name (Some n) = Inr (Some n)"
  by (auto simp: tidy_name_def Let_def split: option.splits if_splits)

lemma tidy_name_encodable: "tidy_name raw = Inr (Some n) \<Longrightarrow> encodable n"
  by (auto simp: tidy_name_def Let_def split: option.splits if_splits)

section \<open>One rule\<close>

lemma rule_to_json_lookup:
  "map_of (rule_to_json r) (lit ''id'') = Some (JStr (rule_id r))"
  "map_of (rule_to_json r) (lit ''playlist'') = Some (JStr (rule_playlist r))"
  "map_of (rule_to_json r) (lit ''connector'') =
     (if rule_connector r = [] then None else Some (JStr (rule_connector r)))"
  "map_of (rule_to_json r) (lit ''months'') =
     (if rule_months r = {} then None
      else Some (JArr (map JInt (sorted_list_of_set (rule_months r)))))"
  "map_of (rule_to_json r) (lit ''weekdays'') =
     (if rule_weekdays r = {} then None
      else Some (JArr (map (\<lambda>d. JStr (weekday_names ! nat d)) (sorted_list_of_set (rule_weekdays r)))))"
  "map_of (rule_to_json r) (lit ''start'') =
     (case (rule_start r, rule_end r) of (Some s, Some e) \<Rightarrow> Some (JStr (format_time s)) | _ \<Rightarrow> None)"
  "map_of (rule_to_json r) (lit ''end'') =
     (case (rule_start r, rule_end r) of (Some s, Some e) \<Rightarrow> Some (JStr (format_time e)) | _ \<Rightarrow> None)"
  "map_of (rule_to_json r) (lit ''enabled'') = (if rule_enabled r then None else Some (JBool False))"
  "map_of (rule_to_json r) (lit ''name'') = map_option JStr (rule_name r)"
  by (auto simp: rule_to_json_def map_of_append map_add_def split: option.splits)

lemma rule_of_dict_to_json:
  assumes "wf_rule r"
  shows "rule_of_dict (rule_to_json r) = Inr (Some r)"
proof -
  have fin: "finite (rule_months r)" "finite (rule_weekdays r)"
    using assms finite_subset unfolding wf_rule_iff by blast+
  have months: "parse_months (map JInt (sorted_list_of_set (rule_months r))) = Inr (rule_months r)"
    using assms fin by (simp add: parse_months_ints wf_rule_iff)
  have weekdays: "parse_weekdays (map (\<lambda>d. weekday_names ! nat d) (sorted_list_of_set (rule_weekdays r)))
      = Inr (rule_weekdays r)"
    using assms fin by (simp add: parse_weekdays_names wf_rule_iff)
  have strs: "list_all is_str (map (\<lambda>d. JStr (weekday_names ! nat d)) ds)" for ds
    by (simp add: list_all_iff)
  have texts: "map (\<lambda>j. case j of JStr s \<Rightarrow> s | _ \<Rightarrow> []) (map (\<lambda>d. JStr (weekday_names ! nat d)) ds)
      = map (\<lambda>d. weekday_names ! nat d) ds" for ds
    by simp
  have times: "\<And>s. rule_start r = Some s \<Longrightarrow> parse_time (format_time s) = Inr s"
    "\<And>e. rule_end r = Some e \<Longrightarrow> parse_time (format_time e) = Inr e"
    using assms by (auto simp: wf_rule_iff intro: parse_format_time)
  have name: "stored_name (map_option JStr (rule_name r)) = rule_name r"
    using assms by (auto simp: stored_name_def wf_rule_iff split: option.splits)
  have base: "rule_id r \<noteq> []" "strip (rule_id r) = rule_id r" "encodable (rule_id r)"
    "rule_playlist r \<noteq> []" "strip (rule_playlist r) = rule_playlist r" "encodable (rule_playlist r)"
    "clean_connector (rule_connector r) = Inr (rule_connector r)"
    "rule_start r = None \<longleftrightarrow> rule_end r = None"
    using assms by (auto simp: wf_rule_iff)
  show ?thesis
    unfolding rule_of_dict_def rule_from_fields_def rule_to_json_lookup
    using base months weekdays times name strs texts
    by (cases "rule_start r"; cases "rule_end r"; cases "rule_connector r = []";
        cases "rule_months r = {}"; cases "rule_weekdays r = {}")
      (simp_all add: Let_def stored_time_def stored_months_def stored_weekdays_def scheduled_def
        comp_def list_all_iff)
qed

lemma field_faults_to_json: "wf_rule r \<Longrightarrow> field_faults (rule_to_json r) = 0"
  unfolding field_faults_def name_is_malformed_def rule_to_json_lookup
  by (auto simp: present_but_def wf_rule_iff split: option.splits)

lemma stored_time_bounds: "stored_time v = Inr (Some m) \<Longrightarrow> 0 \<le> m \<and> m < 1440"
  by (auto simp: stored_time_def map_sum_def parse_time_bounds split: option.splits json.splits sum.splits)

lemma stored_name_tidy: "stored_name v = Some n \<Longrightarrow> tidy_name (Some n) = Inr (Some n)"
  by (auto simp: stored_name_def split: option.splits json.splits sum.splits dest: tidy_name_idem)

lemma scheduled_Some: "scheduled x = Inr (Some y) \<longleftrightarrow> x = Inr (Some y)"
  by (auto simp: scheduled_def split: sum.splits exn.splits)

lemma rule_from_fields_wf:
  assumes "rule_from_fields d i p c = Inr (Some r)"
    and "strip i \<noteq> []" "strip p \<noteq> []" "encodable i" "encodable p"
  shows "wf_rule r"
proof -
  obtain connector months weekdays start finish where
    c: "clean_connector c = Inr connector"
    and m: "parse_months (stored_months (map_of d (lit ''months''))) = Inr months"
    and w: "parse_weekdays (stored_weekdays (map_of d (lit ''weekdays''))) = Inr weekdays"
    and t: "stored_time (map_of d (lit ''start'')) = Inr start"
      "stored_time (map_of d (lit ''end'')) = Inr finish"
    using assms(1) unfolding rule_from_fields_def and_then_Inr by (auto split: if_splits simp: and_then_Inr)
  let ?half = "(start = None) \<noteq> (finish = None)"
  have "r = \<lparr>rule_id = strip i, rule_playlist = strip p, rule_connector = connector,
      rule_months = months, rule_weekdays = weekdays,
      rule_start = (if ?half then None else start), rule_end = (if ?half then None else finish),
      rule_enabled = (case map_of d (lit ''enabled'') of Some (JBool b) \<Rightarrow> b | _ \<Rightarrow> True),
      rule_name = stored_name (map_of d (lit ''name''))\<rparr>"
    using assms(1) unfolding rule_from_fields_def c m w t
    by (simp only: and_then_simps Let_def sum.inject option.inject sum.distinct option.distinct
        split: if_split_asm)
  then have r: "rule_id r = strip i" "rule_playlist r = strip p"
    "rule_start r = (if ?half then None else start)" "rule_end r = (if ?half then None else finish)"
    "rule_name r = stored_name (map_of d (lit ''name''))"
    and parts: "clean_connector c = Inr (rule_connector r)"
    "parse_months (stored_months (map_of d (lit ''months''))) = Inr (rule_months r)"
    "parse_weekdays (stored_weekdays (map_of d (lit ''weekdays''))) = Inr (rule_weekdays r)"
    using c m w by simp_all
  have "clean_connector (rule_connector r) = Inr (rule_connector r)"
    using parts(1) clean_connector_id by metis
  moreover have "0 \<le> s \<and> s < 1440" if "rule_start r = Some s" for s
    using that r(3) t(1) stored_time_bounds by (auto split: if_splits)
  moreover have "0 \<le> e \<and> e < 1440" if "rule_end r = Some e" for e
    using that r(4) t(2) stored_time_bounds by (auto split: if_splits)
  moreover have "rule_start r = None \<longleftrightarrow> rule_end r = None"
    using r(3,4) by auto
  moreover have "tidy_name (Some n) = Inr (Some n)" if "rule_name r = Some n" for n
    using that r(5) stored_name_tidy by metis
  ultimately show ?thesis
    using r(1,2) assms(2-) parse_months_bounds [OF parts(2)] parse_weekdays_bounds [OF parts(3)]
    by (simp add: wf_rule_iff encodable_strip)
qed

lemma rule_of_dict_wf:
  assumes "rule_of_dict d = Inr (Some r)"
  shows "wf_rule r"
proof -
  from assms obtain i p c where "strip i \<noteq> []" "strip p \<noteq> []" "encodable i" "encodable p"
    "rule_from_fields d i p c = Inr (Some r)"
    unfolding rule_of_dict_def
    by (simp add: scheduled_Some split: option.splits json.splits if_splits)
  then show ?thesis using rule_from_fields_wf by blast
qed

section \<open>Unknown fields do not change what is read\<close>

lemma project_rule_key:
  "k \<in> set (known rule_shape) \<Longrightarrow> map_of (project rule_shape d) k = map_of d k"
  by (rule project_plain) (simp_all add: rule_shape_def models_def)

lemma rule_keys:
  "lit ''id'' \<in> set (known rule_shape)" "lit ''playlist'' \<in> set (known rule_shape)"
  "lit ''connector'' \<in> set (known rule_shape)" "lit ''months'' \<in> set (known rule_shape)"
  "lit ''weekdays'' \<in> set (known rule_shape)" "lit ''start'' \<in> set (known rule_shape)"
  "lit ''end'' \<in> set (known rule_shape)" "lit ''enabled'' \<in> set (known rule_shape)"
  "lit ''name'' \<in> set (known rule_shape)"
  by (simp_all add: rule_shape_def)

lemmas project_rule_keys = rule_keys [THEN project_rule_key]

lemma rule_of_dict_project: "rule_of_dict (project rule_shape d) = rule_of_dict d"
  unfolding rule_of_dict_def rule_from_fields_def project_rule_keys ..

lemma field_faults_project: "field_faults (project rule_shape d) = field_faults d"
  unfolding field_faults_def name_is_malformed_def project_rule_keys ..

lemma parse_rules_project:
  "parse_rules seen (map (project_json (project rule_shape)) xs) = parse_rules seen xs"
proof (induction xs arbitrary: seen)
  case (Cons j xs)
  have "rule_of_json (project_json (project rule_shape) j) = rule_of_json j"
    by (cases j) (simp_all add: rule_of_json_def project_json_def rule_of_dict_project)
  moreover have "(case project_json (project rule_shape) j of JObj d \<Rightarrow> field_faults d | _ \<Rightarrow> 0) =
      (case j of JObj d \<Rightarrow> field_faults d | _ \<Rightarrow> 0)"
    by (cases j) (simp_all add: project_json_def field_faults_project)
  ultimately show ?case by (simp only: list.map parse_rules.simps Cons)
qed simp

lemma schedule_shape_flat: "no_objects schedule_shape"
  by (simp add: schedule_shape_def rule_shape_def)

lemma schedule_key_version: "map_of (project schedule_shape d) (lit ''version'') = map_of d (lit ''version'')"
  by (rule project_plain) (simp_all add: schedule_shape_def models_def)

lemma schedule_key_rules:
  "map_of (project schedule_shape d) (lit ''rules'') =
     map_option (project_value (project_json (project rule_shape))) (map_of d (lit ''rules''))"
  by (rule project_records) (simp add: schedule_shape_def)

lemma parse_schedule_project: "parse_schedule (project schedule_shape d) = parse_schedule d"
proof -
  have "parse_schedule (project schedule_shape d) = parse_schedule d"
    if "map_of d (lit ''rules'') = Some (JArr xs)" for xs
    using that
    by (simp add: parse_schedule_def schedule_key_rules project_value_def take_map
        parse_rules_project declared_version_def stored_version_def schedule_key_version)
  moreover have "parse_schedule (project schedule_shape d) = parse_schedule d"
    if "\<nexists>xs. map_of d (lit ''rules'') = Some (JArr xs)"
    using that
    by (auto simp: parse_schedule_def schedule_key_rules project_value_def
        split: option.splits json.splits)
  ultimately show ?thesis by blast
qed

lemma version_project:
  "newer_version_fault n (project schedule_shape d) = newer_version_fault n d"
  "declared_version a b (project schedule_shape d) = declared_version a b d"
  by (simp_all add: newer_version_fault_def declared_version_def schedule_key_version)

section \<open>The list reads back\<close>

lemma parse_rules_rendered:
  assumes "list_all wf_rule rs" "distinct (map rule_id rs)" "rule_id ` set rs \<inter> set seen = {}"
  shows "parse_rules seen (map (\<lambda>r. JObj (rule_to_json r)) rs) = Inr (rs, 0, 0)"
  using assms
  by (induction rs arbitrary: seen)
    (auto simp: rule_of_json_def rule_of_dict_to_json field_faults_to_json Let_def)

lemma parse_rules_wf:
  "parse_rules seen xs = Inr (rs, m, d) \<Longrightarrow>
     list_all wf_rule rs \<and> distinct (map rule_id rs) \<and> rule_id ` set rs \<inter> set seen = {} \<and>
     length rs \<le> length xs"
proof (induction xs arbitrary: seen rs m d)
  case (Cons j xs)
  from Cons.prems obtain found where f: "rule_of_json j = Inr found" by (auto simp: and_then_Inr)
  show ?case
  proof (cases found)
    case None
    with Cons f show ?thesis by (fastforce simp: and_then_Inr)
  next
    case (Some r)
    have "wf_rule r" using f Some rule_of_dict_wf
      by (auto simp: rule_of_json_def split: json.splits)
    then show ?thesis
      using Cons.prems f Some Cons.IH [of seen] Cons.IH [of "rule_id r # seen"]
      by (fastforce simp: and_then_Inr Let_def split: if_splits)
  qed
qed simp

lemma parse_schedule_wf: "parse_schedule d = Inr (rs, f) \<Longrightarrow> wf_rules rs"
  by (auto simp: parse_schedule_def Let_def and_then_Inr wf_rules_def dest!: parse_rules_wf
      split: option.splits json.splits)

lemma read_schedule_wf: "read_schedule n = Inr r \<Longrightarrow> wf_rules (r_value r)"
  by (auto simp: read_schedule_def and_then_Inr Let_def split: prod.splits option.splits
      dest!: parse_schedule_wf) (simp add: wf_rules_def)

definition plain_schedule :: "rule list \<Rightarrow> dict" where
  "plain_schedule rs =
     [(lit ''version'', JInt 3), (lit ''rules'', JArr (map (\<lambda>r. JObj (rule_to_json r)) rs))]"

lemma parse_plain_schedule: "wf_rules rs \<Longrightarrow> parse_schedule (plain_schedule rs) = Inr (rs, None)"
  using parse_rules_rendered [of rs "[]"]
  by (simp add: parse_schedule_def plain_schedule_def declared_version_def wf_rules_def
      joined_faults_def)

lemma parse_schedule_document:
  assumes "wf_rules rs" and "schedule_document rs u = Inr d"
  shows "parse_schedule d = Inr (rs, None)" "newer_version_fault 3 d = None"
    "declared_version 1 3 d = Some 3"
proof -
  have d: "project schedule_shape d = project schedule_shape (plain_schedule rs)"
    using assms(2) project_merge(1) [OF schedule_shape_flat]
    by (auto simp: schedule_document_def plain_schedule_def)
  show "parse_schedule d = Inr (rs, None)"
    using parse_plain_schedule [OF assms(1)] parse_schedule_project d by metis
  have "newer_version_fault 3 (plain_schedule rs) = None"
    "declared_version 1 3 (plain_schedule rs) = Some 3"
    by (simp_all add: newer_version_fault_def declared_version_def plain_schedule_def)
  then show "newer_version_fault 3 d = None" "declared_version 1 3 d = Some 3"
    using version_project d by metis+
qed

section \<open>The schedule as an authoring store\<close>

text \<open>\<open>_read\<close>, \<open>_render\<close>, the size cap and the order \<open>Store._mutate\<close> of \<open>schedules.py\<close>
  adopts things in.\<close>

definition schedule_ops :: "rule list store_ops" where
  "schedule_ops = \<lparr>op_read = read_schedule, op_document = schedule_document,
     op_max = MAX_SCHEDULE_BYTES, op_early = True, op_missing = [NoSuchRule],
     op_catches_unicode = True\<rparr>"

lemma schedule_ops_simps [simp]:
  "op_read schedule_ops = read_schedule" "op_document schedule_ops = schedule_document"
  "op_max schedule_ops = MAX_SCHEDULE_BYTES" "op_early schedule_ops"
  "op_missing schedule_ops = [NoSuchRule]" "op_catches_unicode schedule_ops"
  by (simp_all add: schedule_ops_def)

lemma read_schedule_written:
  assumes "wf_rules rs" and "schedule_document rs u = Inr d"
    and "bytes \<le> MAX_SCHEDULE_BYTES" and "json_encodable (JObj d)"
  shows "read_schedule (Regular bytes (Decoded (JObj d))) =
    Inr \<lparr>r_value = rs, r_fault = None, r_newer = False,
         r_unknown = capture_unknown schedule_shape d, r_version = Some 3\<rparr>"
  using assms(3,4) parse_schedule_document [OF assms(1,2)]
  by (simp add: read_schedule_def read_object_def decode_content_def Let_def)

interpretation schedule: exact_store schedule_ops wf_rules "\<lambda>_. True"
proof unfold_locales
  show True ..
  show "op_read schedule_ops n = Inr r \<Longrightarrow> wf_rules (r_value r)" for n r
    by (simp add: read_schedule_wf)
  show "\<exists>r. op_read schedule_ops Absent = Inr r \<and> r_fault r = None \<and> \<not> r_newer r"
    by (simp add: read_schedule_def read_object_def)
  show "\<exists>r. op_read schedule_ops (Regular bytes (Decoded (JObj d))) = Inr r \<and> r_fault r = None \<and>
      \<not> r_newer r \<and> r_value r = v"
    if "wf_rules v" "op_document schedule_ops v u = Inr d" "bytes \<le> op_max schedule_ops"
      "json_encodable (JObj d)" for v u d bytes
    using read_schedule_written [of v u d bytes] that by simp
qed

end
