(* ===== verification/Schedule_Store.thy ===== *)
theory Schedule_Store
  imports Schedule_Codec
begin

text \<open>
  The operations of \<open>schedules.Store\<close>: what each one's inner function does to the rules read under
  the lock, and the whole operation around it. Then what they keep of the invariant, and what they
  mean for the rule in force.
\<close>

section \<open>What the inner functions do\<close>

record rule_args =
  a_playlist :: pystr
  a_months :: "json list"
  a_weekdays :: "pystr list"
  a_start :: pystr
  a_end :: pystr
  a_connector :: pystr

text \<open>\<open>parse_time(start) if start else None\<close>.\<close>

definition given_time :: "pystr \<Rightarrow> int option result" where
  "given_time s = (if s = [] then Inr None else map_sum id Some (parse_time s))"

text \<open>\<open>add\<close> before its transaction, in the order it checks. \<open>fresh\<close> is what \<open>new_id\<close> returns.\<close>

definition new_rule ::
  "pystr \<Rightarrow> rule_args \<Rightarrow> pystr option \<Rightarrow> pystr option \<Rightarrow> bool \<Rightarrow> rule result"
where
  "new_rule fresh a chosen_id chosen_name enabled =
     (if (a_start a = []) \<noteq> (a_end a = []) then Inl (Err InvalidTime)
      else and_then (tidy_name chosen_name) (\<lambda>name.
        let identifier = (case chosen_id of None \<Rightarrow> fresh | Some i \<Rightarrow> if i = [] then fresh else i) in
        if \<not> encodable identifier then Inl (Err IdentityConflict)
        else if \<not> encodable (a_playlist a) then Inl (Err NoSuchRule)
        else and_then (clean_connector (a_connector a)) (\<lambda>connector.
          and_then (parse_months (a_months a)) (\<lambda>months.
          and_then (parse_weekdays (a_weekdays a)) (\<lambda>weekdays.
          and_then (given_time (a_start a)) (\<lambda>start.
          and_then (given_time (a_end a)) (\<lambda>finish.
            if strip (a_playlist a) = [] then Inl (Err NoSuchRule)
            else Inr \<lparr>rule_id = identifier, rule_playlist = strip (a_playlist a),
              rule_connector = connector, rule_months = months, rule_weekdays = weekdays,
              rule_start = start, rule_end = finish, rule_enabled = enabled,
              rule_name = name\<rparr>)))))))"

definition append_rule :: "rule \<Rightarrow> int option \<Rightarrow> (rule list, rule) change" where
  "append_rule r at rs =
     (if MAX_RULES \<le> length rs then Inl (Err Full)
      else if list_ex (\<lambda>c. rule_id c = rule_id r) rs then Inl (Err IdentityConflict)
      else Inr (r, True,
        case at of None \<Rightarrow> rs @ [r] | Some i \<Rightarrow> insert_at (clamp (length rs) i) r rs))"

text \<open>\<open>kept = [rule for rule in rules if ...]\<close>, and whether anything went.\<close>

definition drop_rules :: "(rule \<Rightarrow> bool) \<Rightarrow> (rule list, nat) change" where
  "drop_rules gone rs =
     (let kept = filter (\<lambda>r. \<not> gone r) rs; dropped = length rs - length kept
      in Inr (dropped, dropped \<noteq> 0, if dropped \<noteq> 0 then kept else rs))"

definition remove_rule :: "pystr \<Rightarrow> (rule list, bool) change" where
  "remove_rule i rs = map_sum id (\<lambda>(n, c, v). (c, c, v)) (drop_rules (\<lambda>r. rule_id r = i) rs)"

definition remove_display_rules :: "pystr \<Rightarrow> (rule list, rule list) change" where
  "remove_display_rules name rs =
     (let removed = filter (\<lambda>r. rule_connector r = name) rs
      in Inr (removed, removed \<noteq> [],
              if removed = [] then rs else filter (\<lambda>r. rule_connector r \<noteq> name) rs))"

text \<open>The loop \<open>set_enabled\<close>, \<open>set_name\<close> and \<open>update\<close> share: the first rule of that id is replaced.\<close>

definition change_rule :: "pystr \<Rightarrow> (rule \<Rightarrow> rule) \<Rightarrow> (rule list, rule) change" where
  "change_rule i f rs =
     (case find_index (\<lambda>r. rule_id r = i) rs of
        None \<Rightarrow> Inl (Err NoSuchRule)
      | Some k \<Rightarrow> (let updated = f (rs ! k) in Inr (updated, updated \<noteq> rs ! k, rs[k := updated])))"

definition copy_rule :: "pystr \<Rightarrow> pystr \<Rightarrow> (rule list, rule) change" where
  "copy_rule i copy_id rs =
     (if MAX_RULES \<le> length rs then Inl (Err Full)
      else if list_ex (\<lambda>c. rule_id c = copy_id) rs then Inl (Err IdentityConflict)
      else case find_index (\<lambda>r. rule_id r = i) rs of
        None \<Rightarrow> Inl (Err NoSuchRule)
      | Some k \<Rightarrow>
          (let made = (rs ! k)\<lparr>rule_id := copy_id, rule_name := None\<rparr>
           in Inr (made, True, insert_at (Suc k) made rs)))"

definition move_rule :: "pystr \<Rightarrow> int \<Rightarrow> (rule list, rule) change" where
  "move_rule i position rs =
     (case find_index (\<lambda>r. rule_id r = i) rs of
        None \<Rightarrow> Inl (Err NoSuchRule)
      | Some k \<Rightarrow>
          (let others = remove_at k rs; target = clamp (length others) position
           in Inr (rs ! k, target \<noteq> k, insert_at target (rs ! k) others)))"

definition move_rule_relative :: "pystr \<Rightarrow> int \<Rightarrow> (rule list, rule) change" where
  "move_rule_relative i step rs =
     (case find_index (\<lambda>r. rule_id r = i) rs of
        None \<Rightarrow> Inl (Err NoSuchRule)
      | Some k \<Rightarrow>
          (let target = nat (max 0 (min (int (length rs) - 1) (int k + step)))
           in Inr (rs ! k, target \<noteq> k, insert_at target (rs ! k) (remove_at k rs))))"

text \<open>The loops of \<open>retarget_where\<close> and \<open>retarget_many\<close>: every picked rule gets the playlist.\<close>

definition point_rules :: "(rule \<Rightarrow> bool) \<Rightarrow> pystr \<Rightarrow> (rule list, nat) change" where
  "point_rules picked playlist_id rs =
     (let changed = length (filter picked rs)
      in Inr (changed, changed \<noteq> 0,
              map (\<lambda>r. if picked r then r\<lparr>rule_playlist := playlist_id\<rparr> else r) rs))"

section \<open>The operations\<close>

type_synonym 'r schedule_op = "rule list store \<Rightarrow> world \<Rightarrow> 'r result \<times> rule list store \<times> world"

text \<open>A check before the transaction: what it raises leaves everything as it is.\<close>

definition checked :: "'a result \<Rightarrow> ('a \<Rightarrow> 's \<Rightarrow> 'w \<Rightarrow> 'r result \<times> 's \<times> 'w) \<Rightarrow> 's \<Rightarrow> 'w \<Rightarrow> 'r result \<times> 's \<times> 'w" where
  "checked x k s w = (case x of Inl e \<Rightarrow> (Inl e, s, w) | Inr a \<Rightarrow> k a s w)"

definition mutate_rules :: "env \<Rightarrow> bool \<Rightarrow> (rule list, 'r) change \<Rightarrow> 'r schedule_op" where
  "mutate_rules env refuse change = transact schedule_ops env refuse change"

definition add ::
  "env \<Rightarrow> pystr \<Rightarrow> rule_args \<Rightarrow> pystr option \<Rightarrow> pystr option \<Rightarrow> bool \<Rightarrow> int option \<Rightarrow> rule schedule_op"
where
  "add env fresh a chosen_id name enabled at =
     checked (new_rule fresh a chosen_id name enabled) (\<lambda>r. mutate_rules env False (append_rule r at))"

definition remove :: "env \<Rightarrow> pystr \<Rightarrow> bool schedule_op" where
  "remove env i = mutate_rules env True (remove_rule i)"

definition remove_for_display :: "env \<Rightarrow> pystr \<Rightarrow> rule list schedule_op" where
  "remove_for_display env connector =
     checked (clean_connector connector) (\<lambda>name. mutate_rules env True (remove_display_rules name))"

definition set_enabled :: "env \<Rightarrow> pystr \<Rightarrow> bool \<Rightarrow> rule schedule_op" where
  "set_enabled env i enabled =
     mutate_rules env False (change_rule i (\<lambda>r. r\<lparr>rule_enabled := enabled\<rparr>))"

definition set_name :: "env \<Rightarrow> pystr \<Rightarrow> pystr option \<Rightarrow> rule schedule_op" where
  "set_name env i name =
     checked (tidy_name name) (\<lambda>chosen.
       mutate_rules env False (change_rule i (\<lambda>r. r\<lparr>rule_name := chosen\<rparr>)))"

text \<open>\<open>update\<close> before its transaction, in the order it checks, and the rule it makes of the old one.\<close>

definition edited_rule :: "rule_args \<Rightarrow> bool option \<Rightarrow> (rule \<Rightarrow> rule) result" where
  "edited_rule a enabled =
     (if (a_start a = []) \<noteq> (a_end a = []) then Inl (Err InvalidTime)
      else if strip (a_playlist a) = [] then Inl (Err NoSuchRule)
      else if \<not> encodable (a_playlist a) then Inl (Err NoSuchRule)
      else
        and_then (clean_connector (a_connector a)) (\<lambda>connector.
        and_then (parse_months (a_months a)) (\<lambda>months.
        and_then (parse_weekdays (a_weekdays a)) (\<lambda>weekdays.
        and_then (given_time (a_start a)) (\<lambda>start.
        and_then (given_time (a_end a)) (\<lambda>finish.
          Inr (\<lambda>r. \<lparr>rule_id = rule_id r, rule_playlist = strip (a_playlist a),
            rule_connector = connector, rule_months = months, rule_weekdays = weekdays,
            rule_start = start, rule_end = finish,
            rule_enabled = (case enabled of None \<Rightarrow> rule_enabled r | Some b \<Rightarrow> b),
            rule_name = rule_name r\<rparr>)))))))"

definition update :: "env \<Rightarrow> pystr \<Rightarrow> rule_args \<Rightarrow> bool option \<Rightarrow> rule schedule_op" where
  "update env i a enabled =
     checked (edited_rule a enabled) (\<lambda>f. mutate_rules env False (change_rule i f))"

definition copy :: "env \<Rightarrow> pystr \<Rightarrow> pystr \<Rightarrow> pystr option \<Rightarrow> rule schedule_op" where
  "copy env fresh i copy_id =
     mutate_rules env False
       (copy_rule i (case copy_id of None \<Rightarrow> fresh | Some c \<Rightarrow> if c = [] then fresh else c))"

definition move :: "env \<Rightarrow> pystr \<Rightarrow> int \<Rightarrow> rule schedule_op" where
  "move env i position = mutate_rules env False (move_rule i position)"

definition move_relative :: "env \<Rightarrow> pystr \<Rightarrow> int \<Rightarrow> rule schedule_op" where
  "move_relative env i step = mutate_rules env False (move_rule_relative i step)"

definition forget_playlist :: "env \<Rightarrow> pystr \<Rightarrow> bool schedule_op" where
  "forget_playlist env p =
     mutate_rules env True (\<lambda>rs. map_sum id (\<lambda>(n, c, v). (c, c, v))
       (drop_rules (\<lambda>r. rule_playlist r = p) rs))"

definition forget_playlist_where :: "env \<Rightarrow> (pystr \<Rightarrow> bool) \<Rightarrow> nat schedule_op" where
  "forget_playlist_where env names = mutate_rules env True (drop_rules (\<lambda>r. names (rule_playlist r)))"

definition retarget_where :: "env \<Rightarrow> (pystr \<Rightarrow> bool) \<Rightarrow> pystr \<Rightarrow> nat schedule_op" where
  "retarget_where env names p =
     checked (if strip p = [] then Inl (Err NoSuchRule) else Inr ()) (\<lambda>_.
       mutate_rules env True
         (point_rules (\<lambda>r. rule_playlist r \<noteq> p \<and> names (rule_playlist r)) p))"

definition retarget_many :: "env \<Rightarrow> pystr list \<Rightarrow> pystr \<Rightarrow> nat schedule_op" where
  "retarget_many env references p =
     checked (if strip p = [] then Inl (Err NoSuchRule) else Inr ()) (\<lambda>_.
       mutate_rules env True (point_rules (\<lambda>r. rule_playlist r \<in> set references) p))"

definition retarget :: "env \<Rightarrow> pystr \<Rightarrow> pystr \<Rightarrow> nat schedule_op" where
  "retarget env reference p = retarget_many env [reference] p"

text \<open>The mirrors of a worker's save, in memory only.\<close>

definition adopt_worker_retarget :: "(pystr \<rightharpoonup> pystr) \<Rightarrow> rule list store \<Rightarrow> nat \<times> rule list store" where
  "adopt_worker_retarget retargeted st =
     (length (filter (\<lambda>r. retargeted (rule_playlist r) \<noteq> None) (st_value st)),
      st\<lparr>st_value := map (\<lambda>r. case retargeted (rule_playlist r) of
           None \<Rightarrow> r | Some p \<Rightarrow> r\<lparr>rule_playlist := p\<rparr>) (st_value st)\<rparr>)"

definition adopt_worker_forget_playlists :: "pystr list \<Rightarrow> rule list store \<Rightarrow> nat \<times> rule list store" where
  "adopt_worker_forget_playlists removed st =
     (if removed = [] then (0, st)
      else let kept = filter (\<lambda>r. rule_playlist r \<notin> set removed) (st_value st)
           in (length (st_value st) - length kept, st\<lparr>st_value := kept\<rparr>))"

text \<open>
  \<open>_reuse_unchanged_rules\<close>, on rules with the identity of the object that holds them: every rule of
  the file that a live object equals takes such an object, the last one free.
\<close>

fun reuse_unchanged :: "(nat \<times> rule) list \<Rightarrow> (nat \<times> rule) list \<Rightarrow> (nat \<times> rule) list" where
  "reuse_unchanged available [] = []"
| "reuse_unchanged available ((oid, r) # current) =
     (case find (\<lambda>p. snd p = r) (rev available) of
        None \<Rightarrow> (oid, r) # reuse_unchanged available current
      | Some p \<Rightarrow> p # reuse_unchanged (remove1 p available) current)"

text \<open>\<open>describe\<close>: the listing, one text per line.\<close>

definition last_match :: "rule list \<Rightarrow> datetime \<Rightarrow> pystr \<Rightarrow> pystr" where
  "last_match rs at connector =
     foldl (\<lambda>found r. if matches r at connector then rule_id r else found) [] rs"

definition describe_row :: "(pystr \<rightharpoonup> pystr) \<Rightarrow> bool \<Rightarrow> rule \<Rightarrow> pystr" where
  "describe_row called in_force r =
     join [9]
       [rule_id r,
        (case called (rule_playlist r) of None \<Rightarrow> rule_playlist r | Some n \<Rightarrow> n),
        describe_rule r,
        if rule_enabled r then lit ''yes'' else lit ''no'',
        if in_force then lit ''yes'' else lit ''no'',
        (case rule_name r of None \<Rightarrow> lit ''-'' | Some n \<Rightarrow> if n = [] then lit ''-'' else n)]"

definition describe ::
  "rule list \<Rightarrow> pystr \<Rightarrow> datetime \<Rightarrow> (pystr \<rightharpoonup> pystr) \<Rightarrow> pystr \<Rightarrow> pystr list \<Rightarrow> pystr list result"
where
  "describe rs active at names connector omitted =
     (let applying = filter (\<lambda>r. rule_id r \<notin> set omitted) rs;
          fallback = (if active = [] then lit ''(All media)''
                      else case names active of None \<Rightarrow> active | Some n \<Rightarrow> n)
      in and_then (resolve applying at connector) (\<lambda>winner.
        Inr ([lit ''# schedule: '' @ show_nat (length rs) @ lit '' rules, default '' @ fallback,
              lit ''# fields: rule, playlist, when, enabled, in-force, name''] @
             map (\<lambda>r. describe_row names
               (rule_id r = last_match applying at connector \<and> winner \<noteq> []) r) rs)))"

section \<open>What the inner functions keep\<close>

lemma given_time_bounds: "given_time s = Inr (Some m) \<Longrightarrow> 0 \<le> m \<and> m < 1440"
  by (auto simp: given_time_def map_sum_def split: if_splits sum.splits dest: parse_time_bounds)

lemma given_time_None: "given_time s = Inr None \<longleftrightarrow> s = []"
  by (auto simp: given_time_def map_sum_def split: sum.splits)

lemma wf_rules_members: "wf_rules rs \<Longrightarrow> r \<in> set rs \<Longrightarrow> wf_rule r"
  by (auto simp: wf_rules_def list_all_iff)

lemma wf_rules_filter: "wf_rules rs \<Longrightarrow> wf_rules (filter P rs)"
  unfolding wf_rules_def
  by (auto simp: list_all_iff distinct_map_filter intro: order_trans [OF length_filter_le])

lemma wf_rules_map:
  assumes "wf_rules rs" and "\<And>r. r \<in> set rs \<Longrightarrow> wf_rule (f r) \<and> rule_id (f r) = rule_id r"
  shows "wf_rules (map f rs)"
proof -
  have "map rule_id (map f rs) = map rule_id rs" using assms(2) by simp
  with assms show ?thesis by (simp add: wf_rules_def list_all_iff del: map_map)
qed

lemma wf_rules_update:
  assumes "wf_rules rs" "k < length rs" "wf_rule r" "rule_id r = rule_id (rs ! k)"
  shows "wf_rules (rs[k := r])"
proof -
  have "map rule_id (rs[k := r]) = map rule_id rs"
    using assms(2,4) by (simp add: map_update list_update_same_conv)
  with assms show ?thesis
    using set_update_subset_insert [of rs k r] by (auto simp: wf_rules_def list_all_iff)
qed

lemma wf_rules_insert:
  assumes "wf_rules rs" "wf_rule r" "rule_id r \<notin> rule_id ` set rs" "length rs < MAX_RULES"
    "k \<le> length rs"
  shows "wf_rules (insert_at k r rs)"
  using assms by (auto simp: wf_rules_def list_all_iff distinct_map_insert_at)

lemma remove_at_mset: "k < length xs \<Longrightarrow> mset (insert_at j (xs ! k) (remove_at k xs)) = mset xs"
  by (simp add: mset_insert_at mset_remove_at)

lemma insert_remove_same: "k < length xs \<Longrightarrow> insert_at k (xs ! k) (remove_at k xs) = xs"
  by (simp add: insert_at_def remove_at_def min_def id_take_nth_drop [symmetric])

lemma wf_rules_mset: "mset rs = mset rs' \<Longrightarrow> wf_rules rs \<longleftrightarrow> wf_rules rs'"
proof -
  assume m: "mset rs = mset rs'"
  then have "set rs = set rs'" "length rs = length rs'"
    by (metis set_mset_mset, metis size_mset)
  moreover have "distinct (map rule_id rs) \<longleftrightarrow> distinct (map rule_id rs')"
    using m by (intro mset_eq_imp_distinct_iff) simp
  ultimately show ?thesis by (simp add: wf_rules_def list_all_iff)
qed

lemma new_rule_wf:
  assumes "new_rule fresh a i n b = Inr r"
    and "i = None \<or> i = Some [] \<Longrightarrow> strip fresh = fresh \<and> fresh \<noteq> []"
    and "\<And>c. i = Some c \<Longrightarrow> strip c = c"
  shows "wf_rule r"
proof -
  let ?id = "case i of None \<Rightarrow> fresh | Some c \<Rightarrow> if c = [] then fresh else c"
  from assms(1) obtain name connector months weekdays start finish where
    half: "(a_start a = []) = (a_end a = [])" and name: "tidy_name n = Inr name"
    and enc: "encodable ?id" "encodable (a_playlist a)"
    and conn: "clean_connector (a_connector a) = Inr connector"
    and months: "parse_months (a_months a) = Inr months"
    and days: "parse_weekdays (a_weekdays a) = Inr weekdays"
    and start: "given_time (a_start a) = Inr start" and finish: "given_time (a_end a) = Inr finish"
    and play: "strip (a_playlist a) \<noteq> []"
    by (auto simp: new_rule_def and_then_Inr Let_def split: if_split_asm)
  have r: "r = \<lparr>rule_id = ?id, rule_playlist = strip (a_playlist a), rule_connector = connector,
      rule_months = months, rule_weekdays = weekdays, rule_start = start, rule_end = finish,
      rule_enabled = b, rule_name = name\<rparr>"
    using assms(1) half enc play unfolding new_rule_def name conn months days start finish
    by (simp add: Let_def)
  have "?id \<noteq> [] \<and> strip ?id = ?id" using assms(2,3) by (auto split: option.splits)
  moreover have "clean_connector connector = Inr connector"
    using conn clean_connector_id by metis
  moreover have "start = None \<longleftrightarrow> finish = None"
    using half start finish given_time_None [of "a_start a"] given_time_None [of "a_end a"] by auto
  moreover have "\<And>s. name = Some s \<Longrightarrow> tidy_name (Some s) = Inr (Some s)"
    using name tidy_name_idem by metis
  moreover have "\<And>s. start = Some s \<Longrightarrow> 0 \<le> s \<and> s < 1440"
    "\<And>e. finish = Some e \<Longrightarrow> 0 \<le> e \<and> e < 1440"
    using start finish given_time_bounds by blast+
  ultimately show ?thesis
    using r enc play parse_months_bounds [OF months]
      parse_weekdays_bounds [OF days] by (simp add: wf_rule_iff encodable_strip)
qed

text \<open>The inner functions that keep the invariant and tell the truth about changing nothing.\<close>

definition sound_change :: "(rule list, 'r) change \<Rightarrow> bool" where
  "sound_change change \<longleftrightarrow> schedule.preserves change \<and> schedule.honest change"

lemma sound_changeI:
  assumes "\<And>v x b v'. wf_rules v \<Longrightarrow> change v = Inr (x, b, v') \<Longrightarrow> wf_rules v'"
    and "\<And>v x v'. change v = Inr (x, False, v') \<Longrightarrow> v' = v"
  shows "sound_change change"
  using assms unfolding sound_change_def schedule.preserves_def schedule.honest_def by blast

lemma append_rule_sound: "wf_rule r \<Longrightarrow> sound_change (append_rule r at)"
proof (rule sound_changeI)
  fix v x b v'
  assume r: "wf_rule r" and v: "wf_rules v" and a: "append_rule r at v = Inr (x, b, v')"
  from a have new: "rule_id r \<notin> rule_id ` set v" and room: "length v < MAX_RULES"
    by (auto simp: append_rule_def list_ex_iff split: if_splits)
  have "v @ [r] = insert_at (length v) r v" by (simp add: insert_at_def)
  with a new room have "v' = insert_at (case at of None \<Rightarrow> length v | Some i \<Rightarrow> clamp (length v) i) r v"
    by (auto simp: append_rule_def split: if_splits option.splits)
  then have "\<exists>k \<le> length v. v' = insert_at k r v"
    by (rule_tac exI, rule_tac conjI [rotated], assumption) (simp split: option.split)
  then show "wf_rules v'" using wf_rules_insert [OF v r new room] by blast
qed (simp add: append_rule_def split: if_splits)

lemma drop_rules_sound: "sound_change (drop_rules gone)"
  by (rule sound_changeI) (auto simp: drop_rules_def Let_def wf_rules_filter split: if_splits)

lemma drop_flag_sound: "sound_change (\<lambda>rs. map_sum id (\<lambda>(n, c, v). (c, c, v)) (drop_rules gone rs))"
  by (rule sound_changeI) (auto simp: drop_rules_def Let_def wf_rules_filter split: if_splits)

lemma remove_rule_sound: "sound_change (remove_rule i)"
  using drop_flag_sound by (simp add: remove_rule_def [abs_def])

lemma remove_display_rules_sound: "sound_change (remove_display_rules c)"
  by (rule sound_changeI) (auto simp: remove_display_rules_def Let_def wf_rules_filter split: if_splits)

lemma change_rule_sound:
  assumes "\<And>r. wf_rule r \<Longrightarrow> wf_rule (f r) \<and> rule_id (f r) = rule_id r"
  shows "sound_change (change_rule i f)"
proof (rule sound_changeI)
  fix v x b v'
  assume v: "wf_rules v" and "change_rule i f v = Inr (x, b, v')"
  then obtain k where k: "k < length v" "v' = v[k := f (v ! k)]"
    by (auto simp: change_rule_def Let_def split: option.splits dest: find_index_Some)
  with v have "wf_rule (v ! k)" by (simp add: wf_rules_members)
  with k v assms show "wf_rules v'" by (simp add: wf_rules_update)
qed (auto simp: change_rule_def Let_def split: option.splits)

lemma copy_rule_sound:
  assumes "strip c = c" "c \<noteq> []" "encodable c"
  shows "sound_change (copy_rule i c)"
proof (rule sound_changeI)
  fix v x b v'
  assume v: "wf_rules v" and a: "copy_rule i c v = Inr (x, b, v')"
  then obtain k where k: "k < length v"
    and v': "v' = insert_at (Suc k) ((v ! k)\<lparr>rule_id := c, rule_name := None\<rparr>) v"
    by (auto simp: copy_rule_def Let_def split: if_splits option.splits dest: find_index_Some)
  have "wf_rule (v ! k)" using v k by (simp add: wf_rules_members)
  then have "wf_rule ((v ! k)\<lparr>rule_id := c, rule_name := None\<rparr>)"
    using assms by (simp add: wf_rule_iff)
  moreover have "c \<notin> rule_id ` set v" "length v < MAX_RULES"
    using a by (auto simp: copy_rule_def list_ex_iff split: if_splits)
  ultimately show "wf_rules v'" using v v' k by (auto intro: wf_rules_insert)
qed (auto simp: copy_rule_def Let_def split: if_splits option.splits)

lemma move_rule_sound: "sound_change (move_rule i p)"
  by (rule sound_changeI)
    (auto simp: move_rule_def Let_def insert_remove_same remove_at_mset split: option.splits
      dest!: find_index_Some elim: wf_rules_mset [THEN iffD1, rotated])

lemma move_rule_relative_sound: "sound_change (move_rule_relative i s)"
  by (rule sound_changeI)
    (auto simp: move_rule_relative_def Let_def insert_remove_same remove_at_mset
      split: option.splits dest!: find_index_Some elim: wf_rules_mset [THEN iffD1, rotated])

lemma point_rules_sound:
  assumes "strip p = p" "p \<noteq> []" "encodable p"
  shows "sound_change (point_rules picked p)"
proof (rule sound_changeI)
  fix v x b v' assume "wf_rules v" and "point_rules picked p v = Inr (x, b, v')"
  then show "wf_rules v'" using assms
    by (auto simp: point_rules_def Let_def wf_rule_iff dest: wf_rules_members intro!: wf_rules_map)
next
  fix v x v' assume "point_rules picked p v = Inr (x, False, v')"
  then show "v' = v"
    by (auto simp: point_rules_def Let_def filter_empty_conv intro: map_idI)
qed

end
