(* ===== verification/Schedule_Precedence.thy ===== *)
theory Schedule_Precedence
  imports Schedule_Store
begin

text \<open>
  What a schedule means: when a rule's window is open, which rule of an ordered list is in force,
  and how the operations of \<open>schedules.Store\<close> change that.
\<close>

section \<open>The abstract specification of a window\<close>

text \<open>
  A time as minutes since day 0, and the minutes of the occurrence of a rule's window that day
  \<open>d\<close> owns: one that wraps midnight runs on into the next day.
\<close>

definition absolute :: "datetime \<Rightarrow> int" where
  "absolute at = 1440 * at_day at + minute_of_day at"

definition window_on :: "rule \<Rightarrow> date \<Rightarrow> int set" where
  "window_on r d =
     (case (rule_start r, rule_end r) of
        (Some s, Some e) \<Rightarrow>
          (if s = e then {1440 * d ..< 1440 * (d + 1)}
           else if s < e then {1440 * d + s ..< 1440 * d + e}
           else {1440 * d + s ..< 1440 * (d + 1) + e})
      | _ \<Rightarrow> {1440 * d ..< 1440 * (d + 1)})"

definition day_chosen :: "rule \<Rightarrow> date \<Rightarrow> bool" where
  "day_chosen r d \<longleftrightarrow>
     (rule_months r = {} \<or> month d \<in> rule_months r) \<and>
     (rule_weekdays r = {} \<or> weekday d \<in> rule_weekdays r)"

definition aimed_at :: "rule \<Rightarrow> pystr \<Rightarrow> bool" where
  "aimed_at r connector \<longleftrightarrow> rule_connector r = [] \<or> rule_connector r = connector"

lemma matches_parts:
  "matches r at c \<longleftrightarrow> aimed_at r c \<and> rule_enabled r \<and> day_chosen r (calendar_date r at) \<and>
     within r (minute_of_day at)"
  by (auto simp: matches_def aimed_at_def day_chosen_def Let_def)

text \<open>A minute of day \<open>D\<close> lies in a stretch of day \<open>d\<close> only if the days agree.\<close>

lemma minute_in_day:
  fixes D :: int
  assumes "0 \<le> m" "m < 1440" "0 \<le> s" "e \<le> 1440"
  shows "1440 * d + s \<le> 1440 * D + m \<and> 1440 * D + m < 1440 * d + e \<longleftrightarrow> d = D \<and> s \<le> m \<and> m < e"
  using assms by (cases d D rule: linorder_cases) auto

lemma minute_in_wrapped_day:
  fixes D :: int
  assumes "0 \<le> m" "m < 1440" "0 \<le> e" "e < s" "s < 1440"
  shows "1440 * d + s \<le> 1440 * D + m \<and> 1440 * D + m < 1440 * (d + 1) + e \<longleftrightarrow>
    d = D \<and> s \<le> m \<or> d = D - 1 \<and> m < e"
proof -
  consider "D < d" | "d = D" | "d = D - 1" | "d < D - 1" by linarith
  then show ?thesis using assms by cases auto
qed

lemma window_on_calendar_date:
  assumes "wf_rule r" and "wf_datetime at"
  shows "absolute at \<in> window_on r d \<longleftrightarrow> d = calendar_date r at \<and> within r (minute_of_day at)"
proof -
  let ?m = "minute_of_day at"
  have m: "0 \<le> ?m" "?m < 1440" using wf_datetime_minute [OF assms(2)] by auto
  have whole: "1440 * d \<le> absolute at \<and> absolute at < 1440 * (d + 1) \<longleftrightarrow> d = at_day at"
    using minute_in_day [OF m, of 0 1440 d "at_day at"] m by (simp add: absolute_def algebra_simps)
  show ?thesis
  proof (cases "rule_start r")
    case None
    with whole show ?thesis by (simp add: window_on_def calendar_date_def within_def)
  next
    case (Some s)
    with assms obtain e where e: "rule_end r = Some e" by (auto simp: wf_rule_iff)
    have b: "0 \<le> s" "s < 1440" "0 \<le> e" "e < 1440" using assms(1) Some e by (auto simp: wf_rule_iff)
    consider "s = e" | "s < e" | "e < s" by linarith
    then show ?thesis
    proof cases
      case 1
      with whole Some e show ?thesis by (simp add: window_on_def calendar_date_def within_def)
    next
      case 2
      with Some e b minute_in_day [OF m, of s e d "at_day at"] show ?thesis
        by (auto simp: window_on_def calendar_date_def within_def absolute_def)
    next
      case 3
      with Some e b minute_in_wrapped_day [OF m, of e s d "at_day at"] show ?thesis
        by (auto simp: window_on_def calendar_date_def within_def absolute_def)
    qed
  qed
qed

text \<open>C1: A rule matches a time on a connector exactly when it is switched on and aimed at the
  connector, and some day its months and weekdays choose has a window open at that minute: the
  window of a day starts at \<open>start\<close>, excludes \<open>end\<close>, runs past midnight where \<open>end\<close> comes first,
  and is the whole day where the two are equal or absent.\<close>

theorem matches_window:
  assumes "wf_rule r" and "wf_datetime at"
  shows "matches r at c \<longleftrightarrow>
    aimed_at r c \<and> rule_enabled r \<and> (\<exists>d. day_chosen r d \<and> absolute at \<in> window_on r d)"
  using window_on_calendar_date [OF assms] by (auto simp: matches_parts)

section \<open>The last match is in force\<close>

lemma resolve_rule_last:
  "resolve_rule rs at c chosen =
     (case filter (\<lambda>r. matches r at c) rs of [] \<Rightarrow> chosen | m # ms \<Rightarrow> Some (last (m # ms)))"
  by (induction rs arbitrary: chosen) (auto split: list.splits)

lemma resolve_rule_append:
  "resolve_rule (xs @ ys) at c chosen = resolve_rule ys at c (resolve_rule xs at c chosen)"
  by (induction xs arbitrary: chosen) auto

lemma resolve_rule_member:
  "resolve_rule rs at c chosen = Some r \<Longrightarrow> (r \<in> set rs \<and> matches r at c) \<or> chosen = Some r"
  by (induction rs arbitrary: chosen) (auto split: if_splits)

lemma resolve_rule_split:
  "resolve_rule rs at c None = Some r \<longleftrightarrow>
     (\<exists>below above. rs = below @ r # above \<and> matches r at c \<and> (\<forall>q\<in>set above. \<not> matches q at c))"
proof (induction rs rule: rev_induct)
  case (snoc x xs)
  show ?case
  proof (cases "matches x at c")
    case True
    have "above = []" if "xs @ [x] = below @ r # above" "\<forall>q\<in>set above. \<not> matches q at c" for below above
      using that True by (cases above rule: rev_cases) auto
    with True show ?thesis by (fastforce simp: resolve_rule_append)
  next
    case False
    have "resolve_rule (xs @ [x]) at c None = resolve_rule xs at c None"
      using False by (simp add: resolve_rule_append)
    also have "\<dots> = Some r \<longleftrightarrow>
        (\<exists>below above. xs = below @ r # above \<and> matches r at c \<and> (\<forall>q\<in>set above. \<not> matches q at c))"
      by (rule snoc)
    also have "\<dots> \<longleftrightarrow> (\<exists>below above. xs @ [x] = below @ r # above \<and> matches r at c \<and>
        (\<forall>q\<in>set above. \<not> matches q at c))" (is "?L \<longleftrightarrow> ?R")
    proof
      assume ?L
      then obtain below above where "xs = below @ r # above" "matches r at c"
        "\<forall>q\<in>set above. \<not> matches q at c" by blast
      then show ?R using False by (intro exI [of _ below] exI [of _ "above @ [x]"]) auto
    next
      assume ?R
      then obtain below above where s: "xs @ [x] = below @ r # above" and m: "matches r at c"
        and a: "\<forall>q\<in>set above. \<not> matches q at c" by blast
      with False have "above \<noteq> []" by (cases above) auto
      with s obtain above' where "above = above' @ [x]" "xs = below @ r # above'"
        by (cases above rule: rev_cases) auto
      then show ?L using m a by auto
    qed
    finally show ?thesis .
  qed
qed simp

section \<open>Samples\<close>

text \<open>A named window over two midnights a week in December, and a rule that always matches.\<close>

definition nights :: rule where
  "nights = \<lparr>rule_id = lit ''a'', rule_playlist = lit ''night'', rule_connector = [],
     rule_months = {12}, rule_weekdays = {0, 3}, rule_start = Some 1320, rule_end = Some 360,
     rule_enabled = True, rule_name = Some (lit ''Nights'')\<rparr>"

definition always :: rule where
  "always = \<lparr>rule_id = lit ''b'', rule_playlist = lit ''day'', rule_connector = [],
     rule_months = {}, rule_weekdays = {}, rule_start = None, rule_end = None,
     rule_enabled = True, rule_name = None\<rparr>"

text \<open>01:30 on the first of January 2027, in the window that the Thursday before it owns.\<close>

definition new_year :: datetime where
  "new_year = \<lparr>at_day = 739982, at_hour = 1, at_minute = 30\<rparr>"

definition sample_world :: world where
  "sample_world = holding (plain_schedule [always, nights])"

lemma sample_wf: "wf_rules [always, nights]"
  by code_simp

lemma sample_read: "read_schedule (w_node sample_world) = Inr
    \<lparr>r_value = [always, nights], r_fault = None, r_newer = False,
     r_unknown = capture_unknown schedule_shape (plain_schedule [always, nights]),
     r_version = Some 3\<rparr>"
proof -
  have "schedule_document [always, nights] nothing_unknown = Inr (plain_schedule [always, nights])"
    by (simp add: schedule_document_def plain_schedule_def nothing_unknown_def merge_fields_def)
  moreover have "json_encodable (JObj (plain_schedule [always, nights]))" by code_simp
  ultimately show ?thesis
    using read_schedule_written [OF sample_wf, of nothing_unknown _ 1]
    by (simp add: sample_world_def holding_def MAX_SCHEDULE_BYTES_def)
qed

theorem matches_window_witness:
  "matches nights new_year [] \<and> day_chosen nights 739981 \<and>
     absolute new_year \<in> window_on nights 739981 \<and> \<not> day_chosen nights (at_day new_year)"
proof -
  have "wf_rule nights" "wf_datetime new_year" by code_simp+
  from matches_window [OF this, of "[]"]
  have "matches nights new_year [] \<longleftrightarrow> aimed_at nights [] \<and> rule_enabled nights \<and>
      (\<exists>d. day_chosen nights d \<and> absolute new_year \<in> window_on nights d)" .
  moreover have "day_chosen nights 739981" "\<not> day_chosen nights (at_day new_year)"
    "aimed_at nights []" "rule_enabled nights"
    by code_simp+
  moreover have "absolute new_year \<in> window_on nights 739981"
    by (simp add: window_on_def nights_def absolute_def new_year_def minute_of_day_def)
  ultimately show ?thesis by blast
qed

text \<open>C2: \<open>resolve\<close> answers with the playlist of the last rule of the list that matches, and with
  no playlist exactly when no rule does.\<close>

theorem resolve_last_match:
  assumes "wf_rules rs" and "clean_connector c = Inr c'"
  shows "resolve rs at c = Inr p \<longleftrightarrow>
    (\<exists>below r above. rs = below @ r # above \<and> p = rule_playlist r \<and> matches r at c \<and>
       (\<forall>q\<in>set above. \<not> matches q at c)) \<or>
    p = [] \<and> (\<forall>q\<in>set rs. \<not> matches q at c)"
proof -
  have c: "clean_connector c = Inr c" using assms(2) clean_connector_id by metis
  show ?thesis
  proof (cases "resolve_rule rs at c None")
    case None
    then have "\<forall>q\<in>set rs. \<not> matches q at c"
      by (auto simp: resolve_rule_last filter_empty_conv split: list.splits)
    with None c show ?thesis by (auto simp: resolve_def)
  next
    case (Some r)
    from Some [unfolded resolve_rule_split] have some: "\<exists>q\<in>set rs. matches q at c" by auto
    have "resolve rs at c = Inr p \<longleftrightarrow> p = rule_playlist r" using Some c by (auto simp: resolve_def)
    also have "\<dots> \<longleftrightarrow> (\<exists>q. resolve_rule rs at c None = Some q \<and> p = rule_playlist q)"
      using Some by auto
    finally show ?thesis using some unfolding resolve_rule_split by blast
  qed
qed

theorem resolve_last_match_witness: "resolve [always, nights] new_year [] = Inr (lit ''night'')"
proof -
  have "matches nights new_year []" by code_simp
  then show ?thesis
    unfolding resolve_last_match [OF sample_wf, of "[]" "[]" new_year, simplified]
    by (intro disjI1 exI [of _ "[always]"] exI [of _ nights] exI [of _ "[]"])
      (simp add: nights_def)
qed

section \<open>What the operations do to the rule in force\<close>

text \<open>The playlist in force before \<open>resolve\<close> says which one stands for none.\<close>

definition in_force :: "rule list \<Rightarrow> datetime \<Rightarrow> pystr \<Rightarrow> pystr option" where
  "in_force rs at c = map_option rule_playlist (resolve_rule rs at c None)"

lemma resolve_in_force:
  "resolve rs at c = (case clean_connector c of Inl e \<Rightarrow> Inl e
     | Inr c' \<Rightarrow> Inr (case in_force rs at c' of None \<Rightarrow> [] | Some p \<Rightarrow> p))"
  by (auto simp: resolve_def in_force_def split: sum.splits option.splits)

lemma resolve_rule_playlist_cong:
  "map_option rule_playlist a = map_option rule_playlist b \<Longrightarrow>
     map_option rule_playlist (resolve_rule rs at c a) = map_option rule_playlist (resolve_rule rs at c b)"
proof (induction rs arbitrary: a b)
  case (Cons q rs)
  show ?case by (simp only: resolve_rule.simps, rule Cons.IH, simp add: Cons.prems)
qed (simp only: resolve_rule.simps)

lemma matches_renamed [simp]: "matches (r\<lparr>rule_id := i, rule_name := n\<rparr>) at c = matches r at c"
  by (simp add: matches_def calendar_date_def within_def)

lemma matches_retargeted [simp]: "matches (r\<lparr>rule_playlist := p\<rparr>) at c = matches r at c"
  by (simp add: matches_def calendar_date_def within_def)

lemma copy_rule_in_force:
  assumes "copy_rule i j rs = Inr (made, b, rs')"
  shows "in_force rs' at c = in_force rs at c"
proof -
  from assms obtain k where k: "k < length rs"
    and made: "made = (rs ! k)\<lparr>rule_id := j, rule_name := None\<rparr>"
    and rs': "rs' = insert_at (Suc k) made rs"
    by (auto simp: copy_rule_def Let_def split: if_splits option.splits dest: find_index_Some)
  have rs: "rs = take k rs @ rs ! k # drop (Suc k) rs" using k by (simp add: id_take_nth_drop [symmetric])
  have "take (Suc k) rs = take k rs @ [rs ! k]" using k by (rule take_Suc_conv_app_nth)
  then have split: "rs' = take k rs @ rs ! k # made # drop (Suc k) rs"
    using rs' by (simp add: insert_at_def)
  have "in_force (take k rs @ rs ! k # made # drop (Suc k) rs) at c =
      in_force (take k rs @ rs ! k # drop (Suc k) rs) at c"
    unfolding in_force_def resolve_rule_append resolve_rule.simps
    by (rule resolve_rule_playlist_cong) (simp add: made)
  then show ?thesis using rs split by metis
qed

lemma drop_rules_value: "drop_rules gone rs = Inr (n, b, rs') \<Longrightarrow>
    rs' = filter (\<lambda>r. \<not> gone r) rs \<and> n = length (filter gone rs) \<and> b = (n \<noteq> 0)"
proof -
  assume a: "drop_rules gone rs = Inr (n, b, rs')"
  have len: "length rs - length (filter (\<lambda>r. \<not> gone r) rs) = length (filter gone rs)"
    using sum_length_filter_compl [of gone rs] by simp
  have "rs = filter (\<lambda>r. \<not> gone r) rs" if "filter gone rs = []"
    using that by (metis filter_True filter_empty_conv)
  with a len show ?thesis by (auto simp: drop_rules_def Let_def split: if_splits)
qed

lemma resolve_rule_filter_keep:
  "resolve_rule rs at c None = Some r \<Longrightarrow> P r \<Longrightarrow> resolve_rule (filter P rs) at c None = Some r"
  unfolding resolve_rule_split by fastforce

lemma point_rules_in_force:
  assumes "point_rules (\<lambda>r. P (rule_playlist r)) p rs = Inr (n, b, rs')"
  shows "in_force rs' at c = map_option (\<lambda>q. if P q then p else q) (in_force rs at c)"
proof -
  define f :: "rule \<Rightarrow> rule" where "f = (\<lambda>r. if P (rule_playlist r) then r\<lparr>rule_playlist := p\<rparr> else r)"
  have m: "matches (f r) at c = matches r at c" for r by (simp add: f_def)
  have "resolve_rule (map f rs) at c (map_option f ch) = map_option f (resolve_rule rs at c ch)" for ch
    by (induction rs arbitrary: ch) (auto simp: m simp flip: option.map(2))
  from this [of None] have "in_force (map f rs) at c =
      map_option (rule_playlist \<circ> f) (resolve_rule rs at c None)"
    by (simp add: in_force_def option.map_comp)
  also have "rule_playlist \<circ> f = (\<lambda>q. if P q then p else q) \<circ> rule_playlist"
    by (auto simp: f_def)
  finally show ?thesis
    using assms by (simp add: point_rules_def Let_def in_force_def option.map_comp f_def comp_def)
qed

lemma move_rule_value:
  assumes "move_rule i position rs = Inr (moved, b, rs')"
  shows "moved \<in> set rs \<and> rule_id moved = i \<and> mset rs' = mset rs \<and>
    rs' ! clamp (length rs - 1) position = moved \<and>
    (\<exists>k < length rs. rs ! k = moved \<and> remove_at (clamp (length rs - 1) position) rs' = remove_at k rs)"
proof -
  from assms obtain k where "find_index (\<lambda>r. rule_id r = i) rs = Some k" and m: "moved = rs ! k"
    and v: "rs' = insert_at (clamp (length (remove_at k rs)) position) (rs ! k) (remove_at k rs)"
    by (auto simp: move_rule_def Let_def simp del: length_remove_at split: option.splits)
  with find_index_Some [OF this(1)] have k: "k < length rs" "rule_id (rs ! k) = i" "moved = rs ! k"
    by auto
  then have rs': "rs' = insert_at (clamp (length rs - 1) position) (rs ! k) (remove_at k rs)"
    using v by (simp add: length_remove_at)
  let ?t = "clamp (length rs - 1) position"
  have len: "?t \<le> length (remove_at k rs)" using k by (simp add: length_remove_at)
  then have "remove_at ?t rs' = remove_at k rs"
    by (simp add: rs' remove_insert_at)
  with k rs' len show ?thesis
    by (auto simp: remove_at_mset nth_insert_at)
qed

end
