(* ===== verification/Schedule_System.thy ===== *)
theory Schedule_System
  imports Schedule_Precedence
begin

text \<open>
  Whole operations of \<open>schedules.Store\<close>, on the store, the file and the operating system: what is in
  force after each, what the file then holds, and what any sequence of operations by several
  processes, with edits from outside in between, keeps.
\<close>

section \<open>One operation\<close>

lemma checked_ok:
  "checked x k s w = (Inr y, s1, w1) \<Longrightarrow> \<exists>a. x = Inr a \<and> k a s w = (Inr y, s1, w1)"
  by (cases x) (auto simp: checked_def)

lemma mutate_rebases:
  assumes "mutate_rules env refuse change st w = (Inr x, st1, w1)"
    and "read_schedule (w_node w) = Inr r" and "st_loaded st"
  obtains b where "change (r_value r) = Inr (x, b, st_value st1)"
  using schedule.transact_rebases [OF assms(1) [unfolded mutate_rules_def]] assms(2,3) by auto

lemma sound_preserves: "sound_change change \<Longrightarrow> schedule.preserves change"
  and sound_honest: "sound_change change \<Longrightarrow> schedule.honest change"
  by (simp_all add: sound_change_def)

lemma mutate_wf:
  assumes "mutate_rules env refuse change st w = (res, st1, w1)" "sound_change change"
    and "wf_rules (st_value st)"
  shows "wf_rules (st_value st1)"
  using schedule.transact_wf [OF assms(1) [unfolded mutate_rules_def]] assms(2,3) sound_preserves
  by blast

text \<open>After an operation that refuses a damaged file, the file holds exactly what the store holds.\<close>

lemma mutate_in_file:
  assumes m: "mutate_rules env True change st w = (Inr x, st1, w1)" and s: "sound_change change"
    and "st_loaded st" and "wf_rules (st_value st)"
  obtains r where "read_schedule (w_node w1) = Inr r" "r_fault r = None" "r_value r = st_value st1"
proof -
  note t = m [unfolded mutate_rules_def]
  from t show ?thesis
  proof (cases rule: transact_cases)
    case (unchanged r y v)
    then have "change (r_value r) = Inr (y, False, v)" using \<open>st_loaded st\<close> by simp
    moreover have "wf_rules (r_value r)" using unchanged(5) by (simp add: read_schedule_wf)
    ultimately have "v = r_value r" using sound_honest [OF s] by (simp add: schedule.honest_def)
    with unchanged that [of r] show ?thesis by auto
  next
    case (saved r y v)
    from persist_ok [OF saved(9)] obtain d where d: "schedule_document v (r_unknown r) = Inr d"
      "rendered_size (JObj d) \<le> MAX_SCHEDULE_BYTES" "json_encodable (JObj d)"
      "w_node w1 = Regular (rendered_size (JObj d)) (Decoded (JObj d))"
      by auto
    have "wf_rules v" using mutate_wf [OF m s assms(4)] saved(2) by simp
    from read_schedule_written [OF this d(1-3)] d(4) saved(2) that show ?thesis by simp
  qed auto
qed

section \<open>What each operation does to the schedule\<close>

text \<open>C17: Copying a rule never changes which playlist is in force, at any time on any connector:
  the copy goes directly above its original and matches whenever it does.\<close>

theorem copy_keeps_schedule:
  assumes "copy env fresh i chosen st w = (Inr made, st1, w1)"
    and "read_schedule (w_node w) = Inr r" and "st_loaded st"
  shows "effective (st_value st1) fallback at c = effective (r_value r) fallback at c"
proof -
  from assms obtain j b where "copy_rule i j (r_value r) = Inr (made, b, st_value st1)"
    unfolding copy_def by (blast elim: mutate_rebases)
  from copy_rule_in_force [OF this] show ?thesis
    by (simp add: effective_def resolve_in_force split: sum.split)
qed

theorem copy_keeps_schedule_witness:
  "\<exists>made st1 w1. copy calm (lit ''c'') (lit ''a'') None opened_empty sample_world = (Inr made, st1, w1) \<and>
     map rule_id (st_value st1) = [lit ''b'', lit ''a'', lit ''c''] \<and>
     effective (st_value st1) [] new_year [] = effective [always, nights] [] new_year []"
proof -
  obtain res st1 w1 where run:
    "copy calm (lit ''c'') (lit ''a'') None opened_empty sample_world = (res, st1, w1)"
    by (metis prod_cases3)
  have "is_ok (fst (copy calm (lit ''c'') (lit ''a'') None opened_empty sample_world))"
    "map rule_id (st_value (fst (snd (copy calm (lit ''c'') (lit ''a'') None opened_empty sample_world)))) =
       [lit ''b'', lit ''a'', lit ''c'']"
    by code_simp+
  with run obtain made where made: "res = Inr made" "map rule_id (st_value st1) = [lit ''b'', lit ''a'', lit ''c'']"
    by (cases res) auto
  have "st_loaded opened_empty" by (simp add: opened_empty_def)
  with copy_keeps_schedule [OF run [unfolded made(1)] sample_read, of "[]" new_year "[]"] run made
  show ?thesis by auto
qed

text \<open>Moving a rule puts it at the position asked for, clamped to the list, leaves every other
  rule where it was among the others, and neither loses nor adds one.\<close>

theorem move_keeps_others:
  assumes "move env i position st w = (Inr moved, st1, w1)"
    and "read_schedule (w_node w) = Inr r" and "st_loaded st"
  shows "mset (st_value st1) = mset (r_value r) \<and> rule_id moved = i \<and>
    st_value st1 ! clamp (length (r_value r) - 1) position = moved \<and>
    (\<exists>k < length (r_value r). r_value r ! k = moved \<and>
       remove_at (clamp (length (r_value r) - 1) position) (st_value st1) = remove_at k (r_value r))"
proof -
  from assms obtain b where "move_rule i position (r_value r) = Inr (moved, b, st_value st1)"
    unfolding move_def by (blast elim: mutate_rebases)
  then show ?thesis using move_rule_value by blast
qed

theorem move_keeps_others_witness:
  "\<exists>moved st1 w1. move calm (lit ''a'') (- 7) opened_empty sample_world = (Inr moved, st1, w1) \<and>
     st_value st1 ! 0 = moved \<and> mset (st_value st1) = {# always, nights #}"
proof -
  obtain res st1 w1 where run: "move calm (lit ''a'') (- 7) opened_empty sample_world = (res, st1, w1)"
    by (metis prod_cases3)
  have "is_ok (fst (move calm (lit ''a'') (- 7) opened_empty sample_world))" by code_simp
  with run obtain moved where moved: "res = Inr moved" by (cases res) auto
  have "st_loaded opened_empty" by (simp add: opened_empty_def)
  with move_keeps_others [OF run [unfolded moved] sample_read] run moved show ?thesis
    by (auto simp: clamp_def)
qed

text \<open>Once a deleted playlist has been forgotten, no rule of the store or of the file names it
  any more, no time resolves to it, every rule kept is in its old order, and the rule in force
  stays in force unless it named the playlist.\<close>

theorem forget_playlist_where_gone:
  assumes "forget_playlist_where env names st w = (Inr n, st1, w1)"
    and "read_schedule (w_node w) = Inr r" and "st_loaded st" and "wf_rules (st_value st)"
  shows "st_value st1 = filter (\<lambda>q. \<not> names (rule_playlist q)) (r_value r) \<and>
    n + length (st_value st1) = length (r_value r) \<and>
    (\<forall>at c p. in_force (st_value st1) at c = Some p \<longrightarrow> \<not> names p) \<and>
    (\<forall>at c p. in_force (r_value r) at c = Some p \<longrightarrow> \<not> names p \<longrightarrow> in_force (st_value st1) at c = Some p) \<and>
    (\<exists>r1. read_schedule (w_node w1) = Inr r1 \<and> r_fault r1 = None \<and> r_value r1 = st_value st1)"
proof -
  let ?keep = "\<lambda>q. \<not> names (rule_playlist q)"
  note run = assms(1) [unfolded forget_playlist_where_def]
  obtain b where "drop_rules (\<lambda>q. names (rule_playlist q)) (r_value r) = Inr (n, b, st_value st1)"
    using mutate_rebases [OF run assms(2,3)] .
  from drop_rules_value [OF this] have v: "st_value st1 = filter ?keep (r_value r)"
    and n: "n = length (filter (\<lambda>q. names (rule_playlist q)) (r_value r))" by auto
  have "\<not> names p" if "in_force (st_value st1) at c = Some p" for at c p
    using that unfolding in_force_def v by (auto dest: resolve_rule_member)
  moreover have "in_force (st_value st1) at c = Some p"
    if "in_force (r_value r) at c = Some p" "\<not> names p" for at c p
    using that unfolding in_force_def v by (auto dest: resolve_rule_filter_keep [of _ _ _ _ ?keep])
  moreover obtain r1 where "read_schedule (w_node w1) = Inr r1" "r_fault r1 = None"
    "r_value r1 = st_value st1"
    using mutate_in_file [OF run drop_rules_sound assms(3,4)] .
  moreover have "n + length (st_value st1) = length (r_value r)"
    unfolding v n by (rule sum_length_filter_compl)
  ultimately show ?thesis using v by blast
qed

theorem forget_playlist_where_gone_witness:
  "\<exists>st1 w1. forget_playlist_where calm (\<lambda>p. p = lit ''night'') opened_empty sample_world = (Inr 1, st1, w1) \<and>
     st_value st1 = [always]"
proof -
  let ?run = "forget_playlist_where calm (\<lambda>p. p = lit ''night'') opened_empty sample_world"
  obtain res st1 w1 where run: "?run = (res, st1, w1)" by (metis prod_cases3)
  have "fst ?run = Inr 1" by code_simp
  with run have res: "res = Inr 1" by simp
  have o: "st_loaded opened_empty" "wf_rules (st_value opened_empty)"
    by (simp_all add: opened_empty_def wf_rules_def)
  have "rule_playlist always \<noteq> lit ''night''" "rule_playlist nights = lit ''night''"
    by (simp_all add: always_def nights_def)
  then have "filter (\<lambda>q. rule_playlist q \<noteq> lit ''night'') [always, nights] = [always]"
    by (simp only: filter.simps refl if_True if_False simp_thms)
  with forget_playlist_where_gone [OF run [unfolded res] sample_read o, THEN conjunct1]
  have "st_value st1 = [always]" by (simp only: reading.simps)
  with run res show ?thesis by simp
qed

text \<open>C18: Pointing every rule that names one of some references at a playlist changes what is in
  force exactly by that renaming: at every time and connector where a reference was in force the
  playlist is now, and everything else is as before. The file then holds the same rules.\<close>

theorem retarget_many_in_force:
  assumes "retarget_many env references p st w = (Inr n, st1, w1)"
    and "read_schedule (w_node w) = Inr r" and "st_loaded st"
  shows "in_force (st_value st1) at c =
      map_option (\<lambda>q. if q \<in> set references then p else q) (in_force (r_value r) at c) \<and>
    n = length (filter (\<lambda>q. rule_playlist q \<in> set references) (r_value r))"
proof -
  from checked_ok [OF assms(1) [unfolded retarget_many_def]] have run:
    "mutate_rules env True (point_rules (\<lambda>q. rule_playlist q \<in> set references) p) st w = (Inr n, st1, w1)"
    by blast
  obtain b where "point_rules (\<lambda>q. rule_playlist q \<in> set references) p (r_value r) = Inr (n, b, st_value st1)"
    using mutate_rebases [OF run assms(2,3)] .
  with point_rules_in_force [OF this] show ?thesis by (simp add: point_rules_def Let_def)
qed

theorem retarget_many_in_force_witness:
  "\<exists>st1 w1. retarget_many calm [lit ''night'', lit ''dusk''] (lit ''late'') opened_empty sample_world = (Inr 1, st1, w1) \<and>
     in_force (st_value st1) new_year [] = Some (lit ''late'')"
proof -
  let ?run = "retarget_many calm [lit ''night'', lit ''dusk''] (lit ''late'') opened_empty sample_world"
  obtain res st1 w1 where run: "?run = (res, st1, w1)" by (metis prod_cases3)
  have "fst ?run = Inr 1" by code_simp
  with run have res: "res = Inr 1" by simp
  have "st_loaded opened_empty" by (simp add: opened_empty_def)
  from retarget_many_in_force [OF run [unfolded res] sample_read this, THEN conjunct1, of new_year "[]"]
  have "in_force (st_value st1) new_year [] =
      map_option (\<lambda>q. if q \<in> set [lit ''night'', lit ''dusk''] then lit ''late'' else q)
        (in_force [always, nights] new_year [])"
    by (simp only: reading.simps)
  also have "\<dots> = Some (lit ''late'')" by code_simp
  finally show ?thesis using run res by simp
qed

text \<open>Removing a display's rules removes all of them and only them, returns exactly the rules
  removed, and leaves in the file exactly the rules the store then holds; it never runs on a file
  that could not be read in full.\<close>

theorem remove_for_display_all_or_none:
  assumes "remove_for_display env connector st w = (res, st1, w1)"
    and "read_schedule (w_node w) = Inr r" and "st_loaded st" and "wf_rules (st_value st)"
  shows "case res of
      Inr removed \<Rightarrow>
        r_fault r = None \<and> removed = filter (\<lambda>q. rule_connector q = connector) (r_value r) \<and>
        st_value st1 = filter (\<lambda>q. rule_connector q \<noteq> connector) (r_value r) \<and>
        (\<exists>r1. read_schedule (w_node w1) = Inr r1 \<and> r_fault r1 = None \<and> r_value r1 = st_value st1)
    | Inl e \<Rightarrow> st_value st1 = st_value st \<and> w_node w1 = w_node w"
proof (cases res)
  case (Inl e)
  show ?thesis
  proof (cases "clean_connector connector")
    case bad: (Inl d)
    with assms(1) Inl show ?thesis by (auto simp: remove_for_display_def checked_def)
  next
    case (Inr name)
    with assms(1) have t: "transact schedule_ops env True (remove_display_rules name) st w = (Inl e, st1, w1)"
      using Inl by (simp add: remove_for_display_def checked_def mutate_rules_def)
    from transact_refusing_error [OF t] Inl show ?thesis by simp
  qed
next
  case (Inr removed)
  from checked_ok [OF assms(1) [unfolded remove_for_display_def Inr]] obtain name where
    name: "clean_connector connector = Inr name"
    and run: "mutate_rules env True (remove_display_rules name) st w = (Inr removed, st1, w1)"
    by blast
  have n: "name = connector" using name by (rule clean_connector_id)
  obtain b where "remove_display_rules connector (r_value r) = Inr (removed, b, st_value st1)"
    using mutate_rebases [OF run assms(2,3)] n by blast
  then have "removed = filter (\<lambda>q. rule_connector q = connector) (r_value r)"
    "st_value st1 = filter (\<lambda>q. rule_connector q \<noteq> connector) (r_value r)"
    by (auto simp: remove_display_rules_def Let_def filter_empty_conv filter_id_conv split: if_splits)
  moreover have "r_fault r = None"
    using transact_refusing_ok [OF run [unfolded mutate_rules_def]] assms(2) by simp
  moreover obtain r1 where "read_schedule (w_node w1) = Inr r1" "r_fault r1 = None"
    "r_value r1 = st_value st1"
    using mutate_in_file [OF run remove_display_rules_sound assms(3,4)] .
  ultimately show ?thesis using Inr by simp
qed

theorem remove_for_display_all_or_none_witness:
  "\<exists>st1 w1. remove_for_display calm (lit ''DP-1'') opened_empty sample_world = (Inr [], st1, w1) \<and>
     st_value st1 = [always, nights]"
proof -
  let ?run = "remove_for_display calm (lit ''DP-1'') opened_empty sample_world"
  obtain res st1 w1 where run: "?run = (res, st1, w1)" by (metis prod_cases3)
  have "is_ok (fst ?run)" by code_simp
  with run obtain removed where res: "res = Inr removed" by (cases res) auto
  have o: "st_loaded opened_empty" "wf_rules (st_value opened_empty)"
    by (simp_all add: opened_empty_def wf_rules_def)
  from remove_for_display_all_or_none [OF run sample_read o]
  have "removed = filter (\<lambda>q. rule_connector q = lit ''DP-1'') [always, nights]"
    "st_value st1 = filter (\<lambda>q. rule_connector q \<noteq> lit ''DP-1'') [always, nights]"
    by (simp_all only: res sum.case reading.simps)
  moreover have "rule_connector always \<noteq> lit ''DP-1''" "rule_connector nights \<noteq> lit ''DP-1''"
    by (simp_all add: always_def nights_def lit_def)
  ultimately have "removed = []" "st_value st1 = [always, nights]" by simp_all
  with run res show ?thesis by simp
qed

section \<open>Any sequence of operations\<close>

text \<open>
  What no operation may do to the file: take away something it did not read in full without
  keeping it under a \<open>.broken\<close> name, lose a file kept so, or touch a file that a newer version
  saved or that could not be read at all.
\<close>

definition keeps_bytes :: "world \<Rightarrow> world \<Rightarrow> bool" where
  "keeps_bytes w w1 \<longleftrightarrow>
     set (w_backups w) \<subseteq> set (w_backups w1) \<and>
     (w_node w1 = w_node w \<or> w_node w \<in> set (w_backups w1) \<or>
      (\<exists>r. read_schedule (w_node w) = Inr r \<and> r_fault r = None \<and> \<not> r_newer r)) \<and>
     (\<forall>r. read_schedule (w_node w) = Inr r \<longrightarrow> r_newer r \<or> read_failed (r_fault r) \<longrightarrow> w1 = w)"

definition safe_op :: "'r schedule_op \<Rightarrow> bool" where
  "safe_op f \<longleftrightarrow> (\<forall>st w res st1 w1. f st w = (res, st1, w1) \<longrightarrow>
     (wf_rules (st_value st) \<longrightarrow> wf_rules (st_value st1)) \<and> keeps_bytes w w1)"

lemma safe_mutate: "sound_change change \<Longrightarrow> safe_op (mutate_rules env refuse change)"
  unfolding safe_op_def
proof (intro allI impI conjI)
  fix st w res st1 w1
  assume s: "sound_change change" and m: "mutate_rules env refuse change st w = (res, st1, w1)"
  show "wf_rules (st_value st) \<Longrightarrow> wf_rules (st_value st1)" using mutate_wf [OF m s] .
  show "keeps_bytes w w1"
    using transact_keeps_clean [OF m [unfolded mutate_rules_def]]
      transact_untouched [OF m [unfolded mutate_rules_def]] by (auto simp: keeps_bytes_def)
qed

lemma safe_checked: "(\<And>a. x = Inr a \<Longrightarrow> safe_op (k a)) \<Longrightarrow> safe_op (checked x k)"
  by (cases x) (simp_all add: checked_def [abs_def] safe_op_def keeps_bytes_def)

definition tidy_id :: "pystr \<Rightarrow> bool" where
  "tidy_id i \<longleftrightarrow> i \<noteq> [] \<and> strip i = i \<and> encodable i"

definition tidy_choice :: "pystr option \<Rightarrow> bool" where
  "tidy_choice i = (case i of None \<Rightarrow> True | Some c \<Rightarrow> c = [] \<or> tidy_id c)"

lemma edited_rule_wf:
  assumes "edited_rule a enabled = Inr f" and "wf_rule r"
  shows "wf_rule (f r) \<and> rule_id (f r) = rule_id r"
proof -
  from assms(1) obtain connector months weekdays start finish where
    half: "(a_start a = []) = (a_end a = [])" "strip (a_playlist a) \<noteq> []" "encodable (a_playlist a)"
    and conn: "clean_connector (a_connector a) = Inr connector"
    and months: "parse_months (a_months a) = Inr months"
    and days: "parse_weekdays (a_weekdays a) = Inr weekdays"
    and start: "given_time (a_start a) = Inr start" and finish: "given_time (a_end a) = Inr finish"
    by (auto simp: edited_rule_def and_then_Inr split: if_split_asm)
  have f: "f r = \<lparr>rule_id = rule_id r, rule_playlist = strip (a_playlist a), rule_connector = connector,
      rule_months = months, rule_weekdays = weekdays, rule_start = start, rule_end = finish,
      rule_enabled = (case enabled of None \<Rightarrow> rule_enabled r | Some b \<Rightarrow> b), rule_name = rule_name r\<rparr>"
    using assms(1) half unfolding edited_rule_def conn months days start finish by auto
  have "clean_connector connector = Inr connector" using conn clean_connector_id by metis
  moreover have "start = None \<longleftrightarrow> finish = None"
    using half start finish given_time_None [of "a_start a"] given_time_None [of "a_end a"] by auto
  moreover have "\<And>s. start = Some s \<Longrightarrow> 0 \<le> s \<and> s < 1440"
    "\<And>e. finish = Some e \<Longrightarrow> 0 \<le> e \<and> e < 1440"
    using start finish given_time_bounds by blast+
  ultimately show ?thesis
    using f half assms(2) parse_months_bounds [OF months] parse_weekdays_bounds [OF days]
    by (simp add: wf_rule_iff encodable_strip)
qed

text \<open>The operations with the arguments the application gives them: a rule's new id is tidy, and so
  is the playlist id a rule is pointed at.\<close>

inductive operation :: "(rule list store \<Rightarrow> world \<Rightarrow> rule list store \<times> world) \<Rightarrow> bool" where
  op_add: "tidy_id fresh \<Longrightarrow> tidy_choice i \<Longrightarrow> operation (\<lambda>st w. snd (add env fresh a i n b at st w))"
| op_remove: "operation (\<lambda>st w. snd (remove env i st w))"
| op_remove_for_display: "operation (\<lambda>st w. snd (remove_for_display env c st w))"
| op_set_enabled: "operation (\<lambda>st w. snd (set_enabled env i b st w))"
| op_set_name: "operation (\<lambda>st w. snd (set_name env i n st w))"
| op_update: "operation (\<lambda>st w. snd (update env i a e st w))"
| op_copy: "tidy_id fresh \<Longrightarrow> tidy_choice j \<Longrightarrow> operation (\<lambda>st w. snd (copy env fresh i j st w))"
| op_move: "operation (\<lambda>st w. snd (move env i position st w))"
| op_move_relative: "operation (\<lambda>st w. snd (move_relative env i k st w))"
| op_forget: "operation (\<lambda>st w. snd (forget_playlist env p st w))"
| op_forget_where: "operation (\<lambda>st w. snd (forget_playlist_where env names st w))"
| op_retarget_where: "tidy_id p \<Longrightarrow> operation (\<lambda>st w. snd (retarget_where env names p st w))"
| op_retarget_many: "tidy_id p \<Longrightarrow> operation (\<lambda>st w. snd (retarget_many env refs p st w))"
| op_adopt_retarget: "\<forall>q p. retargeted q = Some p \<longrightarrow> tidy_id p \<Longrightarrow>
    operation (\<lambda>st w. (snd (adopt_worker_retarget retargeted st), w))"
| op_adopt_forget: "operation (\<lambda>st w. (snd (adopt_worker_forget_playlists removed st), w))"

lemma safe_add: "tidy_id fresh \<Longrightarrow> tidy_choice i \<Longrightarrow> safe_op (add env fresh a i n b at)"
  unfolding add_def
  by (rule safe_checked, rule safe_mutate, rule append_rule_sound, erule new_rule_wf)
    (auto simp: tidy_id_def tidy_choice_def)

lemma safe_remove: "safe_op (remove env i)"
  unfolding remove_def by (rule safe_mutate [OF remove_rule_sound])

lemma safe_remove_for_display: "safe_op (remove_for_display env c)"
  unfolding remove_for_display_def by (rule safe_checked, rule safe_mutate [OF remove_display_rules_sound])

lemma safe_set_enabled: "safe_op (set_enabled env i b)"
  unfolding set_enabled_def
  by (rule safe_mutate [OF change_rule_sound]) (simp add: wf_rule_iff)

lemma safe_set_name: "safe_op (set_name env i n)"
  unfolding set_name_def
  by (rule safe_checked, rule safe_mutate [OF change_rule_sound])
    (auto simp: wf_rule_iff dest: tidy_name_idem)

lemma safe_update: "safe_op (update env i a e)"
  unfolding update_def by (rule safe_checked, rule safe_mutate [OF change_rule_sound], rule edited_rule_wf)

lemma safe_copy: "tidy_id fresh \<Longrightarrow> tidy_choice j \<Longrightarrow> safe_op (copy env fresh i j)"
  unfolding copy_def
  by (rule safe_mutate [OF copy_rule_sound]) (auto simp: tidy_id_def tidy_choice_def split: option.splits)

lemma safe_move: "safe_op (move env i position)"
  unfolding move_def by (rule safe_mutate [OF move_rule_sound])

lemma safe_move_relative: "safe_op (move_relative env i k)"
  unfolding move_relative_def by (rule safe_mutate [OF move_rule_relative_sound])

lemma safe_forget: "safe_op (forget_playlist env p)"
  unfolding forget_playlist_def by (rule safe_mutate [OF drop_flag_sound])

lemma safe_forget_where: "safe_op (forget_playlist_where env names)"
  unfolding forget_playlist_where_def by (rule safe_mutate [OF drop_rules_sound])

lemma safe_retarget:
  "tidy_id p \<Longrightarrow> safe_op (retarget_where env names p)"
  "tidy_id p \<Longrightarrow> safe_op (retarget_many env refs p)"
  unfolding retarget_where_def retarget_many_def
  by (rule safe_checked, rule safe_mutate [OF point_rules_sound]; simp add: tidy_id_def)+

lemmas safe_ops = safe_add safe_remove safe_remove_for_display safe_set_enabled safe_set_name
  safe_update safe_copy safe_move safe_move_relative safe_forget safe_forget_where safe_retarget

lemma adopt_wf:
  assumes "wf_rules (st_value st)"
  shows "\<forall>q p. retargeted q = Some p \<longrightarrow> tidy_id p \<Longrightarrow>
      wf_rules (st_value (snd (adopt_worker_retarget retargeted st)))"
    and "wf_rules (st_value (snd (adopt_worker_forget_playlists removed st)))"
proof -
  assume "\<forall>q p. retargeted q = Some p \<longrightarrow> tidy_id p"
  then have "wf_rule (case retargeted (rule_playlist r) of None \<Rightarrow> r | Some p \<Rightarrow> r\<lparr>rule_playlist := p\<rparr>)"
    if "r \<in> set (st_value st)" for r
    using wf_rules_members [OF assms that] by (simp add: wf_rule_iff tidy_id_def split: option.split)
  then show "wf_rules (st_value (snd (adopt_worker_retarget retargeted st)))"
    unfolding adopt_worker_retarget_def
    by (auto intro!: wf_rules_map [OF assms] split: option.split)
qed (use assms in \<open>simp add: adopt_worker_forget_playlists_def Let_def wf_rules_filter\<close>)

lemma safe_op_snd: "safe_op f \<Longrightarrow> snd (f st w) = (st1, w1) \<Longrightarrow>
    (wf_rules (st_value st) \<longrightarrow> wf_rules (st_value st1)) \<and> keeps_bytes w w1"
  unfolding safe_op_def by (metis prod.collapse)

lemma operation_safe:
  "operation f \<Longrightarrow> \<forall>st w st1 w1. f st w = (st1, w1) \<longrightarrow>
     (wf_rules (st_value st) \<longrightarrow> wf_rules (st_value st1)) \<and> keeps_bytes w w1"
proof (induction rule: operation.induct)
  case (op_adopt_retarget retargeted)
  then show ?case using adopt_wf(1) by (auto simp: keeps_bytes_def)
next
  case (op_adopt_forget removed)
  then show ?case using adopt_wf(2) by (auto simp: keeps_bytes_def)
qed (blast dest: safe_ops [THEN safe_op_snd])+

text \<open>C5: No operation takes away a schedule file it could not read in full: the file is still
  there, or it is kept under another name. A file saved by a newer version, or one that could not
  be read at all, is never written, moved or deleted. And what a store holds stays well formed.\<close>

theorem operation_keeps_files:
  assumes "operation f" and "f st w = (st1, w1)" and "read_schedule (w_node w) = Inr r"
  shows "(r_fault r \<noteq> None \<longrightarrow> w_node w1 = w_node w \<or> w_node w \<in> set (w_backups w1)) \<and>
    (r_newer r \<or> read_failed (r_fault r) \<longrightarrow> w1 = w) \<and>
    set (w_backups w) \<subseteq> set (w_backups w1) \<and>
    (wf_rules (st_value st) \<longrightarrow> wf_rules (st_value st1))"
proof -
  have "(wf_rules (st_value st) \<longrightarrow> wf_rules (st_value st1)) \<and> keeps_bytes w w1"
    using operation_safe [OF assms(1)] assms(2) by blast
  then show ?thesis unfolding keeps_bytes_def assms(3) by auto
qed

text \<open>A file whose only rule names no playlist: adding a rule moves it aside first.\<close>

definition damaged_world :: world where
  "damaged_world = holding [(lit ''version'', JInt 3), (lit ''rules'', JArr [JObj [(lit ''id'', JStr (lit ''x''))]])]"

theorem operation_keeps_files_witness:
  "\<exists>f st1 w1. operation f \<and> f opened_empty damaged_world = (st1, w1) \<and>
     w_node damaged_world \<in> set (w_backups w1) \<and> map rule_id (st_value st1) = [lit ''c'']"
proof -
  let ?a = "\<lparr>a_playlist = lit ''day'', a_months = [], a_weekdays = [], a_start = [], a_end = [], a_connector = []\<rparr>"
  let ?f = "\<lambda>st w. snd (add calm (lit ''c'') ?a None None True None st w)"
  have op: "operation ?f" by (rule op_add; code_simp)
  obtain st1 w1 where run: "?f opened_empty damaged_world = (st1, w1)" by (meson surj_pair)
  obtain r where r: "read_schedule (w_node damaged_world) = Inr r"
    using schedule.read_wf by (cases "read_schedule (w_node damaged_world)") (auto, code_simp)
  have "(case read_schedule (w_node damaged_world) of Inr r \<Rightarrow> r_fault r \<noteq> None | Inl _ \<Rightarrow> False)"
    by code_simp
  with r have "r_fault r \<noteq> None" by simp
  moreover have "w_node (snd (?f opened_empty damaged_world)) \<noteq> w_node damaged_world"
    "map rule_id (st_value (fst (?f opened_empty damaged_world))) = [lit ''c'']"
    by code_simp+
  ultimately show ?thesis using operation_keeps_files [OF op run r] op run by auto
qed

text \<open>
  The whole system: any number of processes with a store of their own, each running operations,
  opening the file or copying another's store, and any program writing anything to the file.
\<close>

inductive system_step ::
  "(nat \<Rightarrow> rule list store) \<times> world \<Rightarrow> (nat \<Rightarrow> rule list store) \<times> world \<Rightarrow> bool"
where
  ran: "operation f \<Longrightarrow> f (sts p) w = (st1, w1) \<Longrightarrow> system_step (sts, w) (sts(p := st1), w1)"
| opened: "open_store schedule_ops w = Inr st \<Longrightarrow> system_step (sts, w) (sts(p := st), w)"
| copied: "worker_copy schedule_ops rebase (sts p) w = Inr st \<Longrightarrow> system_step (sts, w) (sts(q := st), w)"
| edited: "system_step (sts, w) (sts, w\<lparr>w_node := n\<rparr>)"

inductive_cases system_stepE: "system_step s s'"

lemma open_store_wf: "open_store schedule_ops w = Inr st \<Longrightarrow> wf_rules (st_value st)"
  by (auto simp: open_store_def split: sum.splits dest: read_schedule_wf)

lemma system_step_wf:
  "system_step s s' \<Longrightarrow> \<forall>p. wf_rules (st_value (fst s p)) \<Longrightarrow>
     (\<forall>p. wf_rules (st_value (fst s' p))) \<and> set (w_backups (snd s)) \<subseteq> set (w_backups (snd s'))"
proof (induction rule: system_step.induct)
  case (ran f sts p w st1 w1)
  then show ?case using operation_safe [OF ran(1)] by (auto simp: keeps_bytes_def)
next
  case (opened w st sts p)
  then show ?case using open_store_wf by auto
next
  case (copied rebase sts p w st q)
  then show ?case using open_store_wf by (auto simp: worker_copy_def split: if_splits)
qed simp

text \<open>C16: In every state the system can reach from well-formed stores, whatever was written to the
  file from outside, every store's rules are well formed: distinct ids, at most 512 rules, times
  and days in range. No file moved aside is ever lost.\<close>

theorem system_invariant:
  assumes "system_step\<^sup>*\<^sup>* (sts, w) (sts', w')" and "\<forall>p. wf_rules (st_value (sts p))"
  shows "(\<forall>p. wf_rules (st_value (sts' p))) \<and> set (w_backups w) \<subseteq> set (w_backups w')"
proof -
  have "(\<forall>p. wf_rules (st_value (fst s p))) \<and> set (w_backups w) \<subseteq> set (w_backups (snd s))"
    if "system_step\<^sup>*\<^sup>* (sts, w) s" for s
    using that assms(2)
  proof (induction rule: rtranclp_induct)
    case (step s t)
    then show ?case using system_step_wf [OF step(2)] by blast
  qed simp
  from this [OF assms(1)] show ?thesis by simp
qed

theorem system_invariant_witness:
  "\<exists>sts'. system_step\<^sup>*\<^sup>* ((\<lambda>_. opened_empty), sample_world) (sts', damaged_world) \<and>
     wf_rules (st_value (sts' 0)) \<and> map rule_id (st_value (sts' 0)) = [lit ''b'', lit ''a'']"
proof -
  obtain st where st: "open_store schedule_ops sample_world = Inr st" "st_value st = [always, nights]"
    by (simp add: open_store_def sample_read)
  let ?sts = "(\<lambda>_ :: nat. opened_empty)(0 := st)"
  have "system_step ((\<lambda>_. opened_empty), sample_world) (?sts, sample_world)"
    by (rule opened [OF st(1)])
  moreover have "damaged_world = sample_world\<lparr>w_node := w_node damaged_world\<rparr>"
    by (simp add: damaged_world_def sample_world_def holding_def)
  then have "system_step (?sts, sample_world) (?sts, damaged_world)"
    using edited [of ?sts sample_world "w_node damaged_world"] by simp
  ultimately have run: "system_step\<^sup>*\<^sup>* ((\<lambda>_. opened_empty), sample_world) (?sts, damaged_world)"
    by (meson converse_rtranclp_into_rtranclp r_into_rtranclp)
  have "\<forall>p. wf_rules (st_value (?sts p))"
    by (rule conjunct1 [OF system_invariant [OF run]]) (simp add: opened_empty_def wf_rules_def)
  then have "wf_rules (st_value (?sts 0))" by (rule spec)
  with run st(2) show ?thesis
    by (intro exI [of _ ?sts]) (simp add: always_def nights_def)
qed

end
