(* ===== verification/Schedule_Guarantees.thy ===== *)
theory Schedule_Guarantees
  imports Schedule_System
begin

text \<open>
  What the schedule store promises across processes and versions: concurrent edits serialize, the
  fields a newer version or a person added come back, and where the code falls short of its own
  words.
\<close>

section \<open>Processes that share the file\<close>

text \<open>C3: However the turns of several processes at the lock interleave, and whatever each still
  holds in memory, the file ends up as if the changes that succeeded had run one after the other
  on one list: no process overwrites another's edit.\<close>

theorem schedule_edits_serialize:
  assumes "run_jobs schedule_ops jobs sts w = (results, sts', w')"
    and "read_schedule (w_node w) = Inr r" and "r_fault r = None" and "\<not> r_newer r"
    and "\<forall>p. st_loaded (sts p) \<and> wf_rules (st_value (sts p))"
    and "\<forall>j\<in>set jobs. sound_change (job_change j)"
  shows "\<exists>r'. read_schedule (w_node w') = Inr r' \<and> r_fault r' = None \<and> \<not> r_newer r' \<and>
    r_value r' = serial_value jobs results (r_value r)"
proof -
  have "schedule.holds_value w (r_value r)"
    using assms(2-4) by (auto simp: schedule.holds_value_def)
  from schedule.jobs_serialize [OF assms(1) this assms(5)] assms(6) show ?thesis
    by (auto simp: schedule.holds_value_def sound_change_def schedule.keeps_clean_def)
qed

text \<open>The window adds a rule while the helper, which last read an empty file, copies one and a third
  process is refused the lock.\<close>

definition sample_jobs :: "(rule list, rule) job list" where
  "sample_jobs =
     [\<lparr>job_process = 0, job_env = calm, job_refuse = False,
       job_change = append_rule (always\<lparr>rule_id := lit ''c''\<rparr>) None\<rparr>,
      \<lparr>job_process = 1, job_env = calm\<lparr>e_lock := False\<rparr>, job_refuse = False,
       job_change = move_rule (lit ''a'') 0\<rparr>,
      \<lparr>job_process = 2, job_env = calm, job_refuse = False,
       job_change = copy_rule (lit ''c'') (lit ''d'')\<rparr>]"

theorem schedule_edits_serialize_witness:
  "\<exists>results sts' w' r'. run_jobs schedule_ops sample_jobs (\<lambda>_. opened_empty) sample_world = (results, sts', w') \<and>
     map is_ok results = [True, False, True] \<and> read_schedule (w_node w') = Inr r' \<and>
     r_value r' = [always, nights, always\<lparr>rule_id := lit ''c''\<rparr>, always\<lparr>rule_id := lit ''d''\<rparr>]"
proof -
  let ?run = "run_jobs schedule_ops sample_jobs (\<lambda>_. opened_empty) sample_world"
  obtain results sts' w' where run: "?run = (results, sts', w')" by (metis prod_cases3)
  have "map is_ok (fst ?run) = [True, False, True]"
    "serial_value sample_jobs (fst ?run) [always, nights] =
       [always, nights, always\<lparr>rule_id := lit ''c''\<rparr>, always\<lparr>rule_id := lit ''d''\<rparr>]"
    by code_simp+
  moreover have "wf_rule (always\<lparr>rule_id := lit ''c''\<rparr>)" "strip (lit ''d'') = lit ''d''"
    "lit ''d'' \<noteq> []" "encodable (lit ''d'')"
    by code_simp+
  then have "\<forall>j\<in>set sample_jobs. sound_change (job_change j)"
    by (simp add: sample_jobs_def append_rule_sound move_rule_sound copy_rule_sound)
  moreover have "st_loaded opened_empty \<and> wf_rules (st_value opened_empty)"
    by (simp add: opened_empty_def wf_rules_def)
  ultimately show ?thesis
    using schedule_edits_serialize [OF run sample_read] run by fastforce
qed

section \<open>Fields this build does not model\<close>

text \<open>The record of the document that holds the rule with an id.\<close>

definition stored_record :: "node \<Rightarrow> pystr \<Rightarrow> dict option" where
  "stored_record n i =
     (case n of
        Regular _ (Decoded (JObj d)) \<Rightarrow>
          (case map_of d (lit ''rules'') of
             Some (JArr xs) \<Rightarrow> first_record rule_shape xs i
           | _ \<Rightarrow> None)
      | _ \<Rightarrow> None)"

definition stored_field :: "node \<Rightarrow> pystr \<Rightarrow> json option" where
  "stored_field n k = (case n of Regular _ (Decoded (JObj d)) \<Rightarrow> map_of d k | _ \<Rightarrow> None)"

lemma read_schedule_unknown:
  assumes "read_schedule n = Inr r" and "n = Regular bytes (Decoded (JObj d))" and "r_fault r = None"
  shows "r_unknown r = capture_unknown schedule_shape d"
  using assms by (auto simp: read_schedule_def read_object_def decode_content_def Let_def and_then_Inr
      split: option.splits if_splits)

lemma identity_rule: "identity_of rule_shape (rule_to_json r) = Some (strip (rule_id r))"
  by (simp add: identity_of_def rule_shape_def rule_to_json_lookup)

lemma rule_shape_in_schedule: "map_of (records schedule_shape) (lit ''rules'') = Some rule_shape"
  by (simp add: schedule_shape_def)

text \<open>What one written rule carries: its own keys, and what the old record of its id had beside.\<close>

definition written_record :: "json list \<Rightarrow> rule \<Rightarrow> dict" where
  "written_record olds q =
     (case first_record rule_shape olds (rule_id q) of
        None \<Rightarrow> rule_to_json q
      | Some r0 \<Rightarrow> merge_unknown (capture_unknown rule_shape r0) rule_shape (rule_to_json q))"

lemma schedule_document_rules:
  assumes "wf_rules rs" and "schedule_document rs (capture_unknown schedule_shape old) = Inr d"
    and "map_of old (lit ''rules'') = Some (JArr olds)"
  shows "map_of d (lit ''rules'') = Some (JArr (map (\<lambda>q. JObj (written_record olds q)) rs))"
proof -
  have plain: "map_of (plain_schedule rs) (lit ''rules'') = Some (JArr (map (\<lambda>q. JObj (rule_to_json q)) rs))"
    by (simp add: plain_schedule_def)
  have dist: "distinct (map fst (records schedule_shape))" by (simp add: schedule_shape_def)
  have ids: "strip (rule_id q) = rule_id q" if "q \<in> set rs" for q
    using that assms(1) wf_rules_members by (auto simp: wf_rule_iff)
  have "d = merge_unknown (capture_unknown schedule_shape old) schedule_shape (plain_schedule rs)"
    using assms(2) by (simp add: schedule_document_def plain_schedule_def)
  with merge_captured_records [OF schedule_shape_flat dist rule_shape_in_schedule assms(3) plain] show ?thesis
    by (auto simp: identity_rule ids written_record_def split: option.split)
qed

lemma rule_shape_flat: "no_objects rule_shape"
  by (simp add: rule_shape_def)

lemma first_written_record:
  assumes "list_all wf_rule rs" and "distinct (map rule_id rs)" and "q \<in> set rs"
  shows "first_record rule_shape (map (\<lambda>q. JObj (written_record olds q)) rs) (rule_id q) =
    Some (written_record olds q)"
proof -
  have idw: "identity_of rule_shape (written_record olds p) = Some (rule_id p)" if "wf_rule p" for p
  proof -
    have k: "models rule_shape (lit ''id'')" by (simp add: models_def rule_shape_def)
    have "map_of (project rule_shape (written_record olds p)) (lit ''id'') =
        map_of (project rule_shape (rule_to_json p)) (lit ''id'')"
      using project_merge(1) [OF rule_shape_flat]
      by (simp add: written_record_def split: option.split)
    then have "map_of (written_record olds p) (lit ''id'') = Some (JStr (rule_id p))"
      by (simp add: project_rule_keys rule_to_json_lookup)
    then show ?thesis using that by (simp add: identity_of_def rule_shape_def wf_rule_iff)
  qed
  show ?thesis using assms by (induction rs) (auto simp: idw)
qed

text \<open>C4: When an operation saves a file it read in full, every top-level field this build does not
  model comes back unchanged, and every rule still in the list keeps every unmodelled field the
  file's first record of its id had, whatever was edited, moved or renamed.\<close>

theorem schedule_keeps_unknown_fields:
  assumes "mutate_rules env refuse change st w = (Inr x, st1, w1)" and "sound_change change"
    and "wf_rules (st_value st)" and "w_node w = Regular bytes (Decoded (JObj old))"
    and "read_schedule (w_node w) = Inr r" and "r_fault r = None"
  shows "(\<not> models schedule_shape k \<longrightarrow> stored_field (w_node w1) k = map_of old k) \<and>
    (\<not> models rule_shape k \<longrightarrow> q \<in> set (st_value st1) \<longrightarrow> stored_record (w_node w) (rule_id q) = Some r0 \<longrightarrow>
       (\<exists>r1. stored_record (w_node w1) (rule_id q) = Some r1 \<and> map_of r1 k = map_of r0 k))"
  using assms(1) [unfolded mutate_rules_def]
proof (cases rule: transact_cases)
  case (unchanged r' y v)
  then show ?thesis by (simp add: assms(4) stored_field_def)
next
  case (saved r' y v)
  with assms(4,5) have r': "r' = r" by simp
  have u: "r_unknown r = capture_unknown schedule_shape old"
    using read_schedule_unknown [OF assms(5,4,6)] .
  from persist_ok [OF saved(9)] obtain d where
    d: "schedule_document v (capture_unknown schedule_shape old) = Inr d"
    and n: "w_node w1 = Regular (rendered_size (JObj d)) (Decoded (JObj d))"
    by (auto simp: r' u)
  have v: "wf_rules v" "st_value st1 = v" using mutate_wf [OF assms(1-3)] saved(2) by auto
  have "stored_field (w_node w1) k = map_of old k" if "\<not> models schedule_shape k"
  proof -
    have "map_of (plain_schedule v) k = None"
      using that by (simp add: plain_schedule_def models_def schedule_shape_def)
    moreover have "d = merge_unknown (capture_unknown schedule_shape old) schedule_shape (plain_schedule v)"
      using d by (simp add: schedule_document_def plain_schedule_def)
    ultimately show ?thesis
      using merge_captured_field [OF that] by (simp add: stored_field_def n)
  qed
  moreover have "\<exists>r1. stored_record (w_node w1) (rule_id q) = Some r1 \<and> map_of r1 k = map_of r0 k"
    if k: "\<not> models rule_shape k" and q: "q \<in> set v" and o: "stored_record (w_node w) (rule_id q) = Some r0"
  proof -
    from o obtain olds where olds: "map_of old (lit ''rules'') = Some (JArr olds)"
      "first_record rule_shape olds (rule_id q) = Some r0"
      by (auto simp: stored_record_def assms(4) split: option.splits json.splits)
    have "stored_record (w_node w1) (rule_id q) = Some (written_record olds q)"
      using schedule_document_rules [OF v(1) d olds(1)] first_written_record v(1) q
      by (simp add: stored_record_def n wf_rules_def)
    moreover have "map_of (rule_to_json q) k = None"
      using k by (auto simp: rule_to_json_def models_def rule_shape_def map_of_append map_add_def
          split: option.splits)
    then have "map_of (written_record olds q) k = map_of r0 k"
      using olds(2) merge_captured_field [OF k] by (simp add: written_record_def)
    ultimately show ?thesis by blast
  qed
  ultimately show ?thesis using v(2) by blast
qed auto

text \<open>A file with a comment of its owner's and a colour a newer version gave a rule.\<close>

definition coloured :: dict where
  "coloured = [(lit ''id'', JStr (lit '' a '')), (lit ''color'', JStr (lit ''blue'')), (lit ''playlist'', JStr (lit ''night''))]"

definition annotated :: dict where
  "annotated = [(lit ''note'', JStr (lit ''mine'')), (lit ''version'', JInt 2), (lit ''rules'', JArr [JObj coloured])]"

theorem schedule_keeps_unknown_fields_witness:
  "\<exists>x st1 w1 r1. mutate_rules calm False (change_rule (lit ''a'') (\<lambda>r. r\<lparr>rule_enabled := False\<rparr>))
       opened_empty (holding annotated) = (Inr x, st1, w1) \<and>
     stored_field (w_node w1) (lit ''note'') = Some (JStr (lit ''mine'')) \<and>
     stored_record (w_node w1) (lit ''a'') = Some r1 \<and> map_of r1 (lit ''color'') = Some (JStr (lit ''blue'')) \<and>
     map rule_enabled (st_value st1) = [False]"
proof -
  let ?change = "change_rule (lit ''a'') (\<lambda>r. r\<lparr>rule_enabled := False\<rparr>)"
  let ?run = "mutate_rules calm False ?change opened_empty (holding annotated)"
  obtain res st1 w1 where run: "?run = (res, st1, w1)" by (metis prod_cases3)
  have ok: "is_ok (fst ?run)" "map rule_enabled (st_value (fst (snd ?run))) = [False]"
    "map rule_id (st_value (fst (snd ?run))) = [lit ''a'']"
    by code_simp+
  with run obtain x where x: "res = Inr x" by (cases res) auto
  from ok(3) run obtain q where q: "q \<in> set (st_value st1)" "rule_id q = lit ''a''" by auto
  have read: "case read_schedule (w_node (holding annotated)) of Inr r \<Rightarrow> r_fault r = None | Inl _ \<Rightarrow> False"
    by code_simp
  then obtain r where r: "read_schedule (w_node (holding annotated)) = Inr r" "r_fault r = None"
    by (auto split: sum.splits)
  have o: "wf_rules (st_value opened_empty)" by (simp add: opened_empty_def wf_rules_def)
  have s: "sound_change ?change" by (rule change_rule_sound) (simp add: wf_rule_iff)
  have n: "w_node (holding annotated) = Regular 1 (Decoded (JObj annotated))" by (simp add: holding_def)
  have old: "stored_record (w_node (holding annotated)) (rule_id q) = Some coloured"
    unfolding q(2) by code_simp
  have m: "\<not> models schedule_shape (lit ''note'')" "\<not> models rule_shape (lit ''color'')"
    by code_simp+
  note keeps = schedule_keeps_unknown_fields [OF run [unfolded x] s o n r]
  have "stored_field (w_node w1) (lit ''note'') = Some (JStr (lit ''mine''))"
    using keeps [THEN conjunct1, rule_format, OF m(1)] by (simp add: annotated_def)
  moreover from keeps [THEN conjunct2, rule_format, OF m(2) q(1) old] obtain r1 where
    "stored_record (w_node w1) (lit ''a'') = Some r1" "map_of r1 (lit ''color'') = Some (JStr (lit ''blue''))"
    by (auto simp: q(2) coloured_def)
  ultimately show ?thesis using run x ok(2) by auto
qed

section \<open>Adding a rule\<close>

text \<open>A rule added without a position goes last, so it is in force at once at every time it
  matches, and everywhere else the schedule is as it was; with a position it lands there, clamped
  to the list. The list stays within its cap and no id is taken twice.\<close>

theorem add_takes_effect:
  assumes "add env fresh a chosen name enabled at st w = (Inr made, st1, w1)"
    and "read_schedule (w_node w) = Inr r" and "st_loaded st"
  shows "length (st_value st1) = Suc (length (r_value r)) \<and> length (st_value st1) \<le> MAX_RULES \<and>
    rule_id made \<notin> rule_id ` set (r_value r) \<and>
    (case at of
       Some i \<Rightarrow> remove_at (clamp (length (r_value r)) i) (st_value st1) = r_value r \<and>
         st_value st1 ! clamp (length (r_value r)) i = made
     | None \<Rightarrow> in_force (st_value st1) t c =
         (if matches made t c then Some (rule_playlist made) else in_force (r_value r) t c))"
proof -
  from checked_ok [OF assms(1) [unfolded add_def]] obtain q where
    run: "mutate_rules env False (append_rule q at) st w = (Inr made, st1, w1)" by blast
  obtain b where v: "append_rule q at (r_value r) = Inr (made, b, st_value st1)"
    using mutate_rebases [OF run assms(2,3)] .
  then have room: "length (r_value r) < MAX_RULES" "rule_id made \<notin> rule_id ` set (r_value r)"
    and st1: "st_value st1 = (case at of None \<Rightarrow> r_value r @ [made]
      | Some i \<Rightarrow> insert_at (clamp (length (r_value r)) i) made (r_value r))"
    by (auto simp: append_rule_def list_ex_iff split: if_splits)
  show ?thesis
    using room unfolding st1
    by (auto simp: in_force_def resolve_rule_append remove_insert_at nth_insert_at split: option.split)
qed

definition evening :: rule_args where
  "evening = \<lparr>a_playlist = lit '' dusk '', a_months = [], a_weekdays = [lit ''Thursday''], a_start = lit ''20:00'',
     a_end = lit ''2:00'', a_connector = []\<rparr>"

theorem add_takes_effect_witness:
  "\<exists>made st1 w1. add calm (lit ''c'') evening None None True None opened_empty sample_world = (Inr made, st1, w1) \<and>
     in_force (st_value st1) new_year [] = Some (lit ''dusk'') \<and> length (st_value st1) = 3"
proof -
  let ?run = "add calm (lit ''c'') evening None None True None opened_empty sample_world"
  obtain res st1 w1 where run: "?run = (res, st1, w1)" by (metis prod_cases3)
  have "case fst ?run of Inr q \<Rightarrow> matches q new_year [] \<and> rule_playlist q = lit ''dusk'' | Inl _ \<Rightarrow> False"
    by code_simp
  with run obtain made where made: "res = Inr made" "matches made new_year []" "rule_playlist made = lit ''dusk''"
    by (cases res) auto
  have "st_loaded opened_empty" by (simp add: opened_empty_def)
  from add_takes_effect [OF run [unfolded made(1)] sample_read this, of new_year "[]"] made run
  show ?thesis by simp
qed

section \<open>The listing\<close>

lemma last_match_resolve:
  "last_match rs at c = (case resolve_rule rs at c None of None \<Rightarrow> [] | Some r \<Rightarrow> rule_id r)"
proof -
  have "foldl (\<lambda>found r. if matches r at c then rule_id r else found) (case ch of None \<Rightarrow> [] | Some r \<Rightarrow> rule_id r) rs =
      (case resolve_rule rs at c ch of None \<Rightarrow> [] | Some r \<Rightarrow> rule_id r)" for ch
  proof (induction rs arbitrary: ch)
    case (Cons q rs)
    from Cons [of "if matches q at c then Some q else ch"] show ?case by (cases "matches q at c") simp_all
  qed simp
  from this [of None] show ?thesis by (simp add: last_match_def)
qed

lemma last_match_winner:
  assumes "wf_rules rs" and "q \<in> set rs" and "resolve (filter P rs) at c = Inr winner"
  shows "rule_id q = last_match (filter P rs) at c \<and> winner \<noteq> [] \<longleftrightarrow>
    resolve_rule (filter P rs) at c None = Some q"
proof -
  from assms(3) have w: "winner = (case resolve_rule (filter P rs) at c None of None \<Rightarrow> [] | Some r \<Rightarrow> rule_playlist r)"
    by (auto simp: resolve_def split: sum.splits dest: clean_connector_id)
  show ?thesis
  proof (cases "resolve_rule (filter P rs) at c None")
    case None
    with w show ?thesis by simp
  next
    case (Some r)
    then have r: "r \<in> set rs" by (auto dest: resolve_rule_member)
    then have "winner \<noteq> []" using w Some wf_rules_members [OF assms(1)] by (auto simp: wf_rule_iff)
    moreover have "rule_id q = rule_id r \<longleftrightarrow> q = r"
      using assms(1,2) r by (auto simp: wf_rules_def distinct_map inj_on_def)
    ultimately show ?thesis using Some by (auto simp: last_match_resolve)
  qed
qed

text \<open>The listing has two header lines and then a line for every rule, in order, and marks as
  in force exactly the rule \<open>resolve\<close> picks among those not omitted, so at most one, and none when
  the schedule falls through to the default.\<close>

theorem describe_marks_winner:
  assumes "describe rs active at names c omitted = Inr rows" and "wf_rules rs"
  shows "drop 2 rows = map (\<lambda>r. describe_row names
    (resolve_rule (filter (\<lambda>r. rule_id r \<notin> set omitted) rs) at c None = Some r) r) rs"
proof -
  let ?applying = "filter (\<lambda>r. rule_id r \<notin> set omitted) rs"
  from assms(1) obtain winner where w: "resolve ?applying at c = Inr winner"
    and rows: "drop 2 rows = map (\<lambda>r. describe_row names
      (rule_id r = last_match ?applying at c \<and> winner \<noteq> []) r) rs"
    by (auto simp: describe_def Let_def and_then_Inr)
  show ?thesis unfolding rows using last_match_winner [OF assms(2) _ w] by simp
qed

theorem describe_marks_winner_witness:
  "\<exists>rows. describe [always, nights] [] new_year Map.empty [] [] = Inr rows \<and>
     drop 2 rows = [describe_row Map.empty False always, describe_row Map.empty True nights]"
proof -
  have "is_ok (describe [always, nights] [] new_year Map.empty [] [])" by code_simp
  then obtain rows where rows: "describe [always, nights] [] new_year Map.empty [] [] = Inr rows"
    by (cases "describe [always, nights] [] new_year Map.empty [] []") auto
  have "resolve_rule [always, nights] new_year [] None = Some nights" by code_simp
  moreover have "always \<noteq> nights" by (simp add: always_def nights_def)
  ultimately show ?thesis using describe_marks_winner [OF rows sample_wf] rows by simp
qed

section \<open>Where the code falls short of its words\<close>

lemma parse_time_raises:
  "parse_time s = Inl ValueErr \<Longrightarrow>
     \<exists>hours minutes. partition_colon (strip s) = Some (hours, minutes) \<and> isdigit hours \<and> isdigit minutes \<and>
       (int_of_digits hours = None \<or> int_of_digits minutes = None)"
  by (auto simp: parse_time_def split: option.splits if_splits)

lemma parse_weekdays_error: "parse_weekdays ns = Inl e \<Longrightarrow> e = Err InvalidDay"
proof (induction ns)
  case (Cons n ns)
  then show ?case by (cases "parse_weekdays ns") (auto split: option.splits)
qed simp

lemma parse_months_error: "parse_months vs = Inl e \<Longrightarrow> e = Err InvalidMonth"
proof (induction vs)
  case (Cons v vs)
  then show ?case by (cases "parse_months vs") (auto split: option.splits if_splits)
qed simp

lemma clean_connector_error: "clean_connector c = Inl e \<Longrightarrow> e = Err InvalidConnector"
  by (auto simp: clean_connector_def split: if_splits)

lemma stored_time_raises:
  "stored_time v = Inl ValueErr \<Longrightarrow> \<exists>s. v = Some (JStr s) \<and> parse_time s = Inl ValueErr"
  by (auto simp: stored_time_def map_sum_def split: option.splits json.splits sum.splits)

lemma and_then_Inl: "and_then r f = Inl e \<longleftrightarrow> r = Inl e \<or> (\<exists>x. r = Inr x \<and> f x = Inl e)"
  by (cases r) auto

lemma rule_from_fields_raises:
  assumes "rule_from_fields d i p c = Inl ValueErr"
  shows "\<exists>k\<in>{lit ''start'', lit ''end''}. \<exists>s. map_of d k = Some (JStr s) \<and> parse_time s = Inl ValueErr"
proof -
  from assms have "stored_time (map_of d (lit ''start'')) = Inl ValueErr \<or>
      stored_time (map_of d (lit ''end'')) = Inl ValueErr"
    unfolding rule_from_fields_def and_then_Inl Let_def
    by (auto split: if_splits dest: parse_weekdays_error parse_months_error clean_connector_error
        simp: and_then_Inl)
  then show ?thesis using stored_time_raises by blast
qed

lemma scheduled_raises: "scheduled x = Inl e \<Longrightarrow> x = Inl ValueErr \<and> e = ValueErr"
  by (auto simp: scheduled_def split: sum.splits exn.splits)

lemma rule_of_dict_raises:
  assumes "rule_of_dict d = Inl e"
  shows "e = ValueErr \<and>
    (\<exists>k\<in>{lit ''start'', lit ''end''}. \<exists>s. map_of d k = Some (JStr s) \<and> parse_time s = Inl ValueErr)"
proof -
  from assms obtain i p c where "scheduled (rule_from_fields d i p c) = Inl e"
    unfolding rule_of_dict_def by (simp split: option.splits json.splits if_splits)
  from scheduled_raises [OF this] rule_from_fields_raises show ?thesis by blast
qed

lemma parse_rules_raises:
  "parse_rules seen xs = Inl e \<Longrightarrow> \<exists>d. JObj d \<in> set xs \<and> rule_of_dict d = Inl e"
proof (induction xs arbitrary: seen)
  case (Cons j xs)
  show ?case
  proof (cases "rule_of_json j")
    case (Inl e')
    with Cons.prems show ?thesis by (cases j) (auto simp: rule_of_json_def)
  next
    case (Inr found)
    with Cons.prems have "\<exists>seen. parse_rules seen xs = Inl e"
      by (auto simp: and_then_Inl Let_def split: option.splits if_splits)
    with Cons.IH show ?thesis by auto
  qed
qed simp

text \<open>C19: \<open>load\<close>, documented to never raise, can raise nothing but a \<open>ValueError\<close>, and only for a
  record whose start or end is a text with a colon between parts that \<open>str.isdigit\<close> takes for digits,
  one of which \<open>int\<close> does not read: a superscript digit, or more than 4300 of them.\<close>

theorem load_raises_only:
  assumes "read_schedule n = Inl e"
  shows "e = ValueErr \<and> (\<exists>bytes d xs raw k s hours minutes.
    n = Regular bytes (Decoded (JObj d)) \<and> map_of d (lit ''rules'') = Some (JArr xs) \<and>
    JObj raw \<in> set xs \<and> k \<in> {lit ''start'', lit ''end''} \<and> map_of raw k = Some (JStr s) \<and>
    partition_colon (strip s) = Some (hours, minutes) \<and> isdigit hours \<and> isdigit minutes \<and>
    (int_of_digits hours = None \<or> int_of_digits minutes = None))"
proof -
  obtain p f where ro: "read_object MAX_SCHEDULE_BYTES n = (p, f)" by (meson surj_pair)
  with assms obtain d where p: "p = Some d" and e: "parse_schedule d = Inl e"
    by (auto simp: read_schedule_def and_then_Inl Let_def split: option.splits)
  from read_object_Some ro p obtain bytes where n: "n = Regular bytes (Decoded (JObj d))" by blast
  from e obtain xs where xs: "map_of d (lit ''rules'') = Some (JArr xs)"
    "parse_rules [] (take MAX_RULES xs) = Inl e"
    by (auto simp: parse_schedule_def and_then_Inl Let_def split: option.splits json.splits)
  from parse_rules_raises [OF xs(2)] obtain raw where raw: "JObj raw \<in> set xs" "rule_of_dict raw = Inl e"
    by (auto dest: in_set_takeD)
  from rule_of_dict_raises [OF raw(2)] obtain k s where ks: "e = ValueErr"
    "k \<in> {lit ''start'', lit ''end''}" "map_of raw k = Some (JStr s)" "parse_time s = Inl ValueErr"
    by blast
  from parse_time_raises [OF ks(4)] obtain hours minutes where
    "partition_colon (strip s) = Some (hours, minutes)" "isdigit hours" "isdigit minutes"
    "int_of_digits hours = None \<or> int_of_digits minutes = None" by blast
  with n xs(1) raw(1) ks(1-3) show ?thesis by (intro conjI exI) assumption+
qed

definition superscript :: node where
  "superscript = Regular 1 (Decoded (JObj [(lit ''version'', JInt 3), (lit ''rules'', JArr [JObj
     [(lit ''id'', JStr (lit ''a'')), (lit ''playlist'', JStr (lit ''p'')),
      (lit ''start'', JStr (178 # lit '':00'')), (lit ''end'', JStr (lit ''06:00''))]])]))"

theorem load_raises_only_witness: "\<exists>e. read_schedule superscript = Inl e \<and> e = ValueErr"
proof -
  have "\<not> is_ok (read_schedule superscript)" by code_simp
  then obtain e where "read_schedule superscript = Inl e"
    by (cases "read_schedule superscript") auto
  with load_raises_only [OF this] show ?thesis by blast
qed

text \<open>An explicit id is kept as it is given, though the reader strips it: the rule the store holds is
  not the rule the file reads back as.\<close>

lemma add_untidy_id:
  "case add calm (lit ''c'') evening (Some (lit '' x '')) None True None opened_empty sample_world of
     (_, st1, w1) \<Rightarrow> map rule_id (st_value st1) = [lit ''b'', lit ''a'', lit '' x ''] \<and>
       map_sum id (\<lambda>r. map rule_id (r_value r)) (read_schedule (w_node w1)) =
         Inr [lit ''b'', lit ''a'', lit ''x'']"
  by code_simp

end
