(* ===== verification/Schedule_Model.thy ===== *)
theory Schedule_Model
  imports Schedule_Precedence "HOL-Library.List_Lexorder"
begin

text \<open>
  \<open>ui/next/schedule_model.py\<close>: the words, the time windows a drag may create and the calendar
  projection of the Schedule page. A \<open>RuleView\<close> has exactly the fields of a \<open>Rule\<close> and is one here.
  Where the code compares objects by identity (\<open>is\<close>, \<open>id\<close>), a view comes with the number of the
  object that holds it. \<open>applies\<close> is the adapter's \<open>rule_applies\<close>, which asks \<open>Rule.matches\<close>.
\<close>

type_synonym view = "nat \<times> rule"
type_synonym applies = "rule \<Rightarrow> datetime \<Rightarrow> pystr \<Rightarrow> bool"

section \<open>Time\<close>

definition hhmm :: "int \<Rightarrow> pystr" where
  "hhmm v = pad2 (v div 60) @ lit '':'' @ pad2 (v mod 60)"

definition has_window :: "rule \<Rightarrow> bool" where
  "has_window r =
     (case (rule_start r, rule_end r) of (Some s, Some e) \<Rightarrow> s \<noteq> e | _ \<Rightarrow> False)"

definition wraps :: "rule \<Rightarrow> bool" where
  "wraps r =
     (case (rule_start r, rule_end r) of (Some s, Some e) \<Rightarrow> has_window r \<and> s > e | _ \<Rightarrow> False)"

definition week_start :: "date \<Rightarrow> date" where
  "week_start day = day - weekday day"

datatype window_complaint = HalfWindow | OutsideDay | SameTime

definition window_problem :: "int option \<Rightarrow> int option \<Rightarrow> window_complaint option" where
  "window_problem start finish =
     (case (start, finish) of
        (None, None) \<Rightarrow> None
      | (Some s, Some e) \<Rightarrow>
          (if \<not> (0 \<le> s \<and> s < 1440 \<and> 0 \<le> e \<and> e < 1440) then Some OutsideDay
           else if s = e then Some SameTime else None)
      | _ \<Rightarrow> Some HalfWindow)"

definition window_from_drag :: "int \<Rightarrow> int \<Rightarrow> (int option \<times> int option) option" where
  "window_from_drag start finish =
     (if \<not> (0 \<le> start \<and> start < finish \<and> finish \<le> 1440) then None
      else if start = 0 \<and> finish = 1440 then Some (None, None)
      else Some (Some start, Some (finish mod 1440)))"

section \<open>The list's order\<close>

definition shown_index :: "int \<Rightarrow> int \<Rightarrow> int" where
  "shown_index stored rows = rows - 1 - stored"

definition stored_index :: "int \<Rightarrow> int \<Rightarrow> int" where
  "stored_index shown rows = rows - 1 - shown"

definition stored_step :: "int \<Rightarrow> int \<Rightarrow> int" where
  "stored_step shown_from shown_to = shown_from - shown_to"

section \<open>Words\<close>

definition DAYS :: "pystr list" where
  "DAYS = map lit [''Mon'', ''Tue'', ''Wed'', ''Thu'', ''Fri'', ''Sat'', ''Sun'']"

definition MONTHS :: "pystr list" where
  "MONTHS = map lit [''Jan'', ''Feb'', ''Mar'', ''Apr'', ''May'', ''Jun'', ''Jul'', ''Aug'', ''Sep'',
     ''Oct'', ''Nov'', ''Dec'']"

definition MONTHS_LONG :: "pystr list" where
  "MONTHS_LONG = map lit [''January'', ''February'', ''March'', ''April'', ''May'', ''June'',
     ''July'', ''August'', ''September'', ''October'', ''November'', ''December'']"

text \<open>The loop that grows the last run or starts a new one.\<close>

definition extend_runs :: "int \<Rightarrow> int list list \<Rightarrow> int \<Rightarrow> int list list" where
  "extend_runs cycle runs v =
     (if v = (last (last runs) + 1) mod cycle
      then butlast runs @ [last runs @ [v]] else runs @ [[v]])"

definition runs_from :: "int list \<Rightarrow> int \<Rightarrow> int list" where
  "runs_from chosen cycle =
     (let start = (case find (\<lambda>v. (v - 1) mod cycle \<notin> set chosen) chosen of
                     Some v \<Rightarrow> v | None \<Rightarrow> hd chosen)
      in filter (\<lambda>v. v \<ge> start) chosen @ filter (\<lambda>v. v < start) chosen)"

definition runs :: "int list \<Rightarrow> int \<Rightarrow> int \<Rightarrow> int list list" where
  "runs values cycle first =
     (let chosen = sorted_list_of_set (set (map (\<lambda>v. v - first) values))
      in if chosen = [] then []
         else let ordered = runs_from chosen cycle
              in map (map (\<lambda>v. v + first))
                   (foldl (extend_runs cycle) [[hd ordered]] (tl ordered)))"

definition days_text :: "int set \<Rightarrow> pystr" where
  "days_text days =
     (let chosen = sorted_list_of_set days
      in if chosen = [] \<or> length chosen = 7 then lit ''Every day''
         else if length chosen = 1 then DAYS ! nat (hd chosen)
         else join (lit '', '') (concat (map (\<lambda>run.
           if 2 \<le> length run \<and> \<not> (length run = 2 \<and> 3 < length chosen)
           then [DAYS ! nat (hd run) @ [8211] @ DAYS ! nat (last run)]
           else map (\<lambda>v. DAYS ! nat v) run) (runs chosen 7 0))))"

definition months_text :: "int set \<Rightarrow> pystr" where
  "months_text months =
     (let chosen = sorted_list_of_set months
      in if chosen = [] \<or> length chosen = 12 then lit ''All year''
         else if length chosen = 1 then MONTHS_LONG ! nat (hd chosen - 1)
         else join (lit '', '') (concat (map (\<lambda>run.
           if 3 \<le> length run
           then [MONTHS ! nat (hd run - 1) @ [8211] @ MONTHS ! nat (last run - 1)]
           else map (\<lambda>v. MONTHS ! nat (v - 1)) run) (runs chosen 12 1))))"

definition time_text :: "rule \<Rightarrow> bool \<Rightarrow> pystr" where
  "time_text r overnight =
     (case (rule_start r, rule_end r) of
        (Some s, Some e) \<Rightarrow>
          (if \<not> has_window r then lit ''All day''
           else hhmm s @ [8211] @ hhmm e @ (if overnight \<and> wraps r then lit '' (overnight)'' else []))
      | _ \<Rightarrow> lit ''All day'')"

definition summary :: "rule \<Rightarrow> bool \<Rightarrow> bool \<Rightarrow> pystr" where
  "summary r display overnight =
     join [32, 183, 32]
       ((if has_window r then [days_text (rule_weekdays r), time_text r overnight]
         else if rule_weekdays r \<noteq> {} then [days_text (rule_weekdays r), lit ''All day'']
         else [if rule_months r \<noteq> {} then lit ''All day'' else lit ''Always'']) @
        (if rule_months r \<noteq> {} then [months_text (rule_months r)] else []) @
        (if display \<and> rule_connector r \<noteq> [] then [rule_connector r] else []))"

section \<open>Colours\<close>

definition PALETTE :: "pystr list" where
  "PALETTE = map lit [''#3584e4'', ''#3a944a'', ''#9141ac'', ''#c88800'', ''#2190a4'', ''#d56199'',
     ''#ed5b00'', ''#e62d42'']"

definition FALLBACK_COLOR :: pystr where "FALLBACK_COLOR = lit ''#6f8396''"

fun playlist_colors_from :: "nat \<Rightarrow> (pystr \<times> pystr) list \<Rightarrow> (pystr \<times> bool) list \<Rightarrow> (pystr \<times> pystr) list" where
  "playlist_colors_from index colors [] = colors"
| "playlist_colors_from index colors ((pid, automatic) # rest) =
     (if automatic
      then playlist_colors_from index (AList.update pid FALLBACK_COLOR colors) rest
      else playlist_colors_from (Suc index)
             (AList.update pid (PALETTE ! (index mod length PALETTE)) colors) rest)"

definition playlist_colors :: "(pystr \<times> bool) list \<Rightarrow> (pystr \<times> pystr) list" where
  "playlist_colors playlists = playlist_colors_from 0 [] playlists"

section \<open>Spans\<close>

record span =
  span_day :: nat
  span_start :: int
  span_end :: int
  span_rule :: "view option"
  span_losers :: "view list"

record display_exception =
  exc_day :: nat
  exc_start :: int
  exc_end :: int
  exc_rule :: view
  exc_wins :: bool
  exc_over :: "view option"

definition at_minute_of :: "date \<Rightarrow> int \<Rightarrow> datetime" where
  "at_minute_of day m = \<lparr>at_day = day, at_hour = m div 60, at_minute = m mod 60\<rparr>"

definition window_ends :: "rule \<Rightarrow> int list" where
  "window_ends r =
     (case (rule_start r, rule_end r) of
        (Some s, Some e) \<Rightarrow> (if has_window r then [s, e] else [])
      | _ \<Rightarrow> [])"

definition breakpoints :: "view list \<Rightarrow> int list" where
  "breakpoints rules =
     sorted_list_of_set (set ([0, 1440] @ concat (map (\<lambda>v. window_ends (snd v)) rules)))"

definition pairwise :: "'a list \<Rightarrow> ('a \<times> 'a) list" where
  "pairwise xs = zip xs (tl xs)"

definition may_apply_on :: "rule \<Rightarrow> date \<Rightarrow> bool" where
  "may_apply_on r day =
     (rule_enabled r \<and>
      list_ex (\<lambda>d. (rule_months r = {} \<or> month d \<in> rule_months r) \<and>
                   (rule_weekdays r = {} \<or> weekday d \<in> rule_weekdays r))
        (if wraps r then [day, day - 1] else [day]))"

definition same_object :: "view option \<Rightarrow> view option \<Rightarrow> bool" where
  "same_object a b = (map_option fst a = map_option fst b)"

definition merge_step :: "span list \<Rightarrow> span \<Rightarrow> span list" where
  "merge_step merged s =
     (if merged \<noteq> [] \<and> same_object (span_rule (last merged)) (span_rule s) \<and>
         span_end (last merged) = span_start s \<and>
         map fst (span_losers (last merged)) = map fst (span_losers s)
      then butlast merged @ [(last merged)\<lparr>span_end := span_end s\<rparr>]
      else merged @ [s])"

definition merge_spans :: "span list \<Rightarrow> span list" where
  "merge_spans spans = foldl merge_step [] spans"

definition last_option :: "'a list \<Rightarrow> 'a option" where
  "last_option xs = (if xs = [] then None else Some (last xs))"

definition day_spans :: "view list \<Rightarrow> date \<Rightarrow> nat \<Rightarrow> pystr \<Rightarrow> applies \<Rightarrow> span list" where
  "day_spans rules day column connector applies =
     (let candidates = filter (\<lambda>(i, r). may_apply_on r day) rules
      in merge_spans (map (\<lambda>(start, finish).
           let matching = filter (\<lambda>(i, r). applies r (at_minute_of day start) connector) candidates
           in \<lparr>span_day = column, span_start = start, span_end = finish,
               span_rule = last_option matching, span_losers = butlast matching\<rparr>)
         (pairwise (breakpoints candidates))))"

definition week_spans :: "view list \<Rightarrow> date \<Rightarrow> pystr \<Rightarrow> applies \<Rightarrow> span list list" where
  "week_spans rules monday connector applies =
     map (\<lambda>column. day_spans rules (monday + int column) column connector applies) [0..<7]"

text \<open>The inner loop of \<open>week_exceptions\<close>: a piece is drawn out while it goes on winning or losing.\<close>

definition extend_pieces ::
  "nat \<Rightarrow> view list \<Rightarrow> date \<Rightarrow> applies \<Rightarrow> view \<Rightarrow> display_exception list \<Rightarrow> int \<times> int \<Rightarrow> display_exception list"
where
  "extend_pieces column candidates day applies v pieces = (\<lambda>(start, finish).
     let at = at_minute_of day start; connector = rule_connector (snd v)
     in if \<not> applies (snd v) at connector then pieces
        else
          let matching = filter (\<lambda>(i, r). applies r at connector) candidates;
              wins = (fst (last matching) = fst v);
              over = (if wins \<and> 1 < length matching then Some (last (butlast matching)) else None)
          in if pieces \<noteq> [] \<and> exc_end (last pieces) = start \<and> exc_wins (last pieces) = wins
             then butlast pieces @ [(last pieces)\<lparr>exc_end := finish\<rparr>]
             else pieces @ [\<lparr>exc_day = column, exc_start = start, exc_end = finish, exc_rule = v,
                             exc_wins = wins, exc_over = over\<rparr>])"

definition day_exceptions :: "view list \<Rightarrow> date \<Rightarrow> nat \<Rightarrow> applies \<Rightarrow> display_exception list" where
  "day_exceptions rules day column applies =
     (let targeted = filter (\<lambda>(i, r). rule_connector r \<noteq> [] \<and> rule_enabled r) rules;
          today = filter (\<lambda>(i, r). may_apply_on r day) targeted;
          candidates = filter (\<lambda>(i, r). may_apply_on r day) rules
      in concat (map (\<lambda>v. foldl (extend_pieces column candidates day applies v) []
           (pairwise (breakpoints candidates))) today))"

definition week_exceptions :: "view list \<Rightarrow> date \<Rightarrow> applies \<Rightarrow> display_exception list" where
  "week_exceptions rules monday applies =
     concat (map (\<lambda>column. day_exceptions rules (monday + int column) column applies) [0..<7])"

definition week_months :: "date \<Rightarrow> int set" where
  "week_months monday = set (map (\<lambda>offset. month (monday + int offset)) [0..<7])"

definition seasonal_off :: "rule list \<Rightarrow> date \<Rightarrow> rule list" where
  "seasonal_off rules monday =
     filter (\<lambda>r. rule_enabled r \<and> rule_months r \<noteq> {} \<and> week_months monday \<inter> rule_months r = {}) rules"

definition next_week_for :: "rule \<Rightarrow> date \<Rightarrow> date" where
  "next_week_for r monday =
     (case find (\<lambda>k. list_ex (\<lambda>offset. month (monday + 7 * int k + int offset) \<in> rule_months r) [0..<7]) [0..<60] of
        Some k \<Rightarrow> monday + 7 * int k
      | None \<Rightarrow> monday)"

definition targets :: "view list \<Rightarrow> pystr list \<Rightarrow> pystr list" where
  "targets rules connectors =
     ([] # connectors) @
     sorted_list_of_set (set (map (\<lambda>(i, r). rule_connector r) (filter (\<lambda>(i, r). rule_connector r \<noteq> []) rules))
       - set ([] # connectors))"

definition target_spans :: "view list \<Rightarrow> date \<Rightarrow> pystr list \<Rightarrow> applies \<Rightarrow> span list" where
  "target_spans rules monday connectors applies =
     concat (map (\<lambda>connector. concat (week_spans rules monday connector applies)) (targets rules connectors))"

definition never_winning :: "view list \<Rightarrow> date \<Rightarrow> pystr list \<Rightarrow> applies \<Rightarrow> pystr set" where
  "never_winning rules monday connectors applies =
     (let spans = target_spans rules monday connectors applies;
          winners = concat (map (\<lambda>s. case span_rule s of None \<Rightarrow> [] | Some v \<Rightarrow> [fst v]) spans);
          losers = concat (map (\<lambda>s. map fst (span_losers s)) spans)
      in set (map (\<lambda>(i, r). rule_id r)
           (filter (\<lambda>(i, r). rule_enabled r \<and> i \<in> set losers \<and> i \<notin> set winners) rules)))"

text \<open>\<open>overlaps\<close>. \<open>fresh\<close> is the identity of the copy \<open>replace\<close> makes.\<close>

definition overlap_step ::
  "view list \<Rightarrow> view \<Rightarrow> nat \<Rightarrow> (pystr \<Rightarrow> pystr) \<Rightarrow> pystr list \<times> pystr list \<Rightarrow> view \<Rightarrow> pystr list \<times> pystr list"
where
  "overlap_step listing probe index name_of found other =
     (case found of (beats, beaten) \<Rightarrow>
       if fst other = fst probe \<or> rule_playlist (snd other) = rule_playlist (snd probe) then found
       else
         let name = name_of (rule_playlist (snd other));
             position = the (find_index (\<lambda>v. fst v = fst other) listing)
         in if position < index
            then (if name \<in> set beats then beats else beats @ [name], beaten)
            else (beats, if name \<in> set beaten then beaten else beaten @ [name]))"

definition overlaps ::
  "nat \<Rightarrow> view list \<Rightarrow> view \<Rightarrow> date \<Rightarrow> (pystr \<Rightarrow> pystr) \<Rightarrow> applies \<Rightarrow> pystr list \<times> pystr list"
where
  "overlaps fresh rules v monday name_of applies =
     (let week = (if rule_months (snd v) \<noteq> {} \<and> seasonal_off [snd v] monday \<noteq> []
                  then next_week_for (snd v) monday else monday);
          probe = (fresh, (snd v)\<lparr>rule_enabled := True\<rparr>);
          replaced = map (\<lambda>other. if fst other = fst v then probe else other) rules;
          listing = (if list_ex (\<lambda>other. fst other = fresh) replaced then replaced else replaced @ [probe]);
          index = the (find_index (\<lambda>other. fst other = fresh) listing)
      in foldl (\<lambda>found s.
           let active = (case span_rule s of None \<Rightarrow> [] | Some w \<Rightarrow> [w]) @ span_losers s
           in if list_ex (\<lambda>other. fst other = fresh) active
              then foldl (overlap_step listing probe index name_of) found active else found)
         ([], []) (concat (week_spans listing week (rule_connector (snd v)) applies)))"

definition coverage :: "nat \<Rightarrow> rule \<Rightarrow> applies \<Rightarrow> (int \<times> int) list list" where
  "coverage fresh r applies =
     (let probe = (fresh, r\<lparr>rule_months := {}, rule_connector := [], rule_enabled := True\<rparr>)
      in map (\<lambda>column.
           map (\<lambda>s. (span_start s, span_end s))
             (filter (\<lambda>s. case span_rule s of Some w \<Rightarrow> fst w = fresh | None \<Rightarrow> False)
                (day_spans [probe] (739887 + int column) column [] applies))) [0..<7])"

section \<open>Why a rule does or does not decide\<close>

datatype reason_kind = Playing | Overridden | Idle | Off

definition reason ::
  "rule \<Rightarrow> datetime \<Rightarrow> pystr \<Rightarrow> pystr option \<Rightarrow> applies \<Rightarrow> bool \<Rightarrow> pystr \<times> reason_kind"
where
  "reason r at connector winner applies mirrored =
     (if mirrored \<and> rule_connector r \<noteq> [] then (lit ''Only while displays run separately'', Off)
      else if \<not> rule_enabled r then (lit ''Off'', Off)
      else if rule_id r \<noteq> [] \<and> Some (rule_id r) = winner then (lit ''Playing'', Playing)
      else if rule_connector r \<noteq> [] \<and> connector \<noteq> rule_connector r
        then (rule_connector r @ lit '' only'', Idle)
      else if applies r at connector then (lit ''Overridden'', Overridden)
      else
        let minute = minute_of_day at;
            (inside, tail) =
              (case (rule_start r, rule_end r) of
                 (Some s, Some e) \<Rightarrow>
                   (if \<not> has_window r then (True, False)
                    else if s < e then (s \<le> minute \<and> minute < e, False)
                    else (s \<le> minute \<or> minute < e, minute < e))
               | _ \<Rightarrow> (True, False));
            calendar = (if tail then at_day at - 1 else at_day at)
        in if rule_months r \<noteq> {} \<and> month calendar \<notin> rule_months r
             then (months_text (rule_months r) @ lit '' only'', Idle)
           else if rule_weekdays r \<noteq> {} \<and> weekday calendar \<notin> rule_weekdays r
             then (days_text (rule_weekdays r) @ lit '' only'', Idle)
           else case (rule_start r, rule_end r) of
             (Some s, Some e) \<Rightarrow>
               (if inside then (lit ''Not now'', Idle)
                else if minute < s then (lit ''Starts '' @ hhmm s, Idle)
                else (lit ''Ended '' @ hhmm e, Idle))
           | _ \<Rightarrow> (lit ''Not now'', Idle))"

section \<open>A draft on its way to the store\<close>

text \<open>\<open>stored_rule\<close>, \<open>store_arguments\<close> and \<open>draft_problem\<close> of \<open>ui/next/real_schedule.py\<close>.\<close>

definition stored_rule :: "rule \<Rightarrow> rule" where
  "stored_rule v = v\<lparr>rule_id := (if rule_id v = [] then lit ''draft'' else rule_id v)\<rparr>"

definition rule_applies :: applies where
  "rule_applies v at connector = matches (stored_rule v) at connector"

definition store_arguments :: "rule \<Rightarrow> rule_args" where
  "store_arguments v =
     (let times = (case (rule_start v, rule_end v) of
                     (Some s, Some e) \<Rightarrow> (format_time s, format_time e) | _ \<Rightarrow> ([], []))
      in \<lparr>a_playlist = rule_playlist v,
          a_months = map JInt (sorted_list_of_set (rule_months v)),
          a_weekdays = map (\<lambda>d. weekday_names ! nat d) (sorted_list_of_set (rule_weekdays v)),
          a_start = fst times, a_end = snd times, a_connector = rule_connector v\<rparr>)"

datatype draft_complaint = NeedsPlaylist | NotAWeekday | NotAMonth | BadWindow window_complaint

definition draft_problem :: "rule \<Rightarrow> draft_complaint option" where
  "draft_problem v =
     (if rule_playlist v = [] then Some NeedsPlaylist
      else if \<not> rule_weekdays v \<subseteq> set [0..6] then Some NotAWeekday
      else if \<not> rule_months v \<subseteq> set [1..12] then Some NotAMonth
      else map_option BadWindow (window_problem (rule_start v) (rule_end v)))"

end
