(* ===== verification/Calendar_Projection.thy ===== *)
theory Calendar_Projection
  imports Schedule_Model
begin

text \<open>
  The Schedule page tells the truth: the calendar it projects from a few samples agrees with the
  matching rules at every minute, and the windows and drafts it makes mean what was drawn.
\<close>

section \<open>Spans that cover a day\<close>

fun chain :: "int \<Rightarrow> span list \<Rightarrow> int \<Rightarrow> bool" where
  "chain a [] b \<longleftrightarrow> a = b"
| "chain a (s # ss) b \<longleftrightarrow> span_start s = a \<and> a < span_end s \<and> chain (span_end s) ss b"

lemma chain_append: "chain a (xs @ ys) c \<longleftrightarrow> (\<exists>b. chain a xs b \<and> chain b ys c)"
  by (induction xs arbitrary: a) auto

lemma chain_le: "chain a ss b \<Longrightarrow> a \<le> b"
  by (induction ss arbitrary: a) force+

lemma chain_covers: "chain a ss b \<Longrightarrow> a \<le> m \<Longrightarrow> m < b \<Longrightarrow> \<exists>s\<in>set ss. span_start s \<le> m \<and> m < span_end s"
proof (induction ss arbitrary: a)
  case (Cons s ss)
  then show ?case by (cases "m < span_end s") auto
qed simp

lemma chain_bounds: "chain a ss b \<Longrightarrow> s \<in> set ss \<Longrightarrow> a \<le> span_start s \<and> span_start s < span_end s \<and> span_end s \<le> b"
proof (induction ss arbitrary: a)
  case (Cons t ss)
  then show ?case using chain_le [of "span_end t" ss b] by (fastforce dest: Cons.IH)
qed simp

text \<open>What one span says, and that it says it of every minute it covers.\<close>

definition says :: "view list \<Rightarrow> (int \<Rightarrow> view option \<times> view list) \<Rightarrow> span \<Rightarrow> bool" where
  "says rules f s \<longleftrightarrow> set_option (span_rule s) \<subseteq> set rules \<and> set (span_losers s) \<subseteq> set rules \<and>
     (\<forall>m. span_start s \<le> m \<longrightarrow> m < span_end s \<longrightarrow> (span_rule s, span_losers s) = f m)"

lemma same_objects:
  assumes "distinct (map fst rules)"
  shows "set xs \<subseteq> set rules \<Longrightarrow> set ys \<subseteq> set rules \<Longrightarrow> map fst xs = map fst ys \<Longrightarrow> xs = ys"
    and "set_option a \<subseteq> set rules \<Longrightarrow> set_option b \<subseteq> set rules \<Longrightarrow> same_object a b \<Longrightarrow> a = b"
proof -
  have inj: "inj_on fst (set rules)" using assms by (simp add: distinct_map)
  show "set xs \<subseteq> set rules \<Longrightarrow> set ys \<subseteq> set rules \<Longrightarrow> map fst xs = map fst ys \<Longrightarrow> xs = ys"
    using inj by (auto intro: map_inj_on [of fst xs ys] inj_on_subset)
  show "set_option a \<subseteq> set rules \<Longrightarrow> set_option b \<subseteq> set rules \<Longrightarrow> same_object a b \<Longrightarrow> a = b"
    using inj by (cases a; cases b) (auto simp: same_object_def inj_on_def)
qed

lemma merge_step_says:
  assumes d: "distinct (map fst rules)" and "\<forall>t\<in>set merged. says rules f t" and s: "says rules f s"
    and c: "chain a merged b" "span_start s = b" "b < span_end s"
  shows "(\<forall>t\<in>set (merge_step merged s). says rules f t) \<and> chain a (merge_step merged s) (span_end s)"
proof (cases "merged \<noteq> [] \<and> same_object (span_rule (last merged)) (span_rule s) \<and>
    span_end (last merged) = span_start s \<and> map fst (span_losers (last merged)) = map fst (span_losers s)")
  case True
  then obtain ts t where m: "merged = ts @ [t]" by (cases merged rule: rev_cases) auto
  from True m have same: "same_object (span_rule t) (span_rule s)" "span_end t = span_start s"
    "map fst (span_losers t) = map fst (span_losers s)" by auto
  have t: "says rules f t" using assms(2) m by simp
  have eq: "span_rule t = span_rule s" "span_losers t = span_losers s"
    using same_objects [OF d] t s same by (auto simp: says_def)
  have "says rules f (t\<lparr>span_end := span_end s\<rparr>)"
    unfolding says_def
  proof (intro conjI allI impI)
    fix x assume "span_start (t\<lparr>span_end := span_end s\<rparr>) \<le> x" "x < span_end (t\<lparr>span_end := span_end s\<rparr>)"
    then have "span_start t \<le> x" "x < span_end s" by simp_all
    then show "(span_rule (t\<lparr>span_end := span_end s\<rparr>), span_losers (t\<lparr>span_end := span_end s\<rparr>)) = f x"
      using t s same(2) eq by (cases "x < span_end t") (auto simp: says_def)
  qed (use t in \<open>simp_all add: says_def\<close>)
  moreover have "merge_step merged s = ts @ [t\<lparr>span_end := span_end s\<rparr>]"
    using True by (simp add: merge_step_def m)
  moreover have "chain a (ts @ [t\<lparr>span_end := span_end s\<rparr>]) (span_end s)"
    using c m by (auto simp: chain_append)
  ultimately show ?thesis using assms(2) m by simp
next
  case False
  then have "merge_step merged s = merged @ [s]" by (simp only: merge_step_def if_False)
  then show ?thesis using assms by (auto simp: chain_append)
qed

lemma merge_spans_says:
  assumes d: "distinct (map fst rules)" and "\<forall>t\<in>set merged. says rules f t" "\<forall>s\<in>set ss. says rules f s"
    and "chain a merged b" "chain b ss c"
  shows "(\<forall>t\<in>set (foldl merge_step merged ss). says rules f t) \<and> chain a (foldl merge_step merged ss) c"
  using assms(2-)
proof (induction ss arbitrary: merged b)
  case (Cons s ss)
  have "(\<forall>t\<in>set (merge_step merged s). says rules f t) \<and> chain a (merge_step merged s) (span_end s)"
    using Cons.prems by (intro merge_step_says [OF d]) auto
  with Cons.IH [of "merge_step merged s" "span_end s"] Cons.prems show ?case by simp
qed simp

section \<open>Breakpoints\<close>

lemma breakpoints_set: "set (breakpoints rules) =
    {0, 1440} \<union> {m. \<exists>v\<in>set rules. has_window (snd v) \<and> (rule_start (snd v) = Some m \<or> rule_end (snd v) = Some m)}"
proof -
  have one: "set (window_ends r) = {m. has_window r \<and> (rule_start r = Some m \<or> rule_end r = Some m)}" for r
    by (auto simp: window_ends_def has_window_def split: option.splits)
  show ?thesis
    unfolding breakpoints_def set_sorted_list_of_set [OF finite_set] by (auto simp: one)
qed

lemma breakpoints_sorted: "sorted_wrt (<) (breakpoints rules)"
  unfolding breakpoints_def by (rule strict_sorted_list_of_set)

lemma breakpoints_range:
  assumes "\<forall>v\<in>set rules. time_ok (rule_start (snd v)) \<and> time_ok (rule_end (snd v))"
  shows "set (breakpoints rules) \<subseteq> {0..1440}"
  using assms unfolding breakpoints_set by (force simp: time_ok_iff)

lemma pairwise_Cons: "pairwise (a # b # xs) = (a, b) # pairwise (b # xs)"
  by (simp add: pairwise_def)

lemma pairwise_short [simp]: "pairwise [] = []" "pairwise [a] = []"
  by (simp_all add: pairwise_def)

lemma pairwise_gap:
  "sorted_wrt (<) xs \<Longrightarrow> (a, b) \<in> set (pairwise xs) \<Longrightarrow>
     a < b \<and> a \<in> set xs \<and> b \<in> set xs \<and> (\<forall>x\<in>set xs. x \<le> (a :: int) \<or> b \<le> x)"
proof (induction xs)
  case (Cons x xs)
  show ?case
  proof (cases xs)
    case (Cons y ys)
    with Cons.prems Cons.IH show ?thesis by (force simp: pairwise_Cons)
  qed (use Cons.prems in simp)
qed simp

lemma pairwise_chain:
  assumes "sorted_wrt (<) (x # xs)" and "\<And>a b. span_start (f (a, b)) = a \<and> span_end (f (a, b)) = b"
  shows "chain x (map f (pairwise (x # xs))) (last (x # xs))"
  using assms(1)
proof (induction xs arbitrary: x)
  case (Cons y ys)
  then show ?case using assms(2) by (simp add: pairwise_Cons)
qed simp

lemma strict_sorted_ends:
  assumes "sorted_wrt (<) (xs :: int list)" "set xs \<subseteq> {a..b}" "a \<in> set xs" "b \<in> set xs"
  shows "xs \<noteq> [] \<and> hd xs = a \<and> last xs = b"
proof -
  have "xs \<noteq> []" using assms(3) by auto
  have "hd xs \<le> a" using assms(1,3) by (cases xs) auto
  moreover have "a \<le> hd xs" using assms(2) \<open>xs \<noteq> []\<close> by (meson atLeastAtMost_iff hd_in_set subset_iff)
  moreover obtain ys y where "xs = ys @ [y]" using \<open>xs \<noteq> []\<close> by (cases xs rule: rev_cases) auto
  then have "b \<le> last xs" using assms(1,4) by (auto simp: sorted_wrt_append)
  moreover have "last xs \<le> b" using assms(2) \<open>xs \<noteq> []\<close> by (meson atLeastAtMost_iff last_in_set subset_iff)
  ultimately show ?thesis using \<open>xs \<noteq> []\<close> by simp
qed

section \<open>No rule changes its mind between two breakpoints\<close>

lemma minute_of_at [simp]: "minute_of_day (at_minute_of day m) = m" "at_day (at_minute_of day m) = day"
  by (simp_all add: at_minute_of_def minute_of_day_def)

lemma matches_constant:
  assumes "a \<le> m" and "\<forall>x. has_window r \<longrightarrow> (rule_start r = Some x \<or> rule_end r = Some x) \<longrightarrow> x \<le> a \<or> m < x"
  shows "matches r (at_minute_of day m) c = matches r (at_minute_of day a) c"
proof (cases "has_window r")
  case True
  then obtain s e where w: "rule_start r = Some s" "rule_end r = Some e" "s \<noteq> e"
    by (auto simp: has_window_def split: option.splits)
  with assms True have "s \<le> a \<or> m < s" "e \<le> a \<or> m < e" by auto
  with assms(1) w show ?thesis
    by (auto simp: matches_parts calendar_date_def within_def day_chosen_def)
next
  case False
  then show ?thesis
    by (auto simp: matches_parts calendar_date_def within_def has_window_def split: option.splits)
qed

lemma matches_may_apply: "matches r (at_minute_of day m) c \<Longrightarrow> may_apply_on r day"
  by (auto simp: matches_parts may_apply_on_def day_chosen_def calendar_date_def wraps_def has_window_def
      split: option.splits if_splits)

text \<open>Who matches at one minute: the winner, and the ones beaten from low to high.\<close>

definition deciding :: "view list \<Rightarrow> date \<Rightarrow> pystr \<Rightarrow> int \<Rightarrow> view list" where
  "deciding rules day c m = filter (\<lambda>v. matches (snd v) (at_minute_of day m) c) rules"

lemma deciding_candidates:
  "filter (\<lambda>(i, r). matches r (at_minute_of day m) c) (filter (\<lambda>(i, r). may_apply_on r day) rules) =
     deciding rules day c m"
  unfolding deciding_def filter_filter using matches_may_apply by (auto intro!: filter_cong [OF refl])

lemma last_option_set: "set_option (last_option xs) \<subseteq> set xs"
  by (simp add: last_option_def)

lemma set_butlast: "set (butlast xs) \<subseteq> set xs"
  by (auto dest: in_set_butlastD)

lemma day_spans_says:
  assumes times: "\<forall>v\<in>set rules. time_ok (rule_start (snd v)) \<and> time_ok (rule_end (snd v))"
    and d: "distinct (map fst rules)"
  shows "(\<forall>s\<in>set (day_spans rules day column c matches).
      says rules (\<lambda>m. (last_option (deciding rules day c m), butlast (deciding rules day c m))) s) \<and>
    chain 0 (day_spans rules day column c matches) 1440"
proof -
  let ?cs = "filter (\<lambda>(i, r). may_apply_on r day) rules"
  let ?f = "\<lambda>m. (last_option (deciding rules day c m), butlast (deciding rules day c m))"
  define mk where "mk = (\<lambda>(start, finish). \<lparr>span_day = column, span_start = start, span_end = finish,
      span_rule = last_option (deciding rules day c start),
      span_losers = butlast (deciding rules day c start)\<rparr>)"
  let ?bs = "breakpoints ?cs"
  have spans: "day_spans rules day column c matches = foldl merge_step [] (map mk (pairwise ?bs))"
    unfolding day_spans_def Let_def merge_spans_def mk_def deciding_candidates ..
  have ends: "?bs \<noteq> [] \<and> hd ?bs = 0 \<and> last ?bs = 1440"
    using times by (intro strict_sorted_ends breakpoints_sorted breakpoints_range) (auto simp: breakpoints_set)
  have parts: "span_start (mk (a, b)) = a \<and> span_end (mk (a, b)) = b" for a b by (simp add: mk_def)
  have bs: "?bs = 0 # tl ?bs" using ends by (metis list.collapse)
  have "chain 0 (map mk (pairwise (0 # tl ?bs))) (last (0 # tl ?bs))"
    using breakpoints_sorted [of ?cs] bs parts by (intro pairwise_chain) auto
  then have ch: "chain 0 (map mk (pairwise ?bs)) 1440" using bs ends by metis
  have "says rules ?f (mk (a, b))" if ab: "(a, b) \<in> set (pairwise ?bs)" for a b
  proof -
    have gap: "\<forall>x\<in>set ?bs. x \<le> a \<or> b \<le> x" using pairwise_gap [OF breakpoints_sorted ab] by blast
    have const: "deciding rules day c m = deciding rules day c a" if m: "a \<le> m" "m < b" for m
    proof -
      have "matches r (at_minute_of day m) c = matches r (at_minute_of day a) c"
        if r: "(i, r) \<in> set ?cs" for i r
      proof (rule matches_constant [OF m(1)], intro allI impI)
        fix x assume "has_window r" "rule_start r = Some x \<or> rule_end r = Some x"
        with r have "x \<in> set ?bs" unfolding breakpoints_set by force
        with gap m(2) show "x \<le> a \<or> m < x" by force
      qed
      then show ?thesis unfolding deciding_candidates [symmetric] by (auto intro!: filter_cong)
    qed
    have sub: "set (deciding rules day c a) \<subseteq> set rules" by (auto simp: deciding_def)
    have "set_option (last_option (deciding rules day c a)) \<subseteq> set rules"
      "set (butlast (deciding rules day c a)) \<subseteq> set rules"
      by (rule subset_trans [OF last_option_set sub], rule subset_trans [OF set_butlast sub])
    moreover have "?f a = ?f m" if "a \<le> m" "m < b" for m using const [OF that] by (simp only:)
    then have "\<forall>m. a \<le> m \<longrightarrow> m < b \<longrightarrow> ?f a = ?f m" by (intro allI impI)
    ultimately show ?thesis
      unfolding says_def mk_def by (simp only: span.simps prod.case simp_thms)
  qed
  then have "\<forall>s\<in>set (map mk (pairwise ?bs)). says rules ?f s" by auto
  with ch show ?thesis
    unfolding spans by (intro merge_spans_says [OF d, where b = 0]) simp_all
qed

text \<open>C15: The calendar of a day, worked out from one sample per stretch between breakpoints, is
  right at every minute: its spans follow one another without gap or overlap from 00:00 to 24:00, and
  each shows, at every minute it covers, exactly the rule that decides there and, from low to high,
  the rules it beats.\<close>

theorem day_spans_right:
  assumes "\<forall>v\<in>set rules. time_ok (rule_start (snd v)) \<and> time_ok (rule_end (snd v))"
    and "distinct (map fst rules)"
  shows "chain 0 (day_spans rules day column c matches) 1440 \<and>
    (\<forall>s\<in>set (day_spans rules day column c matches). \<forall>m. span_start s \<le> m \<longrightarrow> m < span_end s \<longrightarrow>
       span_losers s @ (case span_rule s of None \<Rightarrow> [] | Some v \<Rightarrow> [v]) =
         filter (\<lambda>v. matches (snd v) (at_minute_of day m) c) rules \<and>
       map_option snd (span_rule s) = resolve_rule (map snd rules) (at_minute_of day m) c None)"
proof (intro conjI ballI allI impI)
  note says = day_spans_says [OF assms, of day column c]
  show "chain 0 (day_spans rules day column c matches) 1440" using says by blast
  fix s m assume s: "s \<in> set (day_spans rules day column c matches)" "span_start s \<le> m" "m < span_end s"
  let ?d = "deciding rules day c m"
  have v: "span_rule s = last_option ?d" "span_losers s = butlast ?d"
    using says s unfolding says_def by blast+
  have d: "?d = filter (\<lambda>v. matches (snd v) (at_minute_of day m) c) rules"
    by (simp add: deciding_def)
  show "span_losers s @ (case span_rule s of None \<Rightarrow> [] | Some v \<Rightarrow> [v]) =
      filter (\<lambda>v. matches (snd v) (at_minute_of day m) c) rules"
    unfolding v d [symmetric] by (simp add: last_option_def)
  have "filter (\<lambda>r. matches r (at_minute_of day m) c) (map snd rules) = map snd ?d"
    by (simp add: d filter_map comp_def)
  then show "map_option snd (span_rule s) = resolve_rule (map snd rules) (at_minute_of day m) c None"
    unfolding v resolve_rule_last by (cases ?d) (simp_all add: last_option_def last_map)
qed

theorem day_spans_right_witness:
  "\<exists>s\<in>set (day_spans [(0, always), (1, nights)] 739982 4 [] matches).
     map_option snd (span_rule s) = Some nights \<and> span_start s \<le> 90 \<and> 90 < span_end s"
proof -
  let ?rules = "[(0, always), (1, nights)] :: view list"
  have t: "\<forall>v\<in>set ?rules. time_ok (rule_start (snd v)) \<and> time_ok (rule_end (snd v))" by code_simp
  note right = day_spans_right [OF t, of 739982 4 "[]", simplified]
  from chain_covers [of 0 _ 1440 90] right obtain s where
    s: "s \<in> set (day_spans ?rules 739982 4 [] matches)" "span_start s \<le> 90" "90 < span_end s" by force
  have "map_option snd (span_rule s) = resolve_rule (map snd ?rules) (at_minute_of 739982 90) [] None"
    using day_spans_right [OF t, of 739982 4 "[]"] s by simp
  then have "map_option snd (span_rule s) =
      resolve_rule [always, nights] (at_minute_of 739982 90) [] None" by (simp only: list.map snd_conv)
  moreover have "resolve_rule [always, nights] (at_minute_of 739982 90) [] None = Some nights" by code_simp
  ultimately show ?thesis using s by metis
qed

section \<open>Rules that never win\<close>

lemma spans_occur:
  assumes says: "\<forall>s\<in>set ss. says rules f s" and chain: "chain a ss b"
  shows "(\<exists>s\<in>set ss. P (span_rule s, span_losers s)) \<longleftrightarrow> (\<exists>m. a \<le> m \<and> m < b \<and> P (f m))"
proof
  assume "\<exists>s\<in>set ss. P (span_rule s, span_losers s)"
  then obtain s where s: "s \<in> set ss" "P (span_rule s, span_losers s)" by blast
  from chain_bounds [OF chain s(1)] says s show "\<exists>m. a \<le> m \<and> m < b \<and> P (f m)"
    unfolding says_def by (intro exI [of _ "span_start s"]) (metis order_refl order_less_le_trans)
next
  assume "\<exists>m. a \<le> m \<and> m < b \<and> P (f m)"
  then obtain m where m: "a \<le> m" "m < b" "P (f m)" by blast
  from chain_covers [OF chain m(1,2)] obtain s where "s \<in> set ss" "span_start s \<le> m" "m < span_end s" by blast
  with says m(3) show "\<exists>s\<in>set ss. P (span_rule s, span_losers s)" unfolding says_def by metis
qed

text \<open>At some minute of the week, on some target, \<open>P\<close> holds of the rules that match.\<close>

definition some_time :: "view list \<Rightarrow> date \<Rightarrow> pystr list \<Rightarrow> (view list \<Rightarrow> bool) \<Rightarrow> bool" where
  "some_time rules monday connectors P \<longleftrightarrow>
     (\<exists>c\<in>set (targets rules connectors). \<exists>column<7. \<exists>m. 0 \<le> m \<and> m < 1440 \<and>
        P (filter (\<lambda>v. matches (snd v) (at_minute_of (monday + int column) m) c) rules))"

lemma some_time_cong:
  "(\<And>ms. set ms \<subseteq> set rules \<Longrightarrow> P ms = Q ms) \<Longrightarrow>
     some_time rules monday connectors P = some_time rules monday connectors Q"
  unfolding some_time_def by simp

lemma target_spans_occur:
  assumes "\<forall>v\<in>set rules. time_ok (rule_start (snd v)) \<and> time_ok (rule_end (snd v))"
    and "distinct (map fst rules)"
  shows "(\<exists>s\<in>set (target_spans rules monday connectors matches). P (span_rule s, span_losers s)) \<longleftrightarrow>
    some_time rules monday connectors (\<lambda>ms. P (last_option ms, butlast ms))"
proof -
  have day: "(\<exists>s\<in>set (day_spans rules day column c matches). P (span_rule s, span_losers s)) \<longleftrightarrow>
      (\<exists>m. 0 \<le> m \<and> m < 1440 \<and> P (last_option (deciding rules day c m), butlast (deciding rules day c m)))"
    for day column c
    using day_spans_says [OF assms, of day column c] by (intro spans_occur) auto
  have occurs: "(\<exists>s\<in>set (target_spans rules monday connectors matches). Q s) \<longleftrightarrow>
      (\<exists>c\<in>set (targets rules connectors). \<exists>column<7.
         \<exists>s\<in>set (day_spans rules (monday + int column) column c matches). Q s)" for Q
    by (simp add: target_spans_def week_spans_def atLeast0LessThan) blast
  show ?thesis unfolding occurs day some_time_def deciding_def ..
qed

text \<open>C20: The page warns of exactly the rules that are switched on and apply at some minute of the
  week on some target, yet at no minute, on no target, decide.\<close>

theorem never_winning_exact:
  assumes "\<forall>v\<in>set rules. time_ok (rule_start (snd v)) \<and> time_ok (rule_end (snd v))"
    and "distinct (map fst rules)"
  shows "i \<in> never_winning rules monday connectors matches \<longleftrightarrow>
    (\<exists>v\<in>set rules. rule_id (snd v) = i \<and> rule_enabled (snd v) \<and>
       some_time rules monday connectors (\<lambda>ms. v \<in> set ms) \<and>
       \<not> some_time rules monday connectors (\<lambda>ms. last_option ms = Some v))"
proof -
  let ?spans = "target_spans rules monday connectors matches"
  have inj: "inj_on fst (set rules)" using assms(2) by (simp add: distinct_map)
  have occ: "(\<exists>s\<in>set ?spans. P (span_rule s, span_losers s)) \<longleftrightarrow>
      some_time rules monday connectors (\<lambda>ms. P (last_option ms, butlast ms))" for P
    by (rule target_spans_occur [OF assms])
  have id_in: "fst v \<in> fst ` set ws \<longleftrightarrow> v \<in> set ws" if "v \<in> set rules" "set ws \<subseteq> set rules" for v ws
    using inj that by (auto simp: inj_on_def)
  have losers: "fst v \<in> set (concat (map (\<lambda>s. map fst (span_losers s)) ?spans)) \<longleftrightarrow>
      some_time rules monday connectors (\<lambda>ms. v \<in> set (butlast ms))" if v: "v \<in> set rules" for v
  proof -
    have "fst v \<in> set (concat (map (\<lambda>s. map fst (span_losers s)) ?spans)) \<longleftrightarrow>
        some_time rules monday connectors (\<lambda>ms. fst v \<in> fst ` set (butlast ms))"
      using occ [of "\<lambda>(w, ls). fst v \<in> fst ` set ls"] by simp
    also have "\<dots> \<longleftrightarrow> some_time rules monday connectors (\<lambda>ms. v \<in> set (butlast ms))"
      by (rule some_time_cong, rule id_in [OF v], rule subset_trans [OF set_butlast])
    finally show ?thesis .
  qed
  have won: "set (case x of None \<Rightarrow> [] | Some w \<Rightarrow> [fst w]) = fst ` set_option x" for x :: "view option"
    by (cases x) auto
  have winners: "fst v \<in> set (concat (map (\<lambda>s. case span_rule s of None \<Rightarrow> [] | Some w \<Rightarrow> [fst w]) ?spans)) \<longleftrightarrow>
      some_time rules monday connectors (\<lambda>ms. last_option ms = Some v)" if v: "v \<in> set rules" for v
  proof -
    have "fst v \<in> set (concat (map (\<lambda>s. case span_rule s of None \<Rightarrow> [] | Some w \<Rightarrow> [fst w]) ?spans)) \<longleftrightarrow>
        some_time rules monday connectors (\<lambda>ms. fst v \<in> fst ` set_option (last_option ms))"
      using occ [of "\<lambda>(w, ls). fst v \<in> fst ` set_option w"] by (simp add: won)
    also have "\<dots> \<longleftrightarrow> some_time rules monday connectors (\<lambda>ms. last_option ms = Some v)"
    proof (rule some_time_cong)
      fix ms :: "view list" assume "set ms \<subseteq> set rules"
      with subset_trans [OF last_option_set] have "set_option (last_option ms) \<subseteq> set rules" by blast
      then show "fst v \<in> fst ` set_option (last_option ms) \<longleftrightarrow> last_option ms = Some v"
        using inj v by (cases "last_option ms") (auto simp: inj_on_def)
    qed
    finally show ?thesis .
  qed
  have beaten: "some_time rules monday connectors (\<lambda>ms. v \<in> set (butlast ms)) \<and>
      \<not> some_time rules monday connectors (\<lambda>ms. last_option ms = Some v) \<longleftrightarrow>
      some_time rules monday connectors (\<lambda>ms. v \<in> set ms) \<and>
      \<not> some_time rules monday connectors (\<lambda>ms. last_option ms = Some v)" for v
  proof -
    have "v \<in> set ms \<longleftrightarrow> v \<in> set (butlast ms) \<or> last_option ms = Some v" for ms
      by (cases ms rule: rev_cases) (auto simp: last_option_def)
    then show ?thesis unfolding some_time_def by blast
  qed
  have "i \<in> never_winning rules monday connectors matches \<longleftrightarrow>
    (\<exists>v\<in>set rules. rule_id (snd v) = i \<and> rule_enabled (snd v) \<and>
       fst v \<in> set (concat (map (\<lambda>s. map fst (span_losers s)) ?spans)) \<and>
       fst v \<notin> set (concat (map (\<lambda>s. case span_rule s of None \<Rightarrow> [] | Some w \<Rightarrow> [fst w]) ?spans)))"
    unfolding never_winning_def Let_def set_map set_filter case_prod_beta by (simp only: image_iff) blast
  then show ?thesis using losers winners beaten by blast
qed

theorem never_winning_exact_witness:
  "lit ''a'' \<notin> never_winning [(0, always), (1, nights)] 739980 [] matches"
proof -
  let ?rules = "[(0, always), (1, nights)] :: view list"
  have t: "\<forall>v\<in>set ?rules. time_ok (rule_start (snd v)) \<and> time_ok (rule_end (snd v))" by code_simp
  have d: "distinct (map fst ?rules)" by simp
  have "last_option (filter (\<lambda>v. matches (snd v) (at_minute_of 739982 90) []) ?rules) = Some (1, nights)"
    by code_simp
  then have "some_time ?rules 739980 [] (\<lambda>ms. last_option ms = Some (1, nights))"
    unfolding some_time_def targets_def
    by (intro bexI [of _ "[]"] exI [of _ 2] exI [of _ 90] conjI) simp_all
  moreover have "rule_id always \<noteq> lit ''a''" by (simp add: always_def)
  ultimately show ?thesis unfolding never_winning_exact [OF t d] by auto
qed

section \<open>Drags and drafts\<close>

text \<open>A drag on the calendar makes a window that can be saved and is open at exactly the minutes
  dragged over: a drag to midnight wraps to 00:00, and one over the whole day is no window at all,
  never one that starts and ends at the same time.\<close>

theorem drag_means_what_was_drawn:
  assumes "window_from_drag a b = Some (s, e)" and "0 \<le> m" and "m < 1440"
  shows "window_problem s e = None \<and>
    (within (r\<lparr>rule_start := s, rule_end := e\<rparr>) m \<longleftrightarrow> a \<le> m \<and> m < b)"
proof (cases "b = 1440")
  case True
  with assms show ?thesis
    by (auto simp: window_from_drag_def window_problem_def within_def split: if_splits)
next
  case False
  with assms have "b mod 1440 = b" by (auto simp: window_from_drag_def split: if_splits)
  with False assms show ?thesis
    by (auto simp: window_from_drag_def window_problem_def within_def split: if_splits)
qed

theorem drag_means_what_was_drawn_witness:
  "window_from_drag 1320 1440 = Some (Some 1320, Some 0) \<and>
     within (always\<lparr>rule_start := Some 1320, rule_end := Some 0\<rparr>) 1439"
  using drag_means_what_was_drawn [of 1320 1440 "Some 1320" "Some 0" 1439 always]
  by (simp add: window_from_drag_def)

lemma window_problem_None:
  "window_problem a b = None \<longleftrightarrow> a = None \<and> b = None \<or>
     (\<exists>s e. a = Some s \<and> b = Some e \<and> 0 \<le> s \<and> s < 1440 \<and> 0 \<le> e \<and> e < 1440 \<and> s \<noteq> e)"
  by (auto simp: window_problem_def split: option.splits)

lemma format_time_not_empty: "format_time m \<noteq> []"
  by (simp add: format_time_def)

text \<open>A draft the page accepts is stored as it was drawn: the times, days and months written out
  for the store parse back to the draft's own, and the rule keeps its id and its name.\<close>

theorem draft_is_stored:
  assumes "draft_problem v = None" and "clean_connector (rule_connector v) = Inr (rule_connector v)"
    and "encodable (rule_playlist v)" and "strip (rule_playlist v) = rule_playlist v"
  shows "\<exists>f. edited_rule (store_arguments v) (Some on) = Inr f \<and>
    (\<forall>old. f old = v\<lparr>rule_id := rule_id old, rule_name := rule_name old, rule_enabled := on\<rparr>)"
proof -
  from assms(1) have p: "rule_playlist v \<noteq> []" and sub: "rule_weekdays v \<subseteq> {0..6}" "rule_months v \<subseteq> {1..12}"
    and w: "window_problem (rule_start v) (rule_end v) = None"
    by (auto simp: draft_problem_def set_upto simp del: upto.simps split: if_splits)
  have fin: "finite (rule_weekdays v)" "finite (rule_months v)"
    using sub finite_subset by blast+
  have months: "parse_months (map JInt (sorted_list_of_set (rule_months v))) = Inr (rule_months v)"
    using sub fin by (simp add: parse_months_ints)
  have days: "parse_weekdays (map (\<lambda>d. weekday_names ! nat d) (sorted_list_of_set (rule_weekdays v))) =
      Inr (rule_weekdays v)"
    using sub fin by (simp add: parse_weekdays_names)
  note simps = edited_rule_def store_arguments_def Let_def given_time_def format_time_not_empty
    parse_format_time months days
  from w [unfolded window_problem_None] show ?thesis
  proof
    assume "rule_start v = None \<and> rule_end v = None"
    with assms p show ?thesis by (simp add: simps)
  next
    assume "\<exists>s e. rule_start v = Some s \<and> rule_end v = Some e \<and> 0 \<le> s \<and> s < 1440 \<and> 0 \<le> e \<and> e < 1440 \<and> s \<noteq> e"
    then obtain s e where "rule_start v = Some s" "rule_end v = Some e" "0 \<le> s" "s < 1440" "0 \<le> e" "e < 1440"
      by blast
    with assms p show ?thesis by (simp add: simps)
  qed
qed

theorem draft_is_stored_witness:
  "\<exists>f. edited_rule (store_arguments nights) (Some False) = Inr f \<and>
     f always = nights\<lparr>rule_id := lit ''b'', rule_name := None, rule_enabled := False\<rparr>"
proof -
  have "draft_problem nights = None" "clean_connector (rule_connector nights) = Inr (rule_connector nights)"
    "encodable (rule_playlist nights)" "strip (rule_playlist nights) = rule_playlist nights"
    by code_simp+
  from draft_is_stored [OF this, of False] show ?thesis by (auto simp: always_def)
qed

text \<open>A row moved in the list, where the top wins, ends up in the stored list, where the last wins,
  at the place the list shows it at.\<close>

theorem moved_row_lands:
  assumes "distinct (map rule_id rs)" and "0 \<le> f" and "f < int (length rs)" and "0 \<le> t" and "t < int (length rs)"
  shows "\<exists>b rs'. move_rule_relative (rule_id (rs ! nat (stored_index f (int (length rs))))) (stored_step f t) rs =
      Inr (rs ! nat (stored_index f (int (length rs))), b, rs') \<and>
    rs' ! nat (stored_index t (int (length rs))) = rs ! nat (stored_index f (int (length rs))) \<and>
    shown_index (stored_index t (int (length rs))) (int (length rs)) = t \<and> mset rs' = mset rs"
proof -
  let ?n = "int (length rs)"
  define k where "k = nat (stored_index f ?n)"
  have k: "k < length rs" "int k = ?n - 1 - f" using assms(2,3) by (auto simp: k_def stored_index_def)
  have idx: "find_index (\<lambda>r. rule_id r = rule_id (rs ! k)) rs = Some k"
  proof -
    have "find_index (\<lambda>x. x = map rule_id rs ! k) (map rule_id rs) = Some k"
      using assms(1) k(1) by (intro find_index_nth) simp_all
    moreover have "find_index P (map g xs) = find_index (\<lambda>x. P (g x)) xs" for P and g :: "rule \<Rightarrow> pystr" and xs
      by (induction xs) auto
    ultimately show ?thesis using k(1) by simp
  qed
  let ?t = "nat (max 0 (min (?n - 1) (int k + stored_step f t)))"
  have t: "?t = nat (stored_index t ?n)" using k assms by (simp add: stored_step_def stored_index_def)
  have "?t < length rs" using t assms by (simp add: stored_index_def)
  then have "insert_at ?t (rs ! k) (remove_at k rs) ! ?t = rs ! k"
    using k(1) by (intro nth_insert_at) (simp add: length_remove_at)
  then show ?thesis
    unfolding move_rule_relative_def k_def [symmetric] idx
    using remove_at_mset [OF k(1)] t by (simp add: Let_def shown_index_def stored_index_def)
qed

theorem moved_row_lands_witness:
  "\<exists>b rs'. move_rule_relative (lit ''a'') (stored_step 0 1) [always, nights] = Inr (nights, b, rs') \<and>
     rs' ! 0 = nights"
proof -
  have "distinct (map rule_id [always, nights])" by code_simp
  from moved_row_lands [OF this, of 0 1] have "\<exists>b rs'.
      move_rule_relative (lit ''a'') (stored_step 0 1) [always, nights] = Inr (nights, b, rs') \<and>
      rs' ! 0 = nights \<and> shown_index 0 2 = 1 \<and> mset rs' = {#always, nights#}"
    by (simp add: stored_index_def nights_def [THEN arg_cong [of _ _ rule_id]])
  then show ?thesis by blast
qed

section \<open>Reasons and words\<close>

lemma rule_applies_matches: "rule_applies v at c = matches v at c"
  by (simp add: rule_applies_def stored_rule_def matches_def calendar_date_def within_def)

lemma only_not_now: "x @ lit '' only'' \<noteq> lit ''Not now''"
proof
  assume "x @ lit '' only'' = lit ''Not now''"
  then have "last (x @ lit '' only'') = last (lit ''Not now'')" by simp
  then show False by (simp add: lit_def)
qed

text \<open>The page's answer to "why?" is complete: it says a rule is overridden exactly when it
  matches and another one plays, and where a rule does not match the reason is one the rule itself
  shows, its display, months, days or times; the last resort "Not now" is never reached.\<close>

theorem reason_explains:
  assumes "reason v at c winner rule_applies mirrored = (explanation, kind)"
    and "rule_start v = None \<longleftrightarrow> rule_end v = None"
  shows "explanation \<noteq> lit ''Not now'' \<and>
    (kind = Off \<longleftrightarrow> mirrored \<and> rule_connector v \<noteq> [] \<or> \<not> rule_enabled v) \<and>
    (kind = Playing \<longleftrightarrow> kind \<noteq> Off \<and> rule_id v \<noteq> [] \<and> winner = Some (rule_id v)) \<and>
    (kind = Overridden \<longleftrightarrow> kind \<noteq> Off \<and> kind \<noteq> Playing \<and> matches v at c)"
proof (cases "mirrored \<and> rule_connector v \<noteq> [] \<or> \<not> rule_enabled v \<or>
    rule_id v \<noteq> [] \<and> Some (rule_id v) = winner \<or> rule_connector v \<noteq> [] \<and> c \<noteq> rule_connector v \<or> matches v at c")
  case True
  with assms(1) show ?thesis
    by (auto simp: reason_def rule_applies_matches only_not_now matches_parts aimed_at_def Let_def
        lit_def split: if_splits)
next
  case False
  then have out: "\<not> day_chosen v (calendar_date v at) \<or> \<not> within v (minute_of_day at)"
    by (auto simp: matches_parts aimed_at_def)
  show ?thesis
  proof (cases "rule_start v")
    case None
    with assms(2) have "rule_end v = None" by simp
    with None False out assms(1) show ?thesis
      by (auto simp: reason_def rule_applies_matches only_not_now Let_def within_def calendar_date_def
          day_chosen_def split: if_splits)
  next
    case (Some s)
    with assms(2) obtain e where e: "rule_end v = Some e" by auto
    have head: "Suc n = length x \<Longrightarrow> x \<noteq> []" for n and x :: pystr by auto
    from Some e False out assms(1) show ?thesis
      by (auto simp: reason_def rule_applies_matches only_not_now Let_def within_def calendar_date_def
          day_chosen_def has_window_def lit_def split: if_splits)
  qed
qed

theorem reason_explains_witness:
  "\<exists>explanation kind. reason nights (at_minute_of 739982 700) [] None rule_applies False = (explanation, kind) \<and>
     explanation \<noteq> lit ''Not now'' \<and> kind \<noteq> Overridden"
proof -
  obtain explanation kind where r:
    "reason nights (at_minute_of 739982 700) [] None rule_applies False = (explanation, kind)"
    by (meson surj_pair)
  have "\<not> matches nights (at_minute_of 739982 700) []" "rule_start nights = None \<longleftrightarrow> rule_end nights = None"
    by code_simp+
  with reason_explains [OF r] r show ?thesis by blast
qed

end
