(* ===== verification/Playlist_Cursor.thy ===== *)
theory Playlist_Cursor
  imports Prelude
begin

text \<open>
  \<open>library/playlist.py\<close>: the cursor over what plays, with shuffle. The random generator is the
  sequence of numbers it will draw, each brought below the bound asked for, and 0 once they run out:
  every behaviour of \<open>random.Random\<close> is some such sequence. \<open>Random.shuffle\<close> and \<open>Random.choice\<close> are
  CPython's, on top of \<open>_randbelow\<close>.
\<close>

section \<open>The state and its operations\<close>

record media_item =
  item_path :: pystr

type_synonym draws = "nat list"

definition randbelow :: "nat \<Rightarrow> draws \<Rightarrow> nat \<times> draws" where
  "randbelow n ds = (case ds of [] \<Rightarrow> (0, []) | d # rest \<Rightarrow> (d mod n, rest))"

definition swap :: "nat \<Rightarrow> nat \<Rightarrow> 'a list \<Rightarrow> 'a list" where
  "swap i j xs = xs[i := xs ! j, j := xs ! i]"

text \<open>\<open>for i in reversed(range(1, len(x)))\<close>, from \<open>i\<close> down.\<close>

fun shuffle_from :: "nat \<Rightarrow> 'a list \<Rightarrow> draws \<Rightarrow> 'a list \<times> draws" where
  "shuffle_from 0 xs ds = (xs, ds)"
| "shuffle_from (Suc i) xs ds =
     (let (j, rest) = randbelow (Suc (Suc i)) ds in shuffle_from i (swap (Suc i) j xs) rest)"

definition rng_shuffle :: "'a list \<Rightarrow> draws \<Rightarrow> 'a list \<times> draws" where
  "rng_shuffle xs ds = shuffle_from (length xs - 1) xs ds"

definition rng_choice :: "'a list \<Rightarrow> draws \<Rightarrow> 'a \<times> draws" where
  "rng_choice xs ds = (let (j, rest) = randbelow (length xs) ds in (xs ! j, rest))"

record 'm cursor =
  c_items :: "'m list"
  c_shuffle :: bool
  c_rng :: draws
  c_order :: "nat list"
  c_cursor :: nat

type_synonym 'a playlist_cursor = "'a media_item_scheme cursor"

definition current :: "'m cursor \<Rightarrow> 'm option" where
  "current p = (if c_order p = [] then None else Some (c_items p ! (c_order p ! c_cursor p)))"

definition select :: "pystr \<Rightarrow> 'a playlist_cursor \<Rightarrow> bool \<times> 'a playlist_cursor" where
  "select path p =
     (case find_index (\<lambda>i. item_path (c_items p ! i) = path) (c_order p) of
        None \<Rightarrow> (False, p)
      | Some position \<Rightarrow> (True, p\<lparr>c_cursor := position\<rparr>))"

definition rebuild_order :: "pystr option \<Rightarrow> 'a playlist_cursor \<Rightarrow> 'a playlist_cursor" where
  "rebuild_order keep p =
     (let plain = [0..<length (c_items p)];
          (order, rng) = (if c_shuffle p then rng_shuffle plain (c_rng p) else (plain, c_rng p));
          q = p\<lparr>c_order := order, c_rng := rng, c_cursor := 0\<rparr>
      in case keep of None \<Rightarrow> q | Some path \<Rightarrow> snd (select path q))"

definition new_playlist :: "'a media_item_scheme list \<Rightarrow> bool \<Rightarrow> draws \<Rightarrow> 'a playlist_cursor" where
  "new_playlist items shuffle rng =
     rebuild_order None \<lparr>c_items = items, c_shuffle = shuffle, c_rng = rng, c_order = [], c_cursor = 0\<rparr>"

definition set_items :: "'a media_item_scheme list \<Rightarrow> 'a playlist_cursor \<Rightarrow> 'a playlist_cursor" where
  "set_items items p =
     rebuild_order (map_option item_path (current p)) (p\<lparr>c_items := items\<rparr>)"

definition set_shuffle :: "bool \<Rightarrow> 'a playlist_cursor \<Rightarrow> 'a playlist_cursor" where
  "set_shuffle enabled p =
     (if enabled = c_shuffle p then p
      else rebuild_order (map_option item_path (current p)) (p\<lparr>c_shuffle := enabled\<rparr>))"

definition next_item :: "'m cursor \<Rightarrow> 'm option \<times> 'm cursor" where
  "next_item p =
     (if c_order p = [] then (None, p)
      else
        let forward = Suc (c_cursor p);
            q = (if forward < length (c_order p) then p\<lparr>c_cursor := forward\<rparr>
                 else if c_shuffle p \<and> 1 < length (c_order p) then
                   let previous_last = last (c_order p);
                       (order, rng) = rng_shuffle (c_order p) (c_rng p);
                       mended = (if hd order = previous_last then swap 0 (length order - 1) order else order)
                   in p\<lparr>c_cursor := 0, c_order := mended, c_rng := rng\<rparr>
                 else p\<lparr>c_cursor := 0\<rparr>)
        in (current q, q))"

definition previous_item :: "'m cursor \<Rightarrow> 'm option \<times> 'm cursor" where
  "previous_item p =
     (if c_order p = [] then (None, p)
      else let q = p\<lparr>c_cursor := nat ((int (c_cursor p) - 1) mod int (length (c_order p)))\<rparr>
           in (current q, q))"

definition random_item :: "'m cursor \<Rightarrow> 'm option \<times> 'm cursor" where
  "random_item p =
     (if c_order p = [] then (None, p)
      else if length (c_order p) = 1 then (current p, p)
      else
        let choices = filter (\<lambda>position. position \<noteq> c_cursor p) [0..<length (c_order p)];
            (position, rng) = rng_choice choices (c_rng p);
            q = p\<lparr>c_cursor := position, c_rng := rng\<rparr>
        in (current q, q))"

section \<open>Shuffling permutes\<close>

lemma length_swap [simp]: "length (swap i j xs) = length xs"
  by (simp add: swap_def)

lemma swap_Nil [simp]: "swap i j xs = [] \<longleftrightarrow> xs = []"
  by (simp add: swap_def)

lemma mset_swap: "i < length xs \<Longrightarrow> j < length xs \<Longrightarrow> mset (swap i j xs) = mset xs"
  by (simp add: swap_def mset_swap)

lemma randbelow_less: "0 < n \<Longrightarrow> fst (randbelow n ds) < n"
  by (simp add: randbelow_def split: list.split)

lemma shuffle_from_mset:
  "i < length xs \<or> i = 0 \<Longrightarrow> mset (fst (shuffle_from i xs ds)) = mset xs"
proof (induction i arbitrary: xs ds)
  case (Suc i)
  obtain j rest where r: "randbelow (Suc (Suc i)) ds = (j, rest)" by (meson surj_pair)
  have "j < Suc (Suc i)" using randbelow_less [of "Suc (Suc i)" ds] r by simp
  with Suc show ?case by (simp add: r mset_swap)
qed simp

lemma rng_shuffle_mset: "mset (fst (rng_shuffle xs ds)) = mset xs"
  unfolding rng_shuffle_def by (rule shuffle_from_mset) (cases xs; simp)

section \<open>The invariant\<close>

text \<open>The order is a permutation of the item numbers, and the cursor points into it.\<close>

definition wf_cursor :: "'m cursor \<Rightarrow> bool" where
  "wf_cursor p \<longleftrightarrow>
     mset (c_order p) = mset [0..<length (c_items p)] \<and>
     (if c_order p = [] then c_cursor p = 0 else c_cursor p < length (c_order p))"

lemma wf_cursor_length: "wf_cursor p \<Longrightarrow> length (c_order p) = length (c_items p)"
  unfolding wf_cursor_def by (metis length_upt minus_nat.diff_0 size_mset)

lemma wf_cursor_distinct: "wf_cursor p \<Longrightarrow> distinct (c_order p) \<and> set (c_order p) = {..<length (c_items p)}"
  unfolding wf_cursor_def by (metis atLeast_upt distinct_upt mset_eq_imp_distinct_iff mset_eq_setD)

lemma select_wf: "wf_cursor p \<Longrightarrow> wf_cursor (snd (select path p))"
  by (auto simp: select_def wf_cursor_def split: option.split dest: find_index_Some)

lemma select_finds:
  "fst (select path p) \<Longrightarrow> current (snd (select path p)) \<noteq> None \<and>
     map_option item_path (current (snd (select path p))) = Some path"
  by (auto simp: select_def current_def split: option.splits dest: find_index_Some)

lemma select_true:
  assumes "wf_cursor p"
  shows "fst (select path p) \<longleftrightarrow> path \<in> item_path ` set (c_items p)"
proof -
  have "fst (select path p) \<longleftrightarrow> (\<exists>i\<in>set (c_order p). item_path (c_items p ! i) = path)"
    using find_index_None [of "\<lambda>i. item_path (c_items p ! i) = path" "c_order p"]
    by (cases "find_index (\<lambda>i. item_path (c_items p ! i) = path) (c_order p)") (auto simp: select_def)
  also have "\<dots> \<longleftrightarrow> path \<in> item_path ` set (c_items p)"
    using wf_cursor_distinct [OF assms] by (force simp: in_set_conv_nth)
  finally show ?thesis .
qed

lemma rebuild_order_wf: "wf_cursor (rebuild_order keep p)"
proof -
  let ?plain = "[0..<length (c_items p)]"
  obtain order rng where o: "(if c_shuffle p then rng_shuffle ?plain (c_rng p) else (?plain, c_rng p)) = (order, rng)"
    by (meson surj_pair)
  then have "mset order = mset ?plain" using rng_shuffle_mset [of ?plain "c_rng p"] by (auto split: if_splits)
  then have "wf_cursor (p\<lparr>c_order := order, c_rng := rng, c_cursor := 0\<rparr>)" by (simp add: wf_cursor_def)
  then show ?thesis unfolding rebuild_order_def Let_def o
    by (cases keep) (simp_all add: select_wf)
qed

lemma rebuild_order_parts [simp]:
  "c_items (rebuild_order keep p) = c_items p" "c_shuffle (rebuild_order keep p) = c_shuffle p"
  by (auto simp: rebuild_order_def Let_def select_def split: prod.split option.split)

lemma rebuild_order_keeps:
  assumes "path \<in> item_path ` set (c_items p)"
  shows "map_option item_path (current (rebuild_order (Some path) p)) = Some path"
proof -
  obtain order rng where o: "(if c_shuffle p then rng_shuffle [0..<length (c_items p)] (c_rng p)
      else ([0..<length (c_items p)], c_rng p)) = (order, rng)"
    by (meson surj_pair)
  define q where "q = p\<lparr>c_order := order, c_rng := rng, c_cursor := 0\<rparr>"
  have r: "rebuild_order None p = q" "rebuild_order (Some path) p = snd (select path q)"
    unfolding rebuild_order_def Let_def o q_def by simp_all
  have "wf_cursor q" using rebuild_order_wf [of None p] r(1) by simp
  with assms have "fst (select path q)" by (simp add: select_true q_def)
  with select_finds show ?thesis unfolding r(2) by blast
qed

lemma next_item_wf: "wf_cursor p \<Longrightarrow> wf_cursor (snd (next_item p))"
proof -
  assume p: "wf_cursor p"
  obtain order rng where s: "rng_shuffle (c_order p) (c_rng p) = (order, rng)" by (meson surj_pair)
  have m: "mset order = mset (c_order p)" using rng_shuffle_mset [of "c_order p" "c_rng p"] s by simp
  then have len: "length order = length (c_order p)" by (metis size_mset)
  with p m show ?thesis
    by (auto simp: next_item_def Let_def s wf_cursor_def mset_swap simp del: mset_upt)
qed

lemma previous_item_wf: "wf_cursor p \<Longrightarrow> wf_cursor (snd (previous_item p))"
  by (auto simp: previous_item_def Let_def wf_cursor_def nat_less_iff)

lemma random_choice_other:
  assumes "2 \<le> n" and "c < n"
  shows "fst (rng_choice (filter (\<lambda>position. position \<noteq> c) [0..<n]) ds) < n \<and>
    fst (rng_choice (filter (\<lambda>position. position \<noteq> c) [0..<n]) ds) \<noteq> c"
proof -
  let ?cs = "filter (\<lambda>position. position \<noteq> c) [0..<n]"
  have "(if c = 0 then 1 else 0) \<in> set ?cs" using assms by auto
  then have "0 < length ?cs" by (rule length_pos_if_in_set)
  then have "?cs ! fst (randbelow (length ?cs) ds) \<in> set ?cs"
    using randbelow_less by (intro nth_mem) blast
  then have "fst (rng_choice ?cs ds) \<in> set ?cs" by (simp add: rng_choice_def Let_def case_prod_beta)
  then show ?thesis by auto
qed

lemma random_item_wf: "wf_cursor p \<Longrightarrow> wf_cursor (snd (random_item p))"
  using random_choice_other [of "length (c_order p)" "c_cursor p" "c_rng p"]
  by (cases "c_order p" rule: remdups_adj.cases)
    (auto simp: random_item_def Let_def wf_cursor_def split: prod.splits)

section \<open>What a listener sees\<close>

definition advance :: "'m cursor \<Rightarrow> 'm cursor" where
  "advance p = snd (next_item p)"

lemma advance_within_pass:
  "Suc (c_cursor p) < length (c_order p) \<Longrightarrow> advance p = p\<lparr>c_cursor := Suc (c_cursor p)\<rparr>"
  by (auto simp: advance_def next_item_def Let_def)

lemma advance_steps:
  "c_cursor p + k < length (c_order p) \<Longrightarrow> (advance ^^ k) p = p\<lparr>c_cursor := c_cursor p + k\<rparr>"
  by (induction k) (simp_all add: advance_within_pass)

text \<open>C21: A pass plays everything once: from the first place of any order, shuffled or not, as many
  items as there are come up, each item of the playlist exactly once.\<close>

theorem pass_plays_everything_once:
  assumes "wf_cursor p" and "c_cursor p = 0"
  shows "mset (map (\<lambda>k. current ((advance ^^ k) p)) [0..<length (c_items p)]) = mset (map Some (c_items p))"
proof -
  have len: "length (c_order p) = length (c_items p)" by (rule wf_cursor_length [OF assms(1)])
  have "current ((advance ^^ k) p) = Some (c_items p ! (c_order p ! k))" if "k < length (c_items p)" for k
    using that assms(2) advance_steps [of p k] len by (auto simp: current_def)
  then have "map (\<lambda>k. current ((advance ^^ k) p)) [0..<length (c_items p)] =
      map (\<lambda>i. Some (c_items p ! i)) (map (\<lambda>k. c_order p ! k) [0..<length (c_order p)])"
    by (simp add: len)
  also have "map (\<lambda>k. c_order p ! k) [0..<length (c_order p)] = c_order p" by (rule map_nth)
  finally have "mset (map (\<lambda>k. current ((advance ^^ k) p)) [0..<length (c_items p)]) =
      image_mset (\<lambda>i. Some (c_items p ! i)) (mset [0..<length (c_items p)])"
    using assms(1) by (simp add: wf_cursor_def)
  also have "\<dots> = mset (map Some (map (\<lambda>i. c_items p ! i) [0..<length (c_items p)]))"
    unfolding mset_map [symmetric] by (simp add: comp_def)
  finally show ?thesis by (simp add: map_nth)
qed

text \<open>Three items, and a generator about to draw 4, 0 and then nothing.\<close>

definition three :: "media_item list" where
  "three = [\<lparr>item_path = lit ''a''\<rparr>, \<lparr>item_path = lit ''b''\<rparr>, \<lparr>item_path = lit ''c''\<rparr>]"

definition shuffled_three :: "media_item cursor" where
  "shuffled_three = new_playlist three True [4, 0]"

lemma shuffled_three_wf: "wf_cursor shuffled_three"
  by (simp add: shuffled_three_def new_playlist_def rebuild_order_wf)

theorem pass_plays_everything_once_witness:
  "mset (map (\<lambda>k. current ((advance ^^ k) shuffled_three)) [0..<3]) = mset (map Some three) \<and>
     current shuffled_three \<noteq> Some (three ! 0)"
proof -
  have "c_cursor shuffled_three = 0" "c_items shuffled_three = three" "length three = 3"
    "current shuffled_three \<noteq> Some (three ! 0)"
    by code_simp+
  with pass_plays_everything_once [OF shuffled_three_wf] show ?thesis by simp
qed

text \<open>The number of the item that plays.\<close>

definition playing :: "'m cursor \<Rightarrow> nat" where
  "playing p = c_order p ! c_cursor p"

lemma last_not_hd:
  "mset order = mset xs \<Longrightarrow> distinct xs \<Longrightarrow> 1 < length xs \<Longrightarrow> hd order = last xs \<Longrightarrow>
     hd (swap 0 (length order - 1) order) \<noteq> last xs"
proof -
  assume m: "mset order = mset xs" and d: "distinct xs" and l: "1 < length xs" and h: "hd order = last xs"
  have len: "length order = length xs" and "distinct order"
    using m d by (metis size_mset, metis mset_eq_imp_distinct_iff)
  then have "order ! 0 \<noteq> order ! (length order - 1)" using l len nth_eq_iff_index_eq [OF \<open>distinct order\<close>, of 0 "length order - 1"]
    by (cases "xs = []") (simp_all del: One_nat_def)
  moreover have "order ! 0 = last xs" using h l len by (cases order) auto
  moreover have "order \<noteq> []" "0 < length order - 1" using l len by auto
  then have "hd (swap 0 (length order - 1) order) = order ! (length order - 1)"
    by (simp add: swap_def hd_conv_nth nth_list_update)
  ultimately show ?thesis by simp
qed

text \<open>With more than one item, the next, the previous and a random step always move to another
  item: also across the seam between two shuffled passes, where the item that just played never
  comes first again.\<close>

theorem steps_never_repeat:
  assumes "wf_cursor p" and "1 < length (c_items p)"
  shows "playing (snd (next_item p)) \<noteq> playing p \<and> playing (snd (previous_item p)) \<noteq> playing p \<and>
    playing (snd (random_item p)) \<noteq> playing p"
proof -
  have n: "1 < length (c_order p)" using assms wf_cursor_length by metis
  have d: "distinct (c_order p)" using wf_cursor_distinct [OF assms(1)] by simp
  have c: "c_cursor p < length (c_order p)" using assms(1) n unfolding wf_cursor_def by (metis list.size(3) not_less_zero)
  have other: "c_order p ! j \<noteq> playing p" if "j < length (c_order p)" "j \<noteq> c_cursor p" for j
    using d c that by (simp add: playing_def nth_eq_iff_index_eq)
  have "playing (snd (next_item p)) \<noteq> playing p"
  proof (cases "Suc (c_cursor p) < length (c_order p)")
    case True
    then show ?thesis using other [of "Suc (c_cursor p)"] advance_within_pass [OF True]
      by (simp add: advance_def playing_def)
  next
    case False
    with c have "c_cursor p = length (c_order p) - 1" by simp
    moreover have "c_order p \<noteq> []" using n by auto
    ultimately have last: "playing p = last (c_order p)" by (simp add: playing_def last_conv_nth)
    obtain order rng where s: "rng_shuffle (c_order p) (c_rng p) = (order, rng)" by (meson surj_pair)
    have m: "mset order = mset (c_order p)" using rng_shuffle_mset [of "c_order p" "c_rng p"] s by simp
    then have "length order = length (c_order p)" by (metis size_mset)
    then have ne: "order \<noteq> []" "c_order p \<noteq> []" using n by auto
    have "c_cursor p \<noteq> 0" using False n by simp
    with False s ne n last last_not_hd [OF m d n] other [of 0] show ?thesis
      by (auto simp: next_item_def Let_def playing_def hd_conv_nth)
  qed
  moreover have "playing (snd (previous_item p)) \<noteq> playing p"
  proof -
    have "nat ((int (c_cursor p) - 1) mod int (length (c_order p))) \<noteq> c_cursor p"
      using n c by (cases "c_cursor p") (auto simp: zmod_minus1 nat_eq_iff2)
    moreover have "nat ((int (c_cursor p) - 1) mod int (length (c_order p))) < length (c_order p)"
      using n pos_mod_bound [of "int (length (c_order p))" "int (c_cursor p) - 1"] by linarith
    ultimately show ?thesis using other n by (auto simp: previous_item_def Let_def playing_def)
  qed
  moreover have "playing (snd (random_item p)) \<noteq> playing p"
  proof -
    let ?choice = "rng_choice (filter (\<lambda>position. position \<noteq> c_cursor p) [0..<length (c_order p)]) (c_rng p)"
    have "fst ?choice < length (c_order p) \<and> fst ?choice \<noteq> c_cursor p"
      using n c by (intro random_choice_other) auto
    moreover have "playing (snd (random_item p)) = c_order p ! fst ?choice"
      using n by (auto simp: random_item_def Let_def playing_def split: prod.split)
    ultimately show ?thesis using other by simp
  qed
  ultimately show ?thesis by blast
qed

theorem steps_never_repeat_witness:
  "playing (snd (next_item ((advance ^^ 2) shuffled_three))) \<noteq> playing ((advance ^^ 2) shuffled_three)"
proof -
  have "wf_cursor ((advance ^^ k) shuffled_three)" for k
    by (induction k) (simp_all add: shuffled_three_wf advance_def next_item_wf)
  moreover have "1 < length (c_items ((advance ^^ 2) shuffled_three))" by code_simp
  ultimately show ?thesis using steps_never_repeat by blast
qed

text \<open>C22: Stepping back after stepping on returns to the very same state, cursor and order, except
  after the step that reshuffles at the end of a shuffled pass.\<close>

theorem previous_retraces_next:
  assumes "wf_cursor p" and "\<not> c_shuffle p \<or> Suc (c_cursor p) < length (c_order p)"
  shows "snd (previous_item (snd (next_item p))) = p"
proof (cases "c_order p = []")
  case True
  then show ?thesis by (simp add: next_item_def previous_item_def)
next
  case False
  then have c: "c_cursor p < length (c_order p)" using assms(1) by (simp add: wf_cursor_def)
  show ?thesis
  proof (cases "Suc (c_cursor p) < length (c_order p)")
    case True
    with False c show ?thesis
      by (simp add: next_item_def previous_item_def Let_def)
  next
    case wrap: False
    with c have "c_cursor p = length (c_order p) - 1" by simp
    with wrap False assms(2) show ?thesis
      by (simp add: next_item_def previous_item_def Let_def zmod_minus1 nat_diff_distrib)
  qed
qed

theorem previous_retraces_next_witness: "snd (previous_item (snd (next_item shuffled_three))) = shuffled_three"
proof -
  have "Suc (c_cursor shuffled_three) < length (c_order shuffled_three)" by code_simp
  with previous_retraces_next [OF shuffled_three_wf] show ?thesis by blast
qed

text \<open>Replacing the contents keeps playing the current item where it survives, and switching
  shuffle on or off always does.\<close>

theorem place_is_kept:
  assumes "wf_cursor p" and "current p = Some m"
  shows "(item_path m \<in> item_path ` set items \<longrightarrow>
      map_option item_path (current (set_items items p)) = Some (item_path m)) \<and>
    map_option item_path (current (set_shuffle on p)) = Some (item_path m)"
proof -
  have "c_order p \<noteq> []" and m: "m = c_items p ! (c_order p ! c_cursor p)"
    using assms(2) by (auto simp: current_def split: if_splits)
  then have "c_order p ! c_cursor p \<in> set (c_order p)" using assms(1) by (simp add: wf_cursor_def)
  then have "m \<in> set (c_items p)" using wf_cursor_distinct [OF assms(1)] m by simp
  then have "item_path m \<in> item_path ` set (c_items (p\<lparr>c_shuffle := on\<rparr>))" by simp
  from rebuild_order_keeps [OF this] have "map_option item_path (current (set_shuffle on p)) = Some (item_path m)"
    unfolding set_shuffle_def assms(2) option.map(2) by (simp only: assms(2) option.map(2) split: if_split) simp
  moreover have "item_path m \<in> item_path ` set items \<Longrightarrow>
      map_option item_path (current (set_items items p)) = Some (item_path m)"
    unfolding set_items_def assms(2) option.map(2) by (rule rebuild_order_keeps) simp
  ultimately show ?thesis by blast
qed

theorem place_is_kept_witness:
  "\<exists>m. current shuffled_three = Some m \<and>
     map_option item_path (current (set_items (rev three) shuffled_three)) = Some (item_path m)"
proof -
  have "current shuffled_three \<noteq> None" by code_simp
  then obtain m where m: "current shuffled_three = Some m" by blast
  have "case current shuffled_three of None \<Rightarrow> False | Some x \<Rightarrow> item_path x \<in> item_path ` set (rev three)"
    by code_simp
  with m place_is_kept [OF shuffled_three_wf m, of "rev three"] show ?thesis by simp
qed

section \<open>Reachable states\<close>

inductive cursor_step :: "'a playlist_cursor \<Rightarrow> 'a playlist_cursor \<Rightarrow> bool" where
  step_next: "cursor_step p (snd (next_item p))"
| step_previous: "cursor_step p (snd (previous_item p))"
| step_random: "cursor_step p (snd (random_item p))"
| step_select: "cursor_step p (snd (select path p))"
| step_items: "cursor_step p (set_items items p)"
| step_shuffle: "cursor_step p (set_shuffle on p)"

lemma cursor_step_wf: "cursor_step p q \<Longrightarrow> wf_cursor p \<Longrightarrow> wf_cursor q"
  by (induction rule: cursor_step.induct)
    (simp_all add: next_item_wf previous_item_wf random_item_wf select_wf set_items_def set_shuffle_def
      rebuild_order_wf)

text \<open>C23: Whatever is called in whatever order, whatever the generator draws, the order stays a
  permutation of the items and the cursor inside it, so no index is ever out of range, and there is a
  current item exactly when there are items.\<close>

theorem cursor_always_valid:
  assumes "cursor_step\<^sup>*\<^sup>* (new_playlist items shuffle rng) p"
  shows "wf_cursor p \<and> (current p = None \<longleftrightarrow> c_items p = [])"
proof -
  have "wf_cursor p"
    using assms
  proof (induction rule: rtranclp_induct)
    case base
    show ?case by (simp add: new_playlist_def rebuild_order_wf)
  next
    case (step q r)
    then show ?case by (simp add: cursor_step_wf)
  qed
  then show ?thesis using wf_cursor_length [of p] by (auto simp: current_def)
qed

theorem cursor_always_valid_witness:
  "wf_cursor (set_items [] (snd (random_item (new_playlist three True [2, 7]))))"
proof -
  let ?p = "new_playlist three True [2, 7]"
  have "cursor_step ?p (snd (random_item ?p))" "cursor_step (snd (random_item ?p)) (set_items [] (snd (random_item ?p)))"
    by (rule step_random, rule step_items)
  then have "cursor_step\<^sup>*\<^sup>* ?p (set_items [] (snd (random_item ?p)))" by (meson converse_rtranclp_into_rtranclp r_into_rtranclp)
  with cursor_always_valid show ?thesis by blast
qed

end
