(* ===== verification/Sha256.thy ===== *)
theory Sha256
  imports Prelude "HOL-Library.Word"
begin

text \<open>
  What \<open>library/playlists.py\<close> uses of the standard library's \<open>hashlib\<close>: \<open>str.encode\<close> to UTF-8 and
  \<open>sha256(...).hexdigest()\<close>, as FIPS 180-4 defines it, on 32-bit words.
\<close>

unbundle bit_operations_syntax

definition utf8_cp :: "nat \<Rightarrow> nat list" where
  "utf8_cp c =
     (if c < 128 then [c]
      else if c < 2048 then [192 + c div 64, 128 + c mod 64]
      else if c < 65536 then [224 + c div 4096, 128 + c div 64 mod 64, 128 + c mod 64]
      else [240 + c div 262144, 128 + c div 4096 mod 64, 128 + c div 64 mod 64, 128 + c mod 64])"

definition utf8 :: "pystr \<Rightarrow> nat list" where
  "utf8 s = concat (map utf8_cp s)"

definition sha_constants :: "32 word list" where
  "sha_constants = [
    1116352408, 1899447441, 3049323471, 3921009573, 961987163, 1508970993, 2453635748,
    2870763221, 3624381080, 310598401, 607225278, 1426881987, 1925078388, 2162078206,
    2614888103, 3248222580, 3835390401, 4022224774, 264347078, 604807628, 770255983,
    1249150122, 1555081692, 1996064986, 2554220882, 2821834349, 2952996808, 3210313671,
    3336571891, 3584528711, 113926993, 338241895, 666307205, 773529912, 1294757372, 1396182291,
    1695183700, 1986661051, 2177026350, 2456956037, 2730485921, 2820302411, 3259730800,
    3345764771, 3516065817, 3600352804, 4094571909, 275423344, 430227734, 506948616, 659060556,
    883997877, 958139571, 1322822218, 1537002063, 1747873779, 1955562222, 2024104815,
    2227730452, 2361852424, 2428436474, 2756734187, 3204031479, 3329325298]"

definition sha_start :: "32 word list" where
  "sha_start = [
    1779033703, 3144134277, 1013904242, 2773480762, 1359893119, 2600822924, 528734635,
    1541459225]"

definition rotr :: "nat \<Rightarrow> 32 word \<Rightarrow> 32 word" where
  "rotr n w = (drop_bit n w OR push_bit (32 - n) w)"

definition big_endian :: "nat list \<Rightarrow> 32 word" where
  "big_endian bytes = foldl (\<lambda>w b. push_bit 8 w OR of_nat b) 0 bytes"

definition size_bytes :: "nat \<Rightarrow> nat list" where
  "size_bytes n = map (\<lambda>k. n div 256 ^ k mod 256) [7, 6, 5, 4, 3, 2, 1, 0]"

definition sha_pad :: "nat list \<Rightarrow> nat list" where
  "sha_pad bytes =
     bytes @ [128] @ replicate ((119 - length bytes mod 64) mod 64) 0 @ size_bytes (8 * length bytes)"

fun chunks :: "nat \<Rightarrow> nat \<Rightarrow> 'a list \<Rightarrow> 'a list list" where
  "chunks 0 n xs = []"
| "chunks (Suc k) n xs = take n xs # chunks k n (drop n xs)"

text \<open>The message schedule, newest word first.\<close>

fun sha_expand :: "nat \<Rightarrow> 32 word list \<Rightarrow> 32 word list" where
  "sha_expand 0 ws = ws"
| "sha_expand (Suc k) ws =
     (let s0 = rotr 7 (ws ! 14) XOR rotr 18 (ws ! 14) XOR drop_bit 3 (ws ! 14);
          s1 = rotr 17 (ws ! 1) XOR rotr 19 (ws ! 1) XOR drop_bit 10 (ws ! 1)
      in sha_expand k ((ws ! 15 + s0 + ws ! 6 + s1) # ws))"

definition sha_round :: "32 word list \<Rightarrow> 32 word \<times> 32 word \<Rightarrow> 32 word list" where
  "sha_round v kw =
     (case v of
        [a, b, c, d, e, f, g, h] \<Rightarrow>
          (let s1 = rotr 6 e XOR rotr 11 e XOR rotr 25 e;
               ch = (e AND f) XOR (NOT e AND g);
               t1 = h + s1 + ch + fst kw + snd kw;
               s0 = rotr 2 a XOR rotr 13 a XOR rotr 22 a;
               maj = (a AND b) XOR (a AND c) XOR (b AND c)
           in [t1 + s0 + maj, a, b, c, d + t1, e, f, g])
      | _ \<Rightarrow> v)"

definition sha_block :: "32 word list \<Rightarrow> nat list \<Rightarrow> 32 word list" where
  "sha_block hs block =
     (let ws = rev (sha_expand 48 (rev (map big_endian (chunks 16 4 block))))
      in map (\<lambda>(x, y). x + y) (zip hs (foldl sha_round hs (zip sha_constants ws))))"

definition sha256 :: "nat list \<Rightarrow> 32 word list" where
  "sha256 bytes =
     (let padded = sha_pad bytes in foldl sha_block sha_start (chunks (length padded div 64) 64 padded))"

definition hex_digits :: "nat \<Rightarrow> nat \<Rightarrow> pystr" where
  "hex_digits k n = map (\<lambda>i. let d = n div 16 ^ i mod 16 in if d < 10 then 48 + d else 87 + d) (rev [0..<k])"

definition hexdigest :: "32 word list \<Rightarrow> pystr" where
  "hexdigest ws = concat (map (\<lambda>w. hex_digits 8 (unat w)) ws)"

lemma length_hex_digits [simp]: "length (hex_digits k n) = k"
  by (simp add: hex_digits_def)

lemma hex_digits_ascii: "c \<in> set (hex_digits k n) \<Longrightarrow> (48 \<le> c \<and> c \<le> 57) \<or> (97 \<le> c \<and> c \<le> 102)"
proof -
  have "(48 \<le> (if d < 10 then 48 + d else 87 + d) \<and> (if d < 10 then 48 + d else 87 + d) \<le> 57) \<or>
      (97 \<le> (if d < 10 then 48 + d else 87 + d) \<and> (if d < 10 then 48 + d else 87 + d) \<le> 102)"
    if "d < 16" for d :: nat
    using that by simp
  then show "c \<in> set (hex_digits k n) \<Longrightarrow> ?thesis"
    by (auto simp: hex_digits_def Let_def)
qed

lemma length_sha_block: "length hs = 8 \<Longrightarrow> length (sha_block hs block) = 8"
proof -
  have "length (foldl sha_round hs xs) = length hs" for xs
    by (induction xs arbitrary: hs) (auto simp: sha_round_def Let_def split: list.split)
  then show "length hs = 8 \<Longrightarrow> ?thesis" by (simp add: sha_block_def Let_def)
qed

lemma length_sha256 [simp]: "length (sha256 bytes) = 8"
proof -
  have "length (foldl sha_block hs bs) = 8" if "length hs = 8" for hs bs
    using that by (induction bs arbitrary: hs) (simp_all add: length_sha_block)
  then show ?thesis by (simp add: sha256_def Let_def sha_start_def)
qed

end
