(* ===== verification/Paths.thy ===== *)
theory Paths
  imports Prelude
begin

text \<open>
  \<open>pathlib.PurePosixPath\<close>: a path is kept as the text \<open>str\<close> gives it, and two paths are equal when
  those texts are. Making one drops empty and \<open>.\<close> components and a closing slash, and keeps \<open>..\<close>; of
  leading slashes one is kept, or two where there are exactly two.
\<close>

definition slash :: nat where "slash = 47"

text \<open>\<open>str.split\<close> at one character.\<close>

fun split_on :: "nat \<Rightarrow> pystr \<Rightarrow> pystr list" where
  "split_on c [] = [[]]"
| "split_on c (x # xs) =
     (if x = c then [] # split_on c xs
      else case split_on c xs of [] \<Rightarrow> [[x]] | w # ws \<Rightarrow> (x # w) # ws)"

definition path_root :: "pystr \<Rightarrow> pystr" where
  "path_root s =
     (if take 1 s \<noteq> [slash] then []
      else if take 2 s = [slash, slash] \<and> take 3 s \<noteq> [slash, slash, slash] then [slash, slash]
      else [slash])"

definition path_parts :: "pystr \<Rightarrow> pystr list" where
  "path_parts s = filter (\<lambda>p. p \<noteq> [] \<and> p \<noteq> [46]) (split_on slash (drop (length (path_root s)) s))"

definition path_text :: "pystr \<Rightarrow> pystr" where
  "path_text s =
     (let t = path_root s @ join [slash] (path_parts s) in if t = [] then [46] else t)"

definition is_absolute :: "pystr \<Rightarrow> bool" where
  "is_absolute s \<longleftrightarrow> s \<noteq> [] \<and> hd s = 47"

section \<open>A path's text is the text of that path\<close>

lemma split_on_not_Nil [simp]: "split_on c s \<noteq> []"
  by (induction s) (auto split: list.split)

lemma split_on_parts: "p \<in> set (split_on c s) \<Longrightarrow> c \<notin> set p"
  by (induction s arbitrary: p) (auto split: list.splits if_splits)

lemma split_on_word: "c \<notin> set p \<Longrightarrow> split_on c p = [p]"
  by (induction p) auto

lemma split_on_word_append: "c \<notin> set p \<Longrightarrow> split_on c (p @ c # s) = p # split_on c s"
  by (induction p) auto

lemma split_on_join: "ps \<noteq> [] \<Longrightarrow> \<forall>p\<in>set ps. c \<notin> set p \<Longrightarrow> split_on c (join [c] ps) = ps"
  by (induction "[c]" ps rule: join.induct) (simp_all add: split_on_word split_on_word_append)

definition plain_part :: "pystr \<Rightarrow> bool" where
  "plain_part p \<longleftrightarrow> p \<noteq> [] \<and> p \<noteq> [46] \<and> slash \<notin> set p"

lemma path_parts_plain: "\<forall>p\<in>set (path_parts s). plain_part p"
  using split_on_parts by (auto simp: path_parts_def plain_part_def)

lemma join_plain_hd:
  "ps \<noteq> [] \<Longrightarrow> \<forall>p\<in>set ps. plain_part p \<Longrightarrow> join [slash] ps \<noteq> [] \<and> hd (join [slash] ps) \<noteq> slash"
  by (cases "([slash], ps)" rule: join.cases) (auto simp: plain_part_def dest: hd_in_set)

lemma path_root_text:
  assumes "root = [] \<or> root = [slash] \<or> root = [slash, slash]"
    and "rest = [] \<or> hd rest \<noteq> slash"
  shows "path_root (root @ rest) = root"
  using assms by (cases rest) (auto simp: path_root_def slash_def)

lemma path_root_cases: "path_root s = [] \<or> path_root s = [slash] \<or> path_root s = [slash, slash]"
  by (simp add: path_root_def)

lemma path_parts_text:
  assumes "\<forall>p\<in>set ps. plain_part p" and "root = [] \<or> root = [slash] \<or> root = [slash, slash]"
  shows "path_parts (root @ join [slash] ps) = ps"
proof -
  have rest: "join [slash] ps = [] \<or> hd (join [slash] ps) \<noteq> slash"
    using join_plain_hd [of ps] assms(1) by (cases "ps = []") auto
  have "path_parts (root @ join [slash] ps) =
      filter (\<lambda>p. p \<noteq> [] \<and> p \<noteq> [46]) (split_on slash (join [slash] ps))"
    by (simp add: path_parts_def path_root_text [OF assms(2) rest])
  also have "\<dots> = ps"
  proof (cases "ps = []")
    case False
    then have "split_on slash (join [slash] ps) = ps"
      using assms(1) by (intro split_on_join) (auto simp: plain_part_def)
    then show ?thesis using assms(1) by (auto simp: plain_part_def intro!: filter_True)
  qed simp
  finally show ?thesis .
qed

lemma path_text_idem [simp]: "path_text (path_text s) = path_text s"
proof (cases "path_root s @ join [slash] (path_parts s) = []")
  case True
  then have "path_text s = [46]" by (simp add: path_text_def)
  moreover have "path_text [46] = [46]" by (simp add: path_text_def path_root_def path_parts_def slash_def)
  ultimately show ?thesis by simp
next
  case False
  let ?ps = "path_parts s" and ?root = "path_root s"
  have t: "path_text s = ?root @ join [slash] ?ps" using False by (simp add: path_text_def Let_def)
  have rest: "join [slash] ?ps = [] \<or> hd (join [slash] ?ps) \<noteq> slash"
    using join_plain_hd [of ?ps] path_parts_plain by (cases "?ps = []") auto
  have "path_root (path_text s) = ?root" unfolding t by (rule path_root_text [OF path_root_cases rest])
  moreover have "path_parts (path_text s) = ?ps"
    unfolding t by (rule path_parts_text [OF path_parts_plain path_root_cases])
  ultimately show ?thesis using False unfolding path_text_def [of "path_text s"] by (simp add: t)
qed

lemma path_text_absolute [simp]: "is_absolute (path_text s) \<longleftrightarrow> is_absolute s"
proof (cases "is_absolute s")
  case True
  then have "path_root s = [slash] \<or> path_root s = [slash, slash]"
    by (cases s) (auto simp: is_absolute_def path_root_def slash_def)
  with True show ?thesis by (auto simp: path_text_def is_absolute_def slash_def)
next
  case False
  then have "path_root s = []" by (cases s) (auto simp: is_absolute_def path_root_def slash_def)
  then have "path_text s = [46] \<or> hd (path_text s) \<noteq> slash"
    using join_plain_hd [of "path_parts s"] path_parts_plain
    by (cases "path_parts s = []") (auto simp: path_text_def Let_def)
  with False show ?thesis by (auto simp: is_absolute_def slash_def)
qed

lemma absolute_strip: "is_absolute s \<Longrightarrow> strip s \<noteq> []"
proof
  assume a: "is_absolute s" and s: "strip s = []"
  then obtain t where "s = 47 # t" by (cases s) (auto simp: is_absolute_def)
  moreover have "\<not> cp_isspace 47" by (simp add: cp_isspace_def)
  ultimately have "47 \<in> set (dropWhile cp_isspace (rev s))"
    by (simp add: dropWhile_append)
  with \<open>s = 47 # t\<close> \<open>\<not> cp_isspace 47\<close> s show False by (simp add: strip_def)
qed

end
