(* ===== verification/Playlists.thy ===== *)
theory Playlists
  imports Playlist_Cursor Store_Transaction Sha256 Paths "HOL-Library.List_Lexorder"
begin

text \<open>
  \<open>library/playlists.py\<close>: named lists of wallpapers, their identities, and the \<open>playlists.json\<close>
  document. The store's operations are in \<open>Playlist_Store\<close>. An entry keeps its source as text;
  the geometry of a drag on screen (floats) is not modelled.
\<close>

definition MIN_CYCLE_INTERVAL :: int where "MIN_CYCLE_INTERVAL = 5"
definition MAX_CYCLE_INTERVAL :: int where "MAX_CYCLE_INTERVAL = 24 * 60 * 60"
definition MAX_AUTHORED_PLAYLISTS :: nat where "MAX_AUTHORED_PLAYLISTS = 512"
definition MAX_DISPLAY_QUICK_CHOICES :: nat where "MAX_DISPLAY_QUICK_CHOICES = 64"

definition MAX_PLAYLISTS :: nat where
  "MAX_PLAYLISTS = MAX_AUTHORED_PLAYLISTS + MAX_DISPLAY_QUICK_CHOICES + 1"

definition MAX_PLAYLIST_ENTRIES :: nat where "MAX_PLAYLIST_ENTRIES = 10000"
definition MAX_PLAYLISTS_BYTES :: nat where "MAX_PLAYLISTS_BYTES = 8 * 1024 * 1024"
definition MAX_PLAYLIST_NAME :: nat where "MAX_PLAYLIST_NAME = 120"
definition MAX_IDENTIFIER_BYTES :: nat where "MAX_IDENTIFIER_BYTES = 256"
definition MAX_DISPLAY_CONNECTOR_BYTES :: nat where "MAX_DISPLAY_CONNECTOR_BYTES = 256"

definition RESERVED_IDENTITIES :: "(pystr \<times> pystr) list" where
  "RESERVED_IDENTITIES =
     [(lit ''all-media'', lit ''All media''), (lit ''quick-choice'', lit ''Quick choice'')]"

definition DISPLAY_QUICK_CHOICE_ID_PREFIX :: pystr where
  "DISPLAY_QUICK_CHOICE_ID_PREFIX = lit ''quick-choice:''"

text \<open>\<open>"Quick choice \<cdot> "\<close>, with the middle dot U+00B7.\<close>

definition DISPLAY_QUICK_CHOICE_NAME_PREFIX :: pystr where
  "DISPLAY_QUICK_CHOICE_NAME_PREFIX = lit ''Quick choice '' @ [183, 32]"

section \<open>Identities and names\<close>

definition starts_with :: "pystr \<Rightarrow> pystr \<Rightarrow> bool" where
  "starts_with p s \<longleftrightarrow> take (length p) s = p"

definition display_connector :: "pystr \<Rightarrow> unit result" where
  "display_connector c =
     (if \<not> encodable c then Inl (Err IdentityConflict)
      else if c = [] then Inl (Err IdentityConflict)
      else if MAX_DISPLAY_CONNECTOR_BYTES < utf8_len c then Inl (Err IdentityConflict)
      else if list_ex cp_isspace c then Inl (Err IdentityConflict)
      else if list_ex cp_control c then Inl (Err IdentityConflict)
      else Inr ())"

definition connector_digest :: "pystr \<Rightarrow> pystr" where
  "connector_digest c = take 16 (hexdigest (sha256 (utf8 c)))"

definition display_quick_choice_id :: "pystr \<Rightarrow> pystr result" where
  "display_quick_choice_id c =
     and_then (display_connector c) (\<lambda>_. Inr (DISPLAY_QUICK_CHOICE_ID_PREFIX @ connector_digest c))"

definition display_quick_choice_name :: "pystr \<Rightarrow> pystr result" where
  "display_quick_choice_name c =
     and_then (display_quick_choice_id c) (\<lambda>i.
       if length DISPLAY_QUICK_CHOICE_NAME_PREFIX + length c \<le> MAX_PLAYLIST_NAME
       then Inr (DISPLAY_QUICK_CHOICE_NAME_PREFIX @ c)
       else
         let suffix = [32, 183, 32] @ drop (length DISPLAY_QUICK_CHOICE_ID_PREFIX) i;
             available = MAX_PLAYLIST_NAME - length DISPLAY_QUICK_CHOICE_NAME_PREFIX - length suffix
         in Inr (DISPLAY_QUICK_CHOICE_NAME_PREFIX @ take available c @ suffix))"

definition tidy_playlist_name :: "pystr \<Rightarrow> pystr result" where
  "tidy_playlist_name raw =
     (let name = collapse raw
      in if name = [] then Inl (Err InvalidName)
         else if MAX_PLAYLIST_NAME < length name then Inl (Err InvalidName)
         else Inr name)"

definition is_generated_playlist_id :: "pystr \<Rightarrow> bool" where
  "is_generated_playlist_id i \<longleftrightarrow>
     casefold i = casefold (lit ''quick-choice'') \<or>
     starts_with (casefold DISPLAY_QUICK_CHOICE_ID_PREFIX) (casefold i)"

definition playlist_identifier :: "pystr \<Rightarrow> pystr result" where
  "playlist_identifier raw =
     (if \<not> encodable raw then Inl (Err IdentityConflict)
      else if strip raw = [] then Inl (Err IdentityConflict)
      else if raw \<noteq> strip raw then Inl (Err IdentityConflict)
      else if MAX_IDENTIFIER_BYTES < utf8_len raw then Inl (Err IdentityConflict)
      else if list_ex cp_control raw then Inl (Err IdentityConflict)
      else Inr raw)"

section \<open>Entries and playlists\<close>

record entry =
  entry_id :: pystr
  entry_source :: pystr

record playlist =
  pl_id :: pystr
  pl_name :: pystr
  pl_entries :: "entry list"
  pl_cycle :: "int option"
  pl_shuffle :: "bool option"

text \<open>\<open>Entry.path\<close>.\<close>

definition entry_path :: "entry \<Rightarrow> pystr" where
  "entry_path e = path_text (entry_source e)"

text \<open>\<open>drop_position\<close>: where a dragged entry goes, beside its anchor.\<close>

definition drop_position :: "pystr list \<Rightarrow> pystr \<Rightarrow> pystr option \<Rightarrow> bool \<Rightarrow> nat" where
  "drop_position entry_ids moving anchor after =
     (case (if anchor = Some moving then find_index (\<lambda>i. i = moving) entry_ids else None) of
        Some k \<Rightarrow> k
      | None \<Rightarrow>
          (let remaining = filter (\<lambda>i. i \<noteq> moving) entry_ids
           in case anchor of
                None \<Rightarrow> length remaining
              | Some a \<Rightarrow>
                  (case find_index (\<lambda>i. i = a) remaining of
                     None \<Rightarrow> length remaining
                   | Some p \<Rightarrow> if after then p + 1 else p)))"

text \<open>\<open>entry_id or new_id()\<close>: \<open>fresh\<close> is what \<open>new_id\<close> returns.\<close>

definition id_or_new :: "pystr option \<Rightarrow> pystr \<Rightarrow> pystr" where
  "id_or_new chosen fresh = (case chosen of None \<Rightarrow> fresh | Some i \<Rightarrow> if i = [] then fresh else i)"

definition with_added :: "pystr \<Rightarrow> pystr option \<Rightarrow> pystr \<Rightarrow> playlist \<Rightarrow> playlist result" where
  "with_added source chosen fresh p =
     (if MAX_PLAYLIST_ENTRIES \<le> length (pl_entries p) then Inl (Err Full)
      else Inr (p\<lparr>pl_entries := pl_entries p @
             [\<lparr>entry_id = id_or_new chosen fresh, entry_source = source\<rparr>]\<rparr>))"

definition without :: "pystr \<Rightarrow> playlist \<Rightarrow> playlist result" where
  "without i p =
     (let kept = filter (\<lambda>e. entry_id e \<noteq> i) (pl_entries p)
      in if length kept = length (pl_entries p) then Inl (Err NoSuchEntry)
         else Inr (p\<lparr>pl_entries := kept\<rparr>))"

definition moved :: "pystr \<Rightarrow> int \<Rightarrow> playlist \<Rightarrow> playlist result" where
  "moved i position p =
     (let remaining = filter (\<lambda>e. entry_id e \<noteq> i) (pl_entries p)
      in case find (\<lambda>e. entry_id e = i) (pl_entries p) of
           None \<Rightarrow> Inl (Err NoSuchEntry)
         | Some moving \<Rightarrow>
             Inr (p\<lparr>pl_entries := insert_at (clamp (length remaining) position) moving remaining\<rparr>))"

text \<open>\<open>{str(item.path): item for item in library}\<close>: the last item of a path stays.\<close>

definition by_path :: "'a media_item_scheme list \<Rightarrow> pystr \<Rightarrow> 'a media_item_scheme option" where
  "by_path library = map_of (rev (map (\<lambda>m. (item_path m, m)) library))"

definition resolve_entries :: "'a media_item_scheme list \<Rightarrow> playlist \<Rightarrow> 'a media_item_scheme list" where
  "resolve_entries library p = List.map_filter (\<lambda>e. by_path library (entry_source e)) (pl_entries p)"

definition missing :: "'a media_item_scheme list \<Rightarrow> playlist \<Rightarrow> pystr list" where
  "missing library p =
     filter (\<lambda>s. s \<notin> set (map item_path library)) (map entry_source (pl_entries p))"

section \<open>The document\<close>

definition entry_to_json :: "entry \<Rightarrow> json" where
  "entry_to_json e = JObj [(lit ''id'', JStr (entry_id e)), (lit ''source'', JStr (entry_source e))]"

definition playlist_to_json :: "playlist \<Rightarrow> dict" where
  "playlist_to_json p =
     [(lit ''id'', JStr (pl_id p)), (lit ''name'', JStr (pl_name p))] @
     (case pl_cycle p of None \<Rightarrow> [] | Some s \<Rightarrow> [(lit ''cycle_interval'', JInt s)]) @
     (case pl_shuffle p of None \<Rightarrow> [] | Some b \<Rightarrow> [(lit ''shuffle'', JBool b)]) @
     [(lit ''entries'', JArr (map entry_to_json (pl_entries p)))]"

definition valid_cycle_interval :: "json \<Rightarrow> bool" where
  "valid_cycle_interval v =
     (case v of JInt s \<Rightarrow> MIN_CYCLE_INTERVAL \<le> s \<and> s \<le> MAX_CYCLE_INTERVAL | _ \<Rightarrow> False)"

definition entry_of_json :: "json \<Rightarrow> entry option" where
  "entry_of_json raw =
     (case raw of
        JObj d \<Rightarrow>
          (case (map_of d (lit ''id''), map_of d (lit ''source'')) of
             (Some (JStr i), Some (JStr s)) \<Rightarrow>
               (if strip i = [] \<or> strip s = [] \<or> \<not> is_absolute s then None
                else Some \<lparr>entry_id = strip i, entry_source = s\<rparr>)
           | _ \<Rightarrow> None)
      | _ \<Rightarrow> None)"

text \<open>A rotation field: what is stored where it is usable.\<close>

definition stored_cycle :: "json option \<Rightarrow> int option" where
  "stored_cycle v =
     (case v of Some (JInt s) \<Rightarrow> (if valid_cycle_interval (JInt s) then Some s else None) | _ \<Rightarrow> None)"

definition stored_shuffle :: "json option \<Rightarrow> bool option" where
  "stored_shuffle v = (case v of Some (JBool b) \<Rightarrow> Some b | _ \<Rightarrow> None)"

definition stored_entries :: "json option \<Rightarrow> entry list" where
  "stored_entries v =
     (case v of
        Some (JArr xs) \<Rightarrow> List.map_filter entry_of_json (take MAX_PLAYLIST_ENTRIES xs)
      | _ \<Rightarrow> [])"

definition playlist_of_dict :: "dict \<Rightarrow> playlist option" where
  "playlist_of_dict d =
     (case (map_of d (lit ''id''), map_of d (lit ''name'')) of
        (Some (JStr i), Some (JStr n)) \<Rightarrow>
          (if strip i = [] \<or> strip n = [] then None
           else Some \<lparr>pl_id = strip i, pl_name = strip n,
             pl_entries = stored_entries (map_of d (lit ''entries'')),
             pl_cycle = stored_cycle (map_of d (lit ''cycle_interval'')),
             pl_shuffle = stored_shuffle (map_of d (lit ''shuffle''))\<rparr>)
      | _ \<Rightarrow> None)"

definition playlist_of_json :: "json \<Rightarrow> playlist option" where
  "playlist_of_json raw = (case raw of JObj d \<Rightarrow> playlist_of_dict d | _ \<Rightarrow> None)"

text \<open>A key that is absent reads as \<open>None\<close>, as \<open>null\<close> does.\<close>

definition rotation_fault :: "(json \<Rightarrow> bool) \<Rightarrow> json option \<Rightarrow> nat" where
  "rotation_fault P v =
     (case v of None \<Rightarrow> 0 | Some JNull \<Rightarrow> 0 | Some j \<Rightarrow> if P j then 0 else 1)"

definition invalid_rotation :: "dict \<Rightarrow> nat" where
  "invalid_rotation d =
     rotation_fault valid_cycle_interval (map_of d (lit ''cycle_interval'')) +
     rotation_fault is_bool (map_of d (lit ''shuffle''))"

text \<open>The loop of \<open>_parse\<close>: what it collects, and its body.\<close>

type_synonym authored = "(pystr \<times> playlist) list"

record tally =
  t_found :: authored
  t_faults :: "fault_item list"
  t_malformed :: nat
  t_rotation :: nat
  t_playlists :: nat
  t_entries :: nat

definition tally_entries :: "pystr \<Rightarrow> json option \<Rightarrow> tally \<Rightarrow> tally" where
  "tally_entries i v t =
     (case v of
        Some (JArr xs) \<Rightarrow>
          (let parsed = map entry_of_json (take MAX_PLAYLIST_ENTRIES xs);
               ids = map entry_id (List.map_filter (\<lambda>e. e) parsed)
           in t\<lparr>t_faults := t_faults t @
                  (if MAX_PLAYLIST_ENTRIES < length xs then [TooManyEntries i] else []),
                t_malformed := t_malformed t + length (filter (\<lambda>e. e = None) parsed),
                t_entries := t_entries t + (length ids - length (remdups ids))\<rparr>)
      | _ \<Rightarrow> t\<lparr>t_malformed := Suc (t_malformed t)\<rparr>)"

definition tally_playlist :: "dict \<Rightarrow> playlist \<Rightarrow> tally \<Rightarrow> tally" where
  "tally_playlist d p t =
     (let t1 = tally_entries (pl_id p) (map_of d (lit ''entries''))
                 (t\<lparr>t_rotation := t_rotation t + invalid_rotation d\<rparr>)
      in t1\<lparr>t_playlists := (if map_of (t_found t1) (pl_id p) \<noteq> None then Suc (t_playlists t1)
                            else t_playlists t1),
            t_found := AList.update (pl_id p) p (t_found t1)\<rparr>)"

definition parse_step :: "tally \<Rightarrow> json \<Rightarrow> tally" where
  "parse_step t raw =
     (case playlist_of_json raw of
        None \<Rightarrow> t\<lparr>t_malformed := Suc (t_malformed t)\<rparr>
      | Some p \<Rightarrow> (case raw of JObj d \<Rightarrow> tally_playlist d p t | _ \<Rightarrow> t))"

definition empty_tally :: "fault_item list \<Rightarrow> tally" where
  "empty_tally fs = \<lparr>t_found = [], t_faults = fs, t_malformed = 0, t_rotation = 0,
     t_playlists = 0, t_entries = 0\<rparr>"

definition tally_faults :: "tally \<Rightarrow> fault_item list" where
  "tally_faults t =
     t_faults t @
     (if t_malformed t = 0 then [] else [MalformedRecords (t_malformed t)]) @
     (if t_rotation t = 0 then [] else [InvalidRotations (t_rotation t)]) @
     (if t_playlists t = 0 then [] else [DuplicateRecords (t_playlists t)]) @
     (if t_entries t = 0 then [] else [DuplicateEntries (t_entries t)])"

definition parse_playlists :: "dict \<Rightarrow> authored \<times> fault option" where
  "parse_playlists payload =
     (let versions = (if declared_version 1 2 payload = None
                      then [UnsupportedVersion (stored_version payload)] else [])
      in case map_of payload (lit ''playlists'') of
           Some (JArr stored) \<Rightarrow>
             (let t = foldl parse_step
                        (empty_tally (versions @ (if MAX_PLAYLISTS < length stored then [TooMany] else [])))
                        (take MAX_PLAYLISTS stored)
              in (t_found t, joined_faults (tally_faults t)))
         | _ \<Rightarrow> ([], Some (ContentFault [NoRecords])))"

definition entry_shape :: shape where
  "entry_shape = Shape (map lit [''id'', ''source'']) (Some (lit ''id'')) True [] [] []"

definition playlist_shape :: shape where
  "playlist_shape = Shape (map lit [''id'', ''name'', ''cycle_interval'', ''shuffle''])
     (Some (lit ''id'')) True [(lit ''entries'', entry_shape)] [] []"

definition playlists_shape :: shape where
  "playlists_shape = Shape [lit ''version''] None False [(lit ''playlists'', playlist_shape)] [] []"

definition read_playlists :: "node \<Rightarrow> authored reading result" where
  "read_playlists n =
     (case read_object MAX_PLAYLISTS_BYTES n of
        (None, fault) \<Rightarrow>
          Inr \<lparr>r_value = [], r_fault = fault, r_newer = False, r_unknown = nothing_unknown,
               r_version = None\<rparr>
      | (Some payload, _) \<Rightarrow>
          (let (found, fault) = parse_playlists payload;
               unknown = capture_unknown playlists_shape payload
           in case newer_version_fault 2 payload of
                Some newer \<Rightarrow>
                  Inr \<lparr>r_value = found, r_fault = Some newer, r_newer = True, r_unknown = unknown,
                       r_version = None\<rparr>
              | None \<Rightarrow>
                  Inr \<lparr>r_value = found, r_fault = fault, r_newer = False, r_unknown = unknown,
                       r_version = declared_version 1 2 payload\<rparr>))"

definition playlists_read_cleanly :: "node \<Rightarrow> bool result" where
  "playlists_read_cleanly n =
     map_sum id (\<lambda>r. r_fault r = None \<and> r_version r \<noteq> None) (read_playlists n)"

definition playlists_record_ids :: "nat \<Rightarrow> content \<Rightarrow> pystr list option" where
  "playlists_record_ids bytes c =
     (case (if MAX_PLAYLISTS_BYTES < bytes then (None, Some (ContentFault [TooLarge]))
            else decode_content c) of
        (Some document, None) \<Rightarrow>
          (let (found, fault) = parse_playlists document
           in if fault \<noteq> None then None else Some (map fst found))
      | _ \<Rightarrow> None)"

definition playlists_saved_by_newer_version :: "node \<Rightarrow> bool result" where
  "playlists_saved_by_newer_version n = map_sum id r_newer (read_playlists n)"

definition held_playlist_ids :: "node \<Rightarrow> pystr list option result" where
  "held_playlist_ids n =
     map_sum id (\<lambda>r. if r_fault r \<noteq> None \<or> r_version r = None then None
                       else Some (map fst (r_value r))) (read_playlists n)"

definition load_playlists :: "node \<Rightarrow> authored result" where
  "load_playlists n = map_sum id r_value (read_playlists n)"

text \<open>\<open>[playlists[key].to_json() for key in sorted(playlists)]\<close>; Python orders texts by code point.\<close>

definition in_key_order :: "authored \<Rightarrow> authored" where
  "in_key_order d = sort_key fst d"

definition playlists_document :: "authored \<Rightarrow> unknown \<Rightarrow> dict result" where
  "playlists_document d u =
     Inr (merge_unknown u playlists_shape
       [(lit ''version'', JInt 2),
        (lit ''playlists'', JArr (map (\<lambda>(k, p). JObj (playlist_to_json p)) (in_key_order d)))])"

definition playlist_ops :: "authored store_ops" where
  "playlist_ops = \<lparr>op_read = read_playlists, op_document = playlists_document,
     op_max = MAX_PLAYLISTS_BYTES, op_early = False, op_missing = [NoSuchPlaylist, NoSuchEntry],
     op_catches_unicode = False\<rparr>"

lemma playlist_ops_simps [simp]:
  "op_read playlist_ops = read_playlists" "op_document playlist_ops = playlists_document"
  "op_max playlist_ops = MAX_PLAYLISTS_BYTES" "\<not> op_early playlist_ops"
  "op_missing playlist_ops = [NoSuchPlaylist, NoSuchEntry]" "\<not> op_catches_unicode playlist_ops"
  by (simp_all add: playlist_ops_def)

text \<open>\<open>save\<close>, \<open>Store.open\<close>, \<open>Store.worker_copy\<close> and \<open>Store.durable_problem\<close> of \<open>playlists.py\<close>.\<close>

definition save_playlists :: "env \<Rightarrow> authored \<Rightarrow> unknown \<Rightarrow> world \<Rightarrow> unit result \<times> world" where
  "save_playlists env v u w = save_document playlist_ops env v u w"

definition open_playlists :: "world \<Rightarrow> authored store result" where
  "open_playlists w = open_store playlist_ops w"

definition worker_copy_playlists :: "bool \<Rightarrow> authored store \<Rightarrow> world \<Rightarrow> authored store result" where
  "worker_copy_playlists rebase st w = worker_copy playlist_ops rebase st w"

definition playlists_durable_problem :: "world \<Rightarrow> error_kind option result" where
  "playlists_durable_problem w = durable_problem playlist_ops w"

end
