(* ===== verification/Playlist_Codec.thy ===== *)
theory Playlist_Codec
  imports Playlists
begin

text \<open>
  The playlists document reads back: the invariant of an entry, of a playlist and of the map, the
  round trip of a playlist, and the interpretation of \<open>authoring_store\<close> on the reader and renderer
  of \<open>playlists.py\<close>. The document lists the playlists by id, so what reads back is the same map.
\<close>

section \<open>Well-formed playlists\<close>

definition wf_entry :: "entry \<Rightarrow> bool" where
  "wf_entry e \<longleftrightarrow>
     entry_id e \<noteq> [] \<and> strip (entry_id e) = entry_id e \<and>
     strip (entry_source e) \<noteq> [] \<and> is_absolute (entry_source e)"

definition wf_playlist :: "playlist \<Rightarrow> bool" where
  "wf_playlist p \<longleftrightarrow>
     pl_id p \<noteq> [] \<and> strip (pl_id p) = pl_id p \<and> pl_name p \<noteq> [] \<and> strip (pl_name p) = pl_name p \<and>
     list_all wf_entry (pl_entries p) \<and> length (pl_entries p) \<le> MAX_PLAYLIST_ENTRIES \<and>
     (case pl_cycle p of None \<Rightarrow> True | Some s \<Rightarrow> valid_cycle_interval (JInt s))"

definition wf_authored :: "authored \<Rightarrow> bool" where
  "wf_authored d \<longleftrightarrow> distinct (map fst d) \<and> list_all (\<lambda>(k, p). pl_id p = k \<and> wf_playlist p) d"

text \<open>What a map read without a fault satisfies beside it.\<close>

definition distinct_entries :: "playlist \<Rightarrow> bool" where
  "distinct_entries p \<longleftrightarrow> distinct (map entry_id (pl_entries p))"

definition clean_authored :: "authored \<Rightarrow> bool" where
  "clean_authored d \<longleftrightarrow> length d \<le> MAX_PLAYLISTS \<and> list_all (\<lambda>(k, p). distinct_entries p) d"

lemma wf_authoredD:
  "wf_authored d \<Longrightarrow> (k, p) \<in> set d \<Longrightarrow> pl_id p = k \<and> wf_playlist p"
  "wf_authored d \<Longrightarrow> map_of d k = Some p \<Longrightarrow> pl_id p = k \<and> wf_playlist p"
  by (auto simp: wf_authored_def list_all_iff dest: map_of_SomeD)

lemma clean_authoredD: "clean_authored d \<Longrightarrow> map_of d k = Some p \<Longrightarrow> distinct_entries p"
  by (auto simp: clean_authored_def list_all_iff dest: map_of_SomeD)

section \<open>Maps changed by key\<close>

lemma set_AList_update: "set (AList.update k v d) \<subseteq> insert (k, v) (set d)"
  by (induction d) auto

lemma length_AList_update:
  "length (AList.update k v d) = (if map_of d k = None then Suc (length d) else length d)"
  by (induction d) auto

lemma set_AList_delete: "set (AList.delete k d) \<subseteq> set d"
  by (auto simp: AList.delete_eq)

lemma wf_authored_update: "wf_authored d \<Longrightarrow> wf_playlist p \<Longrightarrow> wf_authored (AList.update (pl_id p) p d)"
  using set_AList_update [of "pl_id p" p d]
  by (auto simp: wf_authored_def list_all_iff intro: distinct_update)

lemma wf_authored_delete: "wf_authored d \<Longrightarrow> wf_authored (AList.delete k d)"
  using set_AList_delete [of k d]
  by (auto simp: wf_authored_def list_all_iff intro: distinct_delete)

section \<open>One playlist\<close>

lemma stored_entries_to_json:
  assumes "list_all wf_entry es" "length es \<le> MAX_PLAYLIST_ENTRIES"
  shows "stored_entries (Some (JArr (map entry_to_json es))) = es"
proof -
  have "entry_of_json (entry_to_json e) = Some e" if "wf_entry e" for e
    using that by (simp add: entry_of_json_def entry_to_json_def wf_entry_def)
  then have "List.map_filter entry_of_json (map entry_to_json es) = es"
    using assms(1) by (induction es) (simp_all add: List.map_filter_simps)
  with assms(2) show ?thesis by (simp add: stored_entries_def)
qed

lemma playlist_to_json_lookup:
  "map_of (playlist_to_json p) (lit ''id'') = Some (JStr (pl_id p))"
  "map_of (playlist_to_json p) (lit ''name'') = Some (JStr (pl_name p))"
  "map_of (playlist_to_json p) (lit ''cycle_interval'') = map_option JInt (pl_cycle p)"
  "map_of (playlist_to_json p) (lit ''shuffle'') = map_option JBool (pl_shuffle p)"
  "map_of (playlist_to_json p) (lit ''entries'') = Some (JArr (map entry_to_json (pl_entries p)))"
  by (auto simp: playlist_to_json_def map_of_append map_add_def split: option.splits)

lemma playlist_of_dict_to_json: "wf_playlist p \<Longrightarrow> playlist_of_dict (playlist_to_json p) = Some p"
  unfolding playlist_of_dict_def playlist_to_json_lookup
  by (cases "pl_cycle p"; cases "pl_shuffle p")
    (simp_all add: wf_playlist_def stored_entries_to_json stored_cycle_def stored_shuffle_def)

lemma invalid_rotation_to_json: "wf_playlist p \<Longrightarrow> invalid_rotation (playlist_to_json p) = 0"
  unfolding invalid_rotation_def playlist_to_json_lookup
  by (cases "pl_cycle p"; cases "pl_shuffle p") (simp_all add: rotation_fault_def wf_playlist_def)

lemma tally_entries_to_json:
  assumes "list_all wf_entry es" "length es \<le> MAX_PLAYLIST_ENTRIES" "distinct (map entry_id es)"
  shows "tally_entries i (Some (JArr (map entry_to_json es))) t = t"
proof -
  have "entry_of_json (entry_to_json e) = Some e" if "e \<in> set es" for e
    using that assms(1) by (simp add: entry_of_json_def entry_to_json_def wf_entry_def list_all_iff)
  then have parsed: "map entry_of_json (map entry_to_json es) = map Some es" by simp
  have kept: "List.map_filter (\<lambda>e. e) (map Some es) = es"
    by (induction es) (simp_all add: List.map_filter_simps)
  have full: "take MAX_PLAYLIST_ENTRIES (map entry_to_json es) = map entry_to_json es"
    using assms(2) by simp
  show ?thesis
    unfolding tally_entries_def
    by (simp only: option.case json.case full parsed kept Let_def)
      (use assms in \<open>simp add: distinct_remdups_id filter_empty_conv\<close>)
qed

lemma parse_step_to_json:
  assumes "wf_playlist p" "distinct_entries p" "map_of (t_found t) (pl_id p) = None"
  shows "parse_step t (JObj (playlist_to_json p)) = t\<lparr>t_found := t_found t @ [(pl_id p, p)]\<rparr>"
proof -
  have e: "tally_entries (pl_id p) (Some (JArr (map entry_to_json (pl_entries p)))) u = u" for u
    using assms(1,2) by (simp add: tally_entries_to_json wf_playlist_def distinct_entries_def)
  have "AList.update (pl_id p) p d = d @ [(pl_id p, p)]" if "map_of d (pl_id p) = None" for d
    using that by (induction d) (auto split: if_splits)
  with assms show ?thesis
    by (simp add: parse_step_def playlist_of_json_def playlist_of_dict_to_json tally_playlist_def
        playlist_to_json_lookup e invalid_rotation_to_json Let_def)
qed

lemma parse_rendered:
  assumes "wf_authored d" "list_all (\<lambda>(k, p). distinct_entries p) d"
    and "fst ` set d \<inter> fst ` set (t_found t) = {}"
  shows "foldl parse_step t (map (\<lambda>(k, p). JObj (playlist_to_json p)) d) = t\<lparr>t_found := t_found t @ d\<rparr>"
  using assms
proof (induction d arbitrary: t)
  case (Cons kp d)
  obtain p where kp: "kp = (pl_id p, p)" and p: "wf_playlist p" "distinct_entries p"
    using Cons.prems by (cases kp) (auto simp: wf_authored_def)
  have "map_of (t_found t) (pl_id p) = None"
    using Cons.prems(3) kp by (auto simp: map_of_eq_None_iff)
  then have "parse_step t (JObj (playlist_to_json p)) = t\<lparr>t_found := t_found t @ [kp]\<rparr>"
    using parse_step_to_json p kp by simp
  moreover have "fst ` set d \<inter> fst ` set (t_found (t\<lparr>t_found := t_found t @ [kp]\<rparr>)) = {}"
    using Cons.prems by (auto simp: wf_authored_def)
  moreover have "wf_authored d" "list_all (\<lambda>(k, p). distinct_entries p) d"
    using Cons.prems by (auto simp: wf_authored_def)
  ultimately show ?case using Cons.IH kp by simp
qed simp

section \<open>Unknown fields do not change what is read\<close>

lemma project_playlist_keys:
  "map_of (project playlist_shape d) (lit ''id'') = map_of d (lit ''id'')"
  "map_of (project playlist_shape d) (lit ''name'') = map_of d (lit ''name'')"
  "map_of (project playlist_shape d) (lit ''cycle_interval'') = map_of d (lit ''cycle_interval'')"
  "map_of (project playlist_shape d) (lit ''shuffle'') = map_of d (lit ''shuffle'')"
  by (rule project_plain; simp add: playlist_shape_def models_def)+

lemma project_playlist_entries:
  "map_of (project playlist_shape d) (lit ''entries'') =
     map_option (project_value (project_json (project entry_shape))) (map_of d (lit ''entries''))"
  by (rule project_records) (simp add: playlist_shape_def)

lemma entry_of_json_project: "entry_of_json (project_json (project entry_shape) j) = entry_of_json j"
proof -
  have "map_of (project entry_shape d) (lit ''id'') = map_of d (lit ''id'')"
    "map_of (project entry_shape d) (lit ''source'') = map_of d (lit ''source'')" for d
    by (rule project_plain; simp add: entry_shape_def models_def)+
  then show ?thesis by (cases j) (simp_all add: entry_of_json_def project_json_def)
qed

lemma map_filter_project:
  "List.map_filter entry_of_json (map (project_json (project entry_shape)) xs) =
     List.map_filter entry_of_json xs"
  by (induction xs) (simp_all add: List.map_filter_simps entry_of_json_project split: option.split)

lemma stored_entries_project:
  "stored_entries (map_option (project_value (project_json (project entry_shape))) v) = stored_entries v"
  by (cases v) (auto simp: stored_entries_def project_value_def take_map map_filter_project
      split: json.splits)

lemma tally_entries_project:
  "tally_entries i (map_option (project_value (project_json (project entry_shape))) v) t =
     tally_entries i v t"
  by (cases v) (auto simp: tally_entries_def project_value_def take_map o_def entry_of_json_project
      split: json.splits)

lemma parse_step_project: "parse_step t (project_json (project playlist_shape) j) = parse_step t j"
proof (cases j)
  case (JObj d)
  have "playlist_of_dict (project playlist_shape d) = playlist_of_dict d"
    unfolding playlist_of_dict_def project_playlist_keys project_playlist_entries
      stored_entries_project ..
  moreover have "tally_playlist (project playlist_shape d) p t = tally_playlist d p t" for p
    by (simp add: tally_playlist_def invalid_rotation_def project_playlist_keys
        project_playlist_entries tally_entries_project)
  ultimately show ?thesis using JObj
    by (simp add: parse_step_def playlist_of_json_def project_json_def split: option.split)
qed (simp_all add: project_json_def)

lemma foldl_parse_project:
  "foldl parse_step t (map (project_json (project playlist_shape)) xs) = foldl parse_step t xs"
  by (induction xs arbitrary: t) (simp_all add: parse_step_project)

lemma playlists_shape_flat: "no_objects playlists_shape"
  by (simp add: playlists_shape_def playlist_shape_def entry_shape_def)

lemma playlists_keys:
  "map_of (project playlists_shape d) (lit ''version'') = map_of d (lit ''version'')"
  "map_of (project playlists_shape d) (lit ''playlists'') =
     map_option (project_value (project_json (project playlist_shape))) (map_of d (lit ''playlists''))"
  by (rule project_plain; simp add: playlists_shape_def models_def)
    (rule project_records; simp add: playlists_shape_def)

lemma parse_playlists_project: "parse_playlists (project playlists_shape d) = parse_playlists d"
proof (cases "\<exists>xs. map_of d (lit ''playlists'') = Some (JArr xs)")
  case True
  then obtain xs where "map_of d (lit ''playlists'') = Some (JArr xs)" by blast
  then show ?thesis
    by (simp add: parse_playlists_def playlists_keys project_value_def take_map foldl_parse_project
        declared_version_def stored_version_def)
next
  case False
  then show ?thesis
    by (auto simp: parse_playlists_def playlists_keys project_value_def split: option.splits json.splits)
qed

lemma playlists_version_project:
  "newer_version_fault n (project playlists_shape d) = newer_version_fault n d"
  "declared_version a b (project playlists_shape d) = declared_version a b d"
  by (simp_all add: newer_version_fault_def declared_version_def playlists_keys)

section \<open>What the reader returns\<close>

lemma entry_of_json_wf: "entry_of_json j = Some e \<Longrightarrow> wf_entry e"
  by (auto simp: entry_of_json_def wf_entry_def split: json.splits option.splits if_splits)

lemma stored_entries_wf:
  "list_all wf_entry (stored_entries v) \<and> length (stored_entries v) \<le> MAX_PLAYLIST_ENTRIES"
proof -
  have "list_all wf_entry (List.map_filter entry_of_json xs)" for xs
    by (auto simp: List.map_filter_def list_all_iff dest: entry_of_json_wf)
  moreover have "length (List.map_filter f xs) \<le> length xs" for f :: "json \<Rightarrow> entry option" and xs
    by (simp add: List.map_filter_def)
  then have "length (List.map_filter entry_of_json (take MAX_PLAYLIST_ENTRIES xs)) \<le> MAX_PLAYLIST_ENTRIES"
    for xs by (metis length_take min.bounded_iff order_trans order_refl)
  ultimately show ?thesis by (simp add: stored_entries_def split: option.split json.split)
qed

lemma playlist_of_json_wf: "playlist_of_json j = Some p \<Longrightarrow> wf_playlist p"
  using stored_entries_wf
  by (auto simp: playlist_of_json_def playlist_of_dict_def wf_playlist_def stored_cycle_def
      split: json.splits option.splits if_splits)

text \<open>A playlist whose entries the reader counted no duplicate in has none.\<close>

lemma length_remdups_distinct: "length xs - length (remdups xs) = 0 \<longleftrightarrow> distinct xs"
proof
  assume "length xs - length (remdups xs) = 0"
  then have "length (remdups xs) = length xs" using length_remdups_leq [of xs] by simp
  then show "distinct xs" by simp
qed (simp add: distinct_remdups_id)

lemma le_add_diff_le: "(c :: nat) \<le> b \<Longrightarrow> a \<le> a + b - c"
  by simp

lemma tally_entries_frame:
  "t_found (tally_entries i v t) = t_found t" "t_entries t \<le> t_entries (tally_entries i v t)"
  by (auto simp: tally_entries_def Let_def split: option.split json.split
      simp flip: length_map [of entry_id] simp del: length_map
      intro!: le_add_diff_le length_remdups_leq)

lemma tally_entries_none:
  assumes "t_entries (tally_entries i v t) = 0"
  shows "distinct (map entry_id (stored_entries v))"
proof (cases "\<exists>xs. v = Some (JArr xs)")
  case True
  then obtain xs where v: "v = Some (JArr xs)" by blast
  have "List.map_filter (\<lambda>e. e) (map entry_of_json ys) = List.map_filter entry_of_json ys" for ys
    by (induction ys) (simp_all add: List.map_filter_simps split: option.split)
  with assms v have "distinct (map entry_id (List.map_filter entry_of_json (take MAX_PLAYLIST_ENTRIES xs)))"
    by (simp add: tally_entries_def Let_def length_remdups_distinct [symmetric])
  with v show ?thesis by (simp add: stored_entries_def)
next
  case False
  then show ?thesis by (auto simp: stored_entries_def split: option.splits json.splits)
qed

definition tally_ok :: "tally \<Rightarrow> bool" where
  "tally_ok t \<longleftrightarrow> wf_authored (t_found t) \<and>
     (t_entries t = 0 \<longrightarrow> list_all (\<lambda>(k, p). distinct_entries p) (t_found t))"

lemma parse_step_ok:
  assumes "tally_ok t"
  shows "tally_ok (parse_step t j) \<and> t_entries t \<le> t_entries (parse_step t j) \<and>
    length (t_found (parse_step t j)) \<le> Suc (length (t_found t))"
proof (cases "playlist_of_json j")
  case None
  with assms show ?thesis by (simp add: parse_step_def tally_ok_def)
next
  case (Some p)
  then obtain d where d: "j = JObj d" "playlist_of_dict d = Some p"
    by (auto simp: playlist_of_json_def split: json.splits)
  have entries: "pl_entries p = stored_entries (map_of d (lit ''entries''))"
    using d(2) by (auto simp: playlist_of_dict_def split: option.splits json.splits if_splits)
  let ?t = "t\<lparr>t_rotation := t_rotation t + invalid_rotation d\<rparr>"
  let ?u = "tally_entries (pl_id p) (map_of d (lit ''entries'')) ?t"
  have step: "t_found (parse_step t j) = AList.update (pl_id p) p (t_found t)"
    "t_entries (parse_step t j) = t_entries ?u"
    using d by (simp_all add: parse_step_def playlist_of_json_def tally_playlist_def Let_def
        tally_entries_frame)
  have wf: "wf_authored (AList.update (pl_id p) p (t_found t))"
    using assms wf_authored_update playlist_of_json_wf [OF Some] by (simp add: tally_ok_def)
  have le: "t_entries t \<le> t_entries ?u" using tally_entries_frame(2) [of ?t] by simp
  have "list_all (\<lambda>(k, p). distinct_entries p) (AList.update (pl_id p) p (t_found t))"
    if "t_entries ?u = 0"
  proof -
    have "distinct_entries p" using tally_entries_none [OF that] entries by (simp add: distinct_entries_def)
    moreover have "list_all (\<lambda>(k, p). distinct_entries p) (t_found t)"
      using assms that le by (simp add: tally_ok_def)
    ultimately show ?thesis
      using set_AList_update [of "pl_id p" p "t_found t"] by (auto simp: list_all_iff)
  qed
  with wf le step show ?thesis by (simp add: tally_ok_def length_AList_update)
qed

lemma foldl_parse_ok:
  assumes "tally_ok t"
  shows "tally_ok (foldl parse_step t xs) \<and> t_entries t \<le> t_entries (foldl parse_step t xs) \<and>
    length (t_found (foldl parse_step t xs)) \<le> length (t_found t) + length xs"
  using assms
proof (induction xs arbitrary: t)
  case (Cons x xs)
  from parse_step_ok [OF Cons.prems, of x] Cons.IH [of "parse_step t x"] show ?case by fastforce
qed simp

lemma parse_playlists_ok:
  assumes "parse_playlists d = (found, f)"
  shows "wf_authored found" and "f = None \<Longrightarrow> clean_authored found"
proof -
  have "wf_authored found \<and> (f = None \<longrightarrow> clean_authored found)"
  proof (cases "\<exists>xs. map_of d (lit ''playlists'') = Some (JArr xs)")
    case True
    then obtain xs where xs: "map_of d (lit ''playlists'') = Some (JArr xs)" by blast
    let ?fs = "(if declared_version 1 2 d = None then [UnsupportedVersion (stored_version d)] else []) @
      (if MAX_PLAYLISTS < length xs then [TooMany] else [])"
    let ?t = "foldl parse_step (empty_tally ?fs) (take MAX_PLAYLISTS xs)"
    have start: "tally_ok (empty_tally ?fs)" "t_found (empty_tally ?fs) = []"
      by (simp_all add: tally_ok_def empty_tally_def wf_authored_def)
    have t: "tally_ok ?t" "length (t_found ?t) \<le> MAX_PLAYLISTS"
      using foldl_parse_ok [OF start(1), of "take MAX_PLAYLISTS xs"] start(2) by auto
    have found: "found = t_found ?t" and f: "f = joined_faults (tally_faults ?t)"
      using assms xs by (simp_all add: parse_playlists_def Let_def)
    have "t_entries ?t = 0" if "f = None"
      using that f by (auto simp: joined_faults_def tally_faults_def split: if_splits)
    with t found show ?thesis by (auto simp: tally_ok_def clean_authored_def)
  next
    case False
    then have "found = []" "f \<noteq> None"
      using assms by (auto simp: parse_playlists_def split: option.splits json.splits)
    then show ?thesis by (auto simp: wf_authored_def)
  qed
  then show "wf_authored found" and "f = None \<Longrightarrow> clean_authored found" by blast+
qed

section \<open>The map reads back\<close>

lemma set_in_key_order [simp]: "set (in_key_order d) = set d"
  by (simp add: in_key_order_def)

lemma mset_in_key_order: "mset (in_key_order d) = mset d"
  by (simp add: in_key_order_def)

lemma distinct_in_key_order: "distinct (map fst (in_key_order d)) \<longleftrightarrow> distinct (map fst d)"
  by (rule mset_eq_imp_distinct_iff) (simp add: mset_in_key_order)

lemma map_of_in_key_order: "distinct (map fst d) \<Longrightarrow> map_of (in_key_order d) = map_of d"
  using distinct_in_key_order map_of_inject_set set_in_key_order by metis

lemma in_key_order_ok:
  "wf_authored (in_key_order d) \<longleftrightarrow> wf_authored d"
  "clean_authored (in_key_order d) \<longleftrightarrow> clean_authored d"
  using distinct_in_key_order [of d] mset_in_key_order [of d]
  by (simp_all add: wf_authored_def clean_authored_def list_all_iff) (metis size_mset)

definition plain_playlists :: "authored \<Rightarrow> dict" where
  "plain_playlists d =
     [(lit ''version'', JInt 2),
      (lit ''playlists'', JArr (map (\<lambda>(k, p). JObj (playlist_to_json p)) (in_key_order d)))]"

lemma parse_plain_playlists:
  assumes "wf_authored d" "clean_authored d"
  shows "parse_playlists (plain_playlists d) = (in_key_order d, None)"
proof -
  have ok: "wf_authored (in_key_order d)" "list_all (\<lambda>(k, p). distinct_entries p) (in_key_order d)"
    and len: "length (in_key_order d) \<le> MAX_PLAYLISTS"
    using assms in_key_order_ok [of d] by (simp_all add: clean_authored_def)
  have "foldl parse_step (empty_tally []) (map (\<lambda>(k, p). JObj (playlist_to_json p)) (in_key_order d)) =
      (empty_tally [])\<lparr>t_found := in_key_order d\<rparr>"
    using parse_rendered [OF ok, of "empty_tally []"] by (simp add: empty_tally_def)
  with len show ?thesis
    by (simp add: parse_playlists_def plain_playlists_def declared_version_def empty_tally_def
        tally_faults_def joined_faults_def)
qed

lemma read_playlists_written:
  assumes "wf_authored v" "clean_authored v" "playlists_document v u = Inr d"
    and "bytes \<le> MAX_PLAYLISTS_BYTES" "json_encodable (JObj d)"
  shows "read_playlists (Regular bytes (Decoded (JObj d))) =
    Inr \<lparr>r_value = in_key_order v, r_fault = None, r_newer = False,
         r_unknown = capture_unknown playlists_shape d, r_version = Some 2\<rparr>"
proof -
  have p: "project playlists_shape d = project playlists_shape (plain_playlists v)"
    using assms(3) project_merge(1) [OF playlists_shape_flat]
    by (auto simp: playlists_document_def plain_playlists_def)
  have "parse_playlists d = (in_key_order v, None)"
    using parse_plain_playlists [OF assms(1,2)] parse_playlists_project p by metis
  moreover have "newer_version_fault 2 (plain_playlists v) = None"
    "declared_version 1 2 (plain_playlists v) = Some 2"
    by (simp_all add: newer_version_fault_def declared_version_def plain_playlists_def)
  then have "newer_version_fault 2 d = None" "declared_version 1 2 d = Some 2"
    using playlists_version_project p by metis+
  ultimately show ?thesis
    using assms(4,5) by (simp add: read_playlists_def read_object_def decode_content_def Let_def)
qed

lemma read_playlists_ok:
  assumes "read_playlists n = Inr r"
  shows "wf_authored (r_value r)" and "r_fault r = None \<Longrightarrow> clean_authored (r_value r)"
proof -
  have empty: "wf_authored []" "clean_authored []"
    by (simp_all add: wf_authored_def clean_authored_def)
  obtain payload f where o: "read_object MAX_PLAYLISTS_BYTES n = (payload, f)" by (cases "read_object MAX_PLAYLISTS_BYTES n")
  have "wf_authored (r_value r) \<and> (r_fault r = None \<longrightarrow> clean_authored (r_value r))"
  proof (cases payload)
    case None
    with assms o empty show ?thesis by (auto simp: read_playlists_def)
  next
    case (Some d)
    obtain found g where "parse_playlists d = (found, g)" by (cases "parse_playlists d")
    with assms o Some parse_playlists_ok [OF this] show ?thesis
      by (auto simp: read_playlists_def Let_def newer_version_fault_def split: option.splits json.splits if_splits)
  qed
  then show "wf_authored (r_value r)" and "r_fault r = None \<Longrightarrow> clean_authored (r_value r)" by blast+
qed

interpretation playlist: authoring_store playlist_ops wf_authored clean_authored map_of
proof unfold_locales
  show "op_read playlist_ops n = Inr r \<Longrightarrow> wf_authored (r_value r)" for n r
    by (simp add: read_playlists_ok)
  show "op_read playlist_ops n = Inr r \<Longrightarrow> r_fault r = None \<Longrightarrow> clean_authored (r_value r)" for n r
    by (simp add: read_playlists_ok)
  show "\<exists>r. op_read playlist_ops Absent = Inr r \<and> r_fault r = None \<and> \<not> r_newer r"
    by (simp add: read_playlists_def read_object_def)
  show "\<exists>r. op_read playlist_ops (Regular bytes (Decoded (JObj d))) = Inr r \<and> r_fault r = None \<and>
      \<not> r_newer r \<and> map_of (r_value r) = map_of v"
    if "wf_authored v" "clean_authored v" "op_document playlist_ops v u = Inr d"
      "bytes \<le> op_max playlist_ops" "json_encodable (JObj d)" for v u d bytes
    using read_playlists_written [of v u d bytes] that
    by (simp add: map_of_in_key_order wf_authored_def)
qed

end
