(* ===== verification/Playlist_Store.thy ===== *)
theory Playlist_Store
  imports Playlist_Codec
begin

text \<open>
  The operations of \<open>playlists.Store\<close>: lookups by id or name, the identity check, what each
  operation's inner function does to the playlists read under the lock, and the whole operation
  around it. Then what they keep of the invariant of the map.
\<close>

section \<open>Looking a playlist up\<close>

definition all_playlists :: "authored \<Rightarrow> playlist list" where
  "all_playlists d = sort_key (\<lambda>p. casefold (pl_name p)) (map snd d)"

definition by_name :: "authored \<Rightarrow> pystr \<Rightarrow> playlist option" where
  "by_name d name =
     find (\<lambda>p. casefold (pl_name p) = strip (casefold name)) (all_playlists d)"

text \<open>\<open>find\<close>, and its transaction-local equivalent \<open>_find_in\<close>.\<close>

definition find_in :: "authored \<Rightarrow> pystr \<Rightarrow> playlist result" where
  "find_in d reference =
     (case map_of d reference of
        Some p \<Rightarrow> Inr p
      | None \<Rightarrow> (case by_name d reference of Some p \<Rightarrow> Inr p | None \<Rightarrow> Inl (Err NoSuchPlaylist)))"

section \<open>The identity check\<close>

definition reserved_tokens :: "pystr list" where
  "reserved_tokens = concat (map (\<lambda>(i, n). [casefold i, casefold n]) RESERVED_IDENTITIES)"

definition reserved_display :: "pystr \<Rightarrow> pystr \<Rightarrow> bool" where
  "reserved_display i n \<longleftrightarrow>
     starts_with (casefold DISPLAY_QUICK_CHOICE_ID_PREFIX) (casefold i) \<or>
     starts_with (casefold DISPLAY_QUICK_CHOICE_NAME_PREFIX) (casefold n)"

text \<open>A candidate id or name is the id or the name of this playlist, in some letter case.\<close>

definition collides :: "pystr \<Rightarrow> pystr \<Rightarrow> playlist \<Rightarrow> bool" where
  "collides i n p \<longleftrightarrow>
     casefold i \<in> {casefold (pl_id p), casefold (pl_name p)} \<or>
     casefold n \<in> {casefold (pl_id p), casefold (pl_name p)}"

definition validate_identity ::
  "pystr \<Rightarrow> pystr \<Rightarrow> authored \<Rightarrow> pystr option \<Rightarrow> bool \<Rightarrow> bool \<Rightarrow> unit result"
where
  "validate_identity i n d replacing generated generated_display =
     (if \<not> (generated \<and> (i, n) \<in> set RESERVED_IDENTITIES) \<and> \<not> generated_display \<and>
         (casefold i \<in> set reserved_tokens \<or> casefold n \<in> set reserved_tokens \<or> reserved_display i n)
      then Inl (Err IdentityConflict)
      else if list_ex (\<lambda>(k, p). replacing \<noteq> Some (pl_id p) \<and> collides i n p) d
        then Inl (Err IdentityConflict)
      else Inr ())"

section \<open>What the inner functions do\<close>

text \<open>The checks of \<open>create\<close> on its entries, in order.\<close>

fun check_entries :: "pystr list \<Rightarrow> entry list \<Rightarrow> unit result" where
  "check_entries seen [] = Inr ()"
| "check_entries seen (e # es) =
     (if strip (entry_id e) = [] \<or> entry_id e \<noteq> strip (entry_id e) then Inl (Err Validation)
      else if entry_id e \<in> set seen then Inl (Err IdentityConflict)
      else if strip (entry_source e) = [] \<or> \<not> is_absolute (entry_source e) then Inl (Err Validation)
      else check_entries (entry_id e # seen) es)"

text \<open>A rotation value a caller passes: \<open>None\<close>, a usable one, or anything else.\<close>

definition given_cycle :: "json \<Rightarrow> int option result" where
  "given_cycle v =
     (if v = JNull then Inr None
      else if valid_cycle_interval v then Inr (case v of JInt s \<Rightarrow> Some s | _ \<Rightarrow> None)
      else Inl (Err Validation))"

definition given_shuffle :: "json \<Rightarrow> bool option result" where
  "given_shuffle v =
     (case v of JNull \<Rightarrow> Inr None | JBool b \<Rightarrow> Inr (Some b) | _ \<Rightarrow> Inl (Err Validation))"

text \<open>\<open>create\<close> before its transaction.\<close>

definition new_authored ::
  "pystr \<Rightarrow> pystr \<Rightarrow> pystr option \<Rightarrow> entry list \<Rightarrow> json \<Rightarrow> json \<Rightarrow> playlist result"
where
  "new_authored fresh name chosen entries cycle shuffle =
     and_then (case chosen of None \<Rightarrow> Inr fresh | Some i \<Rightarrow> playlist_identifier i) (\<lambda>identifier.
     and_then (tidy_playlist_name name) (\<lambda>tidy.
     and_then (check_entries [] entries) (\<lambda>_.
     if MAX_PLAYLIST_ENTRIES < length entries then Inl (Err Full)
     else and_then (given_cycle cycle) (\<lambda>interval.
       and_then (given_shuffle shuffle) (\<lambda>own.
         Inr \<lparr>pl_id = identifier, pl_name = tidy, pl_entries = entries, pl_cycle = interval,
              pl_shuffle = own\<rparr>)))))"

definition authored_count :: "authored \<Rightarrow> nat" where
  "authored_count d = length (filter (\<lambda>k. \<not> is_generated_playlist_id k) (map fst d))"

definition display_choice_count :: "authored \<Rightarrow> nat" where
  "display_choice_count d =
     length (filter (\<lambda>k. starts_with (casefold DISPLAY_QUICK_CHOICE_ID_PREFIX) (casefold k)) (map fst d))"

definition create_change :: "playlist \<Rightarrow> (authored, playlist) change" where
  "create_change p d =
     (if MAX_AUTHORED_PLAYLISTS \<le> authored_count d then Inl (Err Full)
      else and_then (validate_identity (pl_id p) (pl_name p) d None False False) (\<lambda>_.
        Inr (p, True, AList.update (pl_id p) p d)))"

definition renamed :: "pystr \<Rightarrow> pystr \<Rightarrow> (authored, playlist) change" where
  "renamed reference tidy d =
     and_then (find_in d reference) (\<lambda>p.
       if tidy = pl_name p then Inr (p, False, d)
       else if casefold (pl_id p) \<in> set (map (\<lambda>(i, n). casefold i) RESERVED_IDENTITIES) \<or>
           starts_with (casefold DISPLAY_QUICK_CHOICE_ID_PREFIX) (casefold (pl_id p))
         then Inl (Err IdentityConflict)
       else and_then (validate_identity (pl_id p) tidy d (Some (pl_id p)) False False) (\<lambda>_.
         Inr (p\<lparr>pl_name := tidy\<rparr>, True, AList.update (pl_id p) (p\<lparr>pl_name := tidy\<rparr>) d)))"

definition delete_change :: "pystr \<Rightarrow> (authored, bool) change" where
  "delete_change reference d =
     (case find_in d reference of
        Inl e \<Rightarrow> (if e \<noteq> Err NoSuchPlaylist then Inl e else Inr (False, False, d))
      | Inr p \<Rightarrow> Inr (True, True, AList.delete (pl_id p) d))"

text \<open>What most operations do: find the playlist, change it, put it back.\<close>

definition change_playlist ::
  "pystr \<Rightarrow> (playlist \<Rightarrow> (playlist \<times> bool) result) \<Rightarrow> (authored, playlist) change"
where
  "change_playlist reference f d =
     and_then (find_in d reference) (\<lambda>p.
       and_then (f p) (\<lambda>(updated, changed).
         Inr (updated, changed, AList.update (pl_id updated) updated d)))"

text \<open>The playlist a singleton operation leaves: a new one, or the existing one with its one entry.\<close>

definition singleton_made :: "pystr \<Rightarrow> pystr \<Rightarrow> entry \<Rightarrow> playlist option \<Rightarrow> playlist" where
  "singleton_made i name e existing =
     (case existing of
        None \<Rightarrow> \<lparr>pl_id = i, pl_name = name, pl_entries = [e], pl_cycle = None, pl_shuffle = None\<rparr>
      | Some p \<Rightarrow> p\<lparr>pl_name := name, pl_entries := [e]\<rparr>)"

definition display_singleton_made :: "pystr \<Rightarrow> pystr \<Rightarrow> entry \<Rightarrow> playlist option \<Rightarrow> playlist" where
  "display_singleton_made i name e existing =
     (case existing of
        None \<Rightarrow> \<lparr>pl_id = i, pl_name = name, pl_entries = [e], pl_cycle = None, pl_shuffle = None\<rparr>
      | Some p \<Rightarrow> p\<lparr>pl_entries := [e]\<rparr>)"

definition set_singleton_change ::
  "pystr \<Rightarrow> pystr \<Rightarrow> pystr \<Rightarrow> entry \<Rightarrow> (authored, playlist) change"
where
  "set_singleton_change i name tidy e d =
     (let generated_global = ((i, name) \<in> set RESERVED_IDENTITIES)
      in if map_of d i = None \<and> generated_global \<and> MAX_PLAYLISTS \<le> length d then Inl (Err Full)
         else if map_of d i = None \<and> \<not> generated_global \<and> MAX_AUTHORED_PLAYLISTS \<le> authored_count d
           then Inl (Err Full)
         else and_then (validate_identity i tidy d (Some i) True False) (\<lambda>_.
           let p = singleton_made i tidy e (map_of d i)
           in Inr (p, True, AList.update (pl_id p) p d)))"

definition set_display_change :: "pystr \<Rightarrow> pystr \<Rightarrow> entry \<Rightarrow> (authored, playlist) change" where
  "set_display_change i name e d =
     (if map_of d i \<noteq> None \<and> map_option pl_name (map_of d i) \<noteq> Some name
      then Inl (Err IdentityConflict)
      else if map_of d i = None \<and> MAX_DISPLAY_QUICK_CHOICES \<le> display_choice_count d
        then Inl (Err Full)
      else if map_of d i = None \<and> MAX_PLAYLISTS \<le> length d then Inl (Err Full)
      else and_then (validate_identity i name d (Some i) False True) (\<lambda>_.
        let p = display_singleton_made i name e (map_of d i)
        in Inr (p, True, AList.update (pl_id p) p d)))"

text \<open>\<open>KEEP\<close>, or a value for the field.\<close>

datatype 'a field_arg = Keep | Set 'a

definition checked_field :: "(json \<Rightarrow> 'a result) \<Rightarrow> json field_arg \<Rightarrow> 'a field_arg result" where
  "checked_field f v = (case v of Keep \<Rightarrow> Inr Keep | Set j \<Rightarrow> map_sum id Set (f j))"

definition field_value :: "'a field_arg \<Rightarrow> 'a \<Rightarrow> 'a" where
  "field_value v old = (case v of Keep \<Rightarrow> old | Set x \<Rightarrow> x)"

definition set_rotation_of ::
  "int option field_arg \<Rightarrow> bool option field_arg \<Rightarrow> playlist \<Rightarrow> (playlist \<times> bool) result"
where
  "set_rotation_of cycle shuffle p =
     (let updated = p\<lparr>pl_cycle := field_value cycle (pl_cycle p),
                      pl_shuffle := field_value shuffle (pl_shuffle p)\<rparr>
      in Inr (updated, updated \<noteq> p))"

fun place_entries :: "(int \<times> entry) list \<Rightarrow> entry list \<Rightarrow> entry list result" where
  "place_entries [] es = Inr es"
| "place_entries ((position, e) # rest) es =
     (if entry_id e \<in> entry_id ` set es then Inl (Err IdentityConflict)
      else place_entries rest (insert_at (clamp (length es) position) e es))"

fun check_placed :: "(int \<times> entry) list \<Rightarrow> unit result" where
  "check_placed [] = Inr ()"
| "check_placed ((position, e) # rest) =
     (if strip (entry_id e) = [] \<or> entry_id e \<noteq> strip (entry_id e) then Inl (Err Validation)
      else if strip (entry_source e) = [] \<or> \<not> is_absolute (entry_source e) then Inl (Err Validation)
      else check_placed rest)"

definition insert_entries_of :: "(int \<times> entry) list \<Rightarrow> playlist \<Rightarrow> (playlist \<times> bool) result" where
  "insert_entries_of wanted p =
     (if MAX_PLAYLIST_ENTRIES < length (pl_entries p) + length wanted then Inl (Err Full)
      else and_then (place_entries wanted (pl_entries p)) (\<lambda>es.
        Inr (p\<lparr>pl_entries := es\<rparr>, wanted \<noteq> [])))"

definition remove_entries_of :: "pystr list \<Rightarrow> playlist \<Rightarrow> (playlist \<times> bool) result" where
  "remove_entries_of wanted p =
     (if list_ex (\<lambda>i. i \<notin> entry_id ` set (pl_entries p)) wanted then Inl (Err NoSuchEntry)
      else Inr (p\<lparr>pl_entries := filter (\<lambda>e. entry_id e \<notin> set wanted) (pl_entries p)\<rparr>, wanted \<noteq> []))"

definition move_relative_of :: "pystr \<Rightarrow> int \<Rightarrow> playlist \<Rightarrow> (playlist \<times> bool) result" where
  "move_relative_of i step p =
     (case find_index (\<lambda>j. j = i) (map entry_id (pl_entries p)) of
        None \<Rightarrow> Inl (Err NoSuchEntry)
      | Some position \<Rightarrow>
          (let target = min (max (int position + step) 0) (int (length (pl_entries p)) - 1)
           in and_then (moved i target p) (\<lambda>updated. Inr (updated, target \<noteq> int position))))"

text \<open>Every entry naming the path goes, from every playlist: \<open>forget_path\<close>.\<close>

definition forget_source :: "pystr \<Rightarrow> playlist \<Rightarrow> playlist" where
  "forget_source source p = p\<lparr>pl_entries := filter (\<lambda>e. entry_source e \<noteq> source) (pl_entries p)\<rparr>"

definition forget_path_change :: "pystr \<Rightarrow> (authored, bool) change" where
  "forget_path_change source d =
     (let changed = list_ex (\<lambda>(k, p). length (pl_entries (forget_source source p)) \<noteq> length (pl_entries p)) d
      in Inr (changed, changed, map (\<lambda>(k, p). (k, forget_source source p)) d))"

section \<open>The operations\<close>

type_synonym 'r playlist_op = "authored store \<Rightarrow> world \<Rightarrow> 'r result \<times> authored store \<times> world"

definition mutate_playlists :: "env \<Rightarrow> bool \<Rightarrow> (authored, 'r) change \<Rightarrow> 'r playlist_op" where
  "mutate_playlists env refuse change = transact playlist_ops env refuse change"

text \<open>A check before the transaction: what it raises leaves everything as it is.\<close>

definition after_check :: "'a result \<Rightarrow> ('a \<Rightarrow> 'r playlist_op) \<Rightarrow> 'r playlist_op" where
  "after_check x k st w = (case x of Inl e \<Rightarrow> (Inl e, st, w) | Inr a \<Rightarrow> k a st w)"

definition create ::
  "env \<Rightarrow> pystr \<Rightarrow> pystr \<Rightarrow> pystr option \<Rightarrow> entry list \<Rightarrow> json \<Rightarrow> json \<Rightarrow> playlist playlist_op"
where
  "create env fresh name chosen entries cycle shuffle =
     after_check (new_authored fresh name chosen entries cycle shuffle) (\<lambda>p.
       mutate_playlists env False (create_change p))"

definition rename :: "env \<Rightarrow> pystr \<Rightarrow> pystr \<Rightarrow> playlist playlist_op" where
  "rename env reference name =
     after_check (tidy_playlist_name name) (\<lambda>tidy. mutate_playlists env True (renamed reference tidy))"

text \<open>\<open>rename_problem\<close>: the error \<open>rename\<close> would raise now, from the file as it is.\<close>

definition rename_problem :: "pystr \<Rightarrow> pystr \<Rightarrow> authored store \<Rightarrow> world \<Rightarrow> error_kind option" where
  "rename_problem reference name st w =
     (case read_playlists (w_node w) of
        Inl e \<Rightarrow> None
      | Inr r \<Rightarrow>
          (if r_newer r then Some NewerVersion
           else if r_fault r \<noteq> None then Some Unreadable
           else
             let base = (if w_node w \<noteq> Absent \<or> st_loaded st then r_value r else st_value st)
             in case and_then (tidy_playlist_name name) (\<lambda>tidy. renamed reference tidy base) of
                  Inl (Err k) \<Rightarrow> Some k
                | _ \<Rightarrow> None))"

definition delete :: "env \<Rightarrow> pystr \<Rightarrow> bool playlist_op" where
  "delete env reference = mutate_playlists env True (delete_change reference)"

definition add_source :: "env \<Rightarrow> pystr \<Rightarrow> pystr \<Rightarrow> pystr \<Rightarrow> pystr option \<Rightarrow> playlist playlist_op" where
  "add_source env fresh reference source chosen =
     mutate_playlists env False (change_playlist reference (\<lambda>p.
       map_sum id (\<lambda>q. (q, True)) (with_added source chosen fresh p)))"

definition set_singleton ::
  "env \<Rightarrow> pystr \<Rightarrow> pystr \<Rightarrow> pystr \<Rightarrow> pystr \<Rightarrow> pystr option \<Rightarrow> playlist playlist_op"
where
  "set_singleton env fresh identifier name source chosen =
     after_check (playlist_identifier identifier) (\<lambda>i.
     after_check (tidy_playlist_name name) (\<lambda>tidy.
       mutate_playlists env False (set_singleton_change i name tidy
         \<lparr>entry_id = id_or_new chosen fresh, entry_source = source\<rparr>)))"

definition set_display_singleton ::
  "env \<Rightarrow> pystr \<Rightarrow> pystr \<Rightarrow> pystr \<Rightarrow> pystr option \<Rightarrow> playlist playlist_op"
where
  "set_display_singleton env fresh connector source chosen =
     after_check (display_quick_choice_id connector) (\<lambda>i.
     after_check (display_quick_choice_name connector) (\<lambda>name.
       mutate_playlists env False (set_display_change i name
         \<lparr>entry_id = id_or_new chosen fresh, entry_source = source\<rparr>)))"

definition set_rotation ::
  "env \<Rightarrow> pystr \<Rightarrow> json field_arg \<Rightarrow> json field_arg \<Rightarrow> playlist playlist_op"
where
  "set_rotation env reference cycle shuffle =
     after_check (checked_field given_cycle cycle) (\<lambda>c.
     after_check (checked_field given_shuffle shuffle) (\<lambda>s.
       mutate_playlists env False (change_playlist reference (set_rotation_of c s))))"

definition remove_entry :: "env \<Rightarrow> pystr \<Rightarrow> pystr \<Rightarrow> playlist playlist_op" where
  "remove_entry env reference i =
     mutate_playlists env True (change_playlist reference (\<lambda>p. map_sum id (\<lambda>q. (q, True)) (without i p)))"

definition insert_entries :: "env \<Rightarrow> pystr \<Rightarrow> (int \<times> entry) list \<Rightarrow> playlist playlist_op" where
  "insert_entries env reference wanted =
     after_check (check_placed wanted) (\<lambda>_.
       mutate_playlists env False (change_playlist reference (insert_entries_of wanted)))"

definition remove_entries :: "env \<Rightarrow> pystr \<Rightarrow> pystr list \<Rightarrow> playlist playlist_op" where
  "remove_entries env reference wanted =
     mutate_playlists env True (change_playlist reference (remove_entries_of wanted))"

definition move_entry :: "env \<Rightarrow> pystr \<Rightarrow> pystr \<Rightarrow> int \<Rightarrow> playlist playlist_op" where
  "move_entry env reference i position =
     mutate_playlists env False
       (change_playlist reference (\<lambda>p. map_sum id (\<lambda>q. (q, True)) (moved i position p)))"

definition move_entry_relative :: "env \<Rightarrow> pystr \<Rightarrow> pystr \<Rightarrow> int \<Rightarrow> playlist playlist_op" where
  "move_entry_relative env reference i step =
     mutate_playlists env False (change_playlist reference (move_relative_of i step))"

definition forget_path :: "env \<Rightarrow> pystr \<Rightarrow> bool playlist_op" where
  "forget_path env source = mutate_playlists env True (forget_path_change source)"

text \<open>The mirrors of a worker's save, in memory only.\<close>

definition adopt_worker_forget_path :: "pystr \<Rightarrow> authored store \<Rightarrow> bool \<times> authored store" where
  "adopt_worker_forget_path source st =
     (list_ex (\<lambda>(k, p). length (pl_entries (forget_source source p)) \<noteq> length (pl_entries p)) (st_value st),
      st\<lparr>st_value := map (\<lambda>(k, p). (k, forget_source source p)) (st_value st),
         st_fault := None, st_kind := None, st_loaded := True\<rparr>)"

definition adopt_worker_repair :: "fault \<Rightarrow> 'v store \<Rightarrow> bool \<times> 'v store" where
  "adopt_worker_repair expected st =
     (if st_fault st \<noteq> Some expected then (False, st)
      else (True, st\<lparr>st_fault := None, st_kind := None, st_loaded := True\<rparr>))"

text \<open>\<open>rotation\<close>: what a playlist selects out of the library, \<open>None\<close> to use all of it.\<close>

definition rotation ::
  "authored \<Rightarrow> pystr \<Rightarrow> 'a media_item_scheme list \<Rightarrow> 'a media_item_scheme list option"
where
  "rotation d active library =
     (if active = [] then None
      else case (case map_of d active of Some p \<Rightarrow> Some p | None \<Rightarrow> by_name d active) of
             None \<Rightarrow> None
           | Some p \<Rightarrow>
               (let chosen = resolve_entries library p in if chosen = [] then None else Some chosen))"

end
