(* ===== verification/Playlist_Identity.thy ===== *)
theory Playlist_Identity
  imports Playlist_Store
begin

text \<open>
  What keeps a reference to a playlist unambiguous: no id or name of one playlist is, in any letter
  case, the id or the name of another. Every inner function of \<open>Playlist_Store\<close> keeps it, and the
  invariant of the map.
\<close>

section \<open>The invariant\<close>

definition tokens :: "playlist \<Rightarrow> pystr set" where
  "tokens p = {casefold (pl_id p), casefold (pl_name p)}"

definition unambiguous :: "authored \<Rightarrow> bool" where
  "unambiguous d \<longleftrightarrow>
     list_all (\<lambda>(k, p). list_all (\<lambda>(j, q). k \<noteq> j \<longrightarrow> tokens p \<inter> tokens q = {}) d) d"

definition capped :: "authored \<Rightarrow> bool" where
  "capped d \<longleftrightarrow> display_choice_count d \<le> MAX_DISPLAY_QUICK_CHOICES \<and> length d \<le> MAX_PLAYLISTS"

definition good_playlists :: "authored \<Rightarrow> bool" where
  "good_playlists d \<longleftrightarrow> wf_authored d \<and> unambiguous d \<and> capped d"

lemma unambiguous_iff:
  "unambiguous d \<longleftrightarrow>
     (\<forall>k p j q. (k, p) \<in> set d \<longrightarrow> (j, q) \<in> set d \<longrightarrow> k \<noteq> j \<longrightarrow> tokens p \<inter> tokens q = {})"
  by (simp add: unambiguous_def list_all_iff Ball_def split_paired_All)

lemma unambiguousD:
  "unambiguous d \<Longrightarrow> (k, p) \<in> set d \<Longrightarrow> (j, q) \<in> set d \<Longrightarrow> k \<noteq> j \<Longrightarrow> tokens p \<inter> tokens q = {}"
  unfolding unambiguous_iff by blast

lemma unambiguous_subset: "unambiguous d \<Longrightarrow> set d' \<subseteq> set d \<Longrightarrow> unambiguous d'"
  unfolding unambiguous_iff by blast

lemma good_authoredD:
  "good_playlists d \<Longrightarrow> map_of d k = Some p \<Longrightarrow> pl_id p = k \<and> wf_playlist p"
  by (auto simp: good_playlists_def dest: wf_authoredD(2))

lemma set_update_wf:
  assumes "distinct (map fst d)" "(j, q) \<in> set (AList.update k v d)"
  shows "(j, q) = (k, v) \<or> ((j, q) \<in> set d \<and> j \<noteq> k)"
proof -
  have "map_of (AList.update k v d) j = Some q"
    using assms(2) distinct_update [OF assms(1)] by (rule map_of_is_SomeI [rotated])
  then show ?thesis by (auto split: if_splits dest: map_of_SomeD)
qed

lemma good_update:
  assumes "good_playlists d" "wf_playlist p" "capped (AList.update (pl_id p) p d)"
    and other: "\<And>j q. (j, q) \<in> set d \<Longrightarrow> j \<noteq> pl_id p \<Longrightarrow> tokens p \<inter> tokens q = {}"
  shows "good_playlists (AList.update (pl_id p) p d)"
proof -
  have d: "distinct (map fst d)" "unambiguous d" "wf_authored d"
    using assms(1) by (simp_all add: good_playlists_def wf_authored_def)
  have "tokens a \<inter> tokens b = {}"
    if "(k, a) \<in> set (AList.update (pl_id p) p d)" "(j, b) \<in> set (AList.update (pl_id p) p d)"
      "k \<noteq> j" for k a j b
    using set_update_wf [OF d(1) that(1)] set_update_wf [OF d(1) that(2)] that(3) other
      unambiguousD [OF d(2)] by (metis Int_commute prod.inject)
  then have "unambiguous (AList.update (pl_id p) p d)"
    unfolding unambiguous_iff by blast
  with wf_authored_update d(3) assms(2,3) show ?thesis by (simp add: good_playlists_def)
qed

lemma keys_update:
  "map fst (AList.update k v d) = (if map_of d k = None then map fst d @ [k] else map fst d)"
  by (induction d) auto

lemma capped_keys: "map fst d' = map fst d \<Longrightarrow> capped d' \<longleftrightarrow> capped d"
  unfolding capped_def display_choice_count_def by (metis length_map)

lemma capped_replace: "capped d \<Longrightarrow> map_of d k \<noteq> None \<Longrightarrow> capped (AList.update k v d)"
  using capped_keys [of "AList.update k v d" d] by (simp add: keys_update)

text \<open>A playlist put back under its own id and name.\<close>

lemma good_replace:
  assumes "good_playlists d" "map_of d (pl_id p) = Some p" "pl_id q = pl_id p" "pl_name q = pl_name p"
    and "wf_playlist q"
  shows "good_playlists (AList.update (pl_id q) q d)"
proof (rule good_update [OF assms(1,5)])
  show "capped (AList.update (pl_id q) q d)"
    using assms(1-3) by (simp add: good_playlists_def capped_replace)
next
  fix j r assume "(j, r) \<in> set d" "j \<noteq> pl_id q"
  moreover have "(pl_id p, p) \<in> set d" using assms(2) by (rule map_of_SomeD)
  ultimately have "tokens p \<inter> tokens r = {}"
    using assms(1,3) unambiguousD by (metis good_playlists_def)
  then show "tokens q \<inter> tokens r = {}" using assms(3,4) by (simp add: tokens_def)
qed

section \<open>The identity check keeps identities apart\<close>

lemma collides_tokens: "collides i n p \<longleftrightarrow> {casefold i, casefold n} \<inter> tokens p \<noteq> {}"
  by (auto simp: collides_def tokens_def)

lemma validate_identity_apart:
  assumes "validate_identity i n d replacing g gd = Inr u" "(j, q) \<in> set d" "replacing \<noteq> Some (pl_id q)"
  shows "{casefold i, casefold n} \<inter> tokens q = {}"
  using assms by (auto simp: validate_identity_def list_ex_iff collides_tokens split: if_splits)

text \<open>A validated playlist goes in, whether it replaces one of its own id or is new.\<close>

lemma good_validated:
  assumes "good_playlists d" "wf_playlist p"
    and "validate_identity (pl_id p) (pl_name p) d replacing g gd = Inr u"
    and "replacing = None \<or> replacing = Some (pl_id p)" "capped (AList.update (pl_id p) p d)"
  shows "good_playlists (AList.update (pl_id p) p d)"
proof (rule good_update [OF assms(1,2,5)])
  fix j q assume "(j, q) \<in> set d" "j \<noteq> pl_id p"
  moreover have "pl_id q = j"
    using assms(1) \<open>(j, q) \<in> set d\<close> wf_authoredD(1) by (auto simp: good_playlists_def)
  ultimately show "tokens p \<inter> tokens q = {}"
    using validate_identity_apart [OF assms(3)] assms(4) by (auto simp: tokens_def)
qed

section \<open>The caps add up\<close>

text \<open>
  Below the cap on authored playlists the whole map has room for one more: of the others at most 64
  are display choices, and only one id is, in any letter case, \<open>quick-choice\<close>.
\<close>

lemma distinct_at_most_one:
  "distinct xs \<Longrightarrow> (\<And>x y. x \<in> set xs \<Longrightarrow> y \<in> set xs \<Longrightarrow> x = y) \<Longrightarrow> length xs \<le> 1"
  using card_le_Suc0_iff_eq [of "set xs"] distinct_card [of xs] by simp

lemma room_for_one:
  assumes "good_playlists d" "authored_count d < MAX_AUTHORED_PLAYLISTS"
  shows "length d < MAX_PLAYLISTS"
proof -
  let ?keys = "map fst d"
  let ?global = "\<lambda>k. casefold k = casefold (lit ''quick-choice'')"
  let ?display = "\<lambda>k. starts_with (casefold DISPLAY_QUICK_CHOICE_ID_PREFIX) (casefold k)"
  have same: "k = j" if k: "k \<in> set (filter ?global ?keys)" and j: "j \<in> set (filter ?global ?keys)" for k j
  proof (rule ccontr)
    assume "k \<noteq> j"
    obtain p where p: "(k, p) \<in> set d" using k by fastforce
    obtain q where q: "(j, q) \<in> set d" using j by fastforce
    have wf: "wf_authored d" and apart: "unambiguous d" using assms(1) by (simp_all add: good_playlists_def)
    have "pl_id p = k" "pl_id q = j"
      using wf_authoredD(1) [OF wf p] wf_authoredD(1) [OF wf q] by simp_all
    moreover have "tokens p \<inter> tokens q = {}" by (rule unambiguousD [OF apart p q \<open>k \<noteq> j\<close>])
    ultimately show False using k j by (auto simp: tokens_def)
  qed
  have "distinct (filter ?global ?keys)"
    using assms(1) by (simp add: good_playlists_def wf_authored_def)
  then have one: "length (filter ?global ?keys) \<le> 1"
    by (rule distinct_at_most_one) (rule same)
  have split: "length xs \<le> length (filter (\<lambda>k. \<not> is_generated_playlist_id k) xs) +
      length (filter ?global xs) + length (filter ?display xs)" for xs
    by (induction xs) (auto simp: is_generated_playlist_id_def)
  have "length (filter ?display ?keys) \<le> 64"
    using assms(1) by (simp add: good_playlists_def capped_def display_choice_count_def
        MAX_DISPLAY_QUICK_CHOICES_def)
  moreover have "length (filter (\<lambda>k. \<not> is_generated_playlist_id k) ?keys) < 512"
    using assms(2) by (simp add: authored_count_def MAX_AUTHORED_PLAYLISTS_def)
  ultimately have "length ?keys < 577" using split [of ?keys] one by linarith
  then show ?thesis
    by (simp add: MAX_PLAYLISTS_def MAX_AUTHORED_PLAYLISTS_def MAX_DISPLAY_QUICK_CHOICES_def)
qed

lemma capped_new:
  assumes "capped d" "length d < MAX_PLAYLISTS"
    and "starts_with (casefold DISPLAY_QUICK_CHOICE_ID_PREFIX) (casefold k) \<Longrightarrow>
      display_choice_count d < MAX_DISPLAY_QUICK_CHOICES"
  shows "capped (AList.update k v d)"
proof (cases "map_of d k")
  case None
  with assms show ?thesis
    by (auto simp: capped_def display_choice_count_def keys_update length_AList_update)
next
  case (Some p)
  with assms(1) show ?thesis by (simp add: capped_replace)
qed

text \<open>The identity check refuses a display choice's id unless told it makes one.\<close>

lemma validate_not_display:
  assumes "validate_identity i n d replacing g False = Inr u"
  shows "\<not> starts_with (casefold DISPLAY_QUICK_CHOICE_ID_PREFIX) (casefold i)"
proof
  assume display: "starts_with (casefold DISPLAY_QUICK_CHOICE_ID_PREFIX) (casefold i)"
  have "list_all (\<lambda>(j, n). \<not> starts_with (casefold DISPLAY_QUICK_CHOICE_ID_PREFIX) (casefold j))
      RESERVED_IDENTITIES"
    by code_simp
  with display have "(i, n) \<notin> set RESERVED_IDENTITIES" by (auto simp: list_all_iff)
  with assms display show False by (simp add: validate_identity_def reserved_display_def)
qed

section \<open>References\<close>

lemma find_in_member:
  assumes "good_playlists d" "find_in d reference = Inr p"
  shows "map_of d (pl_id p) = Some p \<and> wf_playlist p"
proof (cases "map_of d reference")
  case None
  with assms(2) have "by_name d reference = Some p" by (auto simp: find_in_def split: option.splits)
  then have "p \<in> set (all_playlists d)" by (auto simp: by_name_def find_Some_iff)
  then obtain k where "(k, p) \<in> set d" by (auto simp: all_playlists_def)
  with assms(1) show ?thesis
    using wf_authoredD(1) [of d k p] by (auto simp: good_playlists_def wf_authored_def map_of_is_SomeI)
next
  case (Some q)
  with assms(2) have "q = p" by (simp add: find_in_def)
  with good_authoredD [OF assms(1) Some] Some show ?thesis by simp
qed

text \<open>Folding case makes no whitespace and drops no character, so a folded name is stripped already.\<close>

definition spaces :: "(nat \<times> nat) list" where
  "spaces = [(9, 13), (28, 32), (133, 133), (160, 160), (5760, 5760), (8192, 8202), (8232, 8232),
     (8233, 8233), (8239, 8239), (8287, 8287), (12288, 12288)]"

lemma cp_isspace_spaces: "cp_isspace c \<longleftrightarrow> list_ex (\<lambda>(lo, hi). lo \<le> c \<and> c \<le> hi) spaces"
proof -
  have one: "(a \<le> c \<and> c \<le> a) = (c = a)" for a by auto
  show ?thesis by (simp add: cp_isspace_def spaces_def one)
qed

lemma fold_multi_no_space:
  "list_all (\<lambda>(c, cs). cs \<noteq> [] \<and> list_all (\<lambda>x. \<not> cp_isspace x) cs) fold_multi"
  by code_simp

lemma fold_runs_no_space:
  "list_all (\<lambda>(lo, hi, step, d). 0 \<le> int lo + d \<and>
     list_all (\<lambda>(a, b). int hi + d < int a \<or> int b < int lo + d) spaces) fold_runs"
  unfolding fold_runs_def spaces_def by simp

lemma find_SomeD: "find P xs = Some x \<Longrightarrow> x \<in> set xs \<and> P x"
  by (induction xs) (auto split: if_splits)

lemma fold_cp_no_space:
  assumes "\<not> cp_isspace c"
  shows "fold_cp c \<noteq> [] \<and> (\<forall>x\<in>set (fold_cp c). \<not> cp_isspace x)"
proof (cases "c < 128")
  case True
  with assms show ?thesis by (auto simp: fold_cp_def cp_isspace_def)
next
  case False
  show ?thesis
  proof (cases "map_of fold_multi c")
    case (Some cs)
    with fold_multi_no_space False show ?thesis
      by (auto simp: fold_cp_def list_all_iff dest!: map_of_SomeD)
  next
    case multi: None
    let ?P = "\<lambda>(lo, hi, step, d). lo \<le> c \<and> c \<le> hi \<and> (c - lo) mod step = 0"
    show ?thesis
    proof (cases "find ?P fold_runs")
      case None
      with assms False multi show ?thesis by (simp add: fold_cp_def)
    next
      case (Some run)
      obtain lo hi step d where run: "run = (lo, hi, step, d)" by (cases run)
      have m: "(lo, hi, step, d) \<in> set fold_runs" and c: "lo \<le> c" "c \<le> hi"
        using find_SomeD [OF Some] run by auto
      have low: "0 \<le> int lo + d"
        and out: "\<And>a b. (a, b) \<in> set spaces \<Longrightarrow> int hi + d < int a \<or> int b < int lo + d"
        using fold_runs_no_space m by (auto simp: list_all_iff)
      have "\<not> cp_isspace (nat (int c + d))"
        unfolding cp_isspace_spaces list_ex_iff
      proof (clarify)
        fix a b assume "(a, b) \<in> set spaces" "a \<le> nat (int c + d)" "nat (int c + d) \<le> b"
        with out [of a b] c low show False by linarith
      qed
      with False multi Some run show ?thesis by (simp add: fold_cp_def)
    qed
  qed
qed

lemma strip_casefold: "strip s = s \<Longrightarrow> strip (casefold s) = casefold s"
proof (cases "s = []")
  case False
  assume "strip s = s"
  with False have h: "\<not> cp_isspace (hd s)" and l: "\<not> cp_isspace (last s)" by (simp_all add: strip_id_iff)
  have "casefold s = fold_cp (hd s) @ casefold (tl s)"
    using False by (cases s) (simp_all add: casefold_def)
  moreover have "casefold s = casefold (butlast s) @ fold_cp (last s)"
    using False by (metis append_butlast_last_id casefold_append casefold_def concat.simps list.map append_Nil2)
  ultimately have "\<not> cp_isspace (hd (casefold s)) \<and> \<not> cp_isspace (last (casefold s))"
    using fold_cp_no_space [OF h] fold_cp_no_space [OF l] by (metis hd_append hd_in_set last_append last_in_set)
  then show ?thesis by (simp add: strip_id_iff)
qed simp

lemma find_only:
  assumes "x \<in> set xs" "P x" and "\<And>y. y \<in> set xs \<Longrightarrow> P y \<Longrightarrow> y = x"
  shows "find P xs = Some x"
proof (cases "find P xs")
  case None
  with assms(1,2) show ?thesis by (auto simp: find_None_iff)
next
  case (Some y)
  with find_SomeD [OF Some] assms(3) show ?thesis by simp
qed

lemma set_all_playlists [simp]: "set (all_playlists d) = snd ` set d"
  by (simp add: all_playlists_def)

lemma by_name_SomeD:
  "by_name d reference = Some p \<Longrightarrow>
     (\<exists>k. (k, p) \<in> set d) \<and> strip (casefold reference) = casefold (pl_name p)"
  using find_SomeD by (fastforce simp: by_name_def)

lemma by_name_only:
  assumes "good_playlists d" "(k, p) \<in> set d" "strip (casefold reference) = casefold (pl_name p)"
  shows "by_name d reference = Some p"
  unfolding by_name_def
proof (rule find_only)
  show "p \<in> set (all_playlists d)" using assms(2) by force
  show "casefold (pl_name p) = strip (casefold reference)" using assms(3) by simp
  fix q assume "q \<in> set (all_playlists d)" "casefold (pl_name q) = strip (casefold reference)"
  then obtain j where q: "(j, q) \<in> set d" "casefold (pl_name q) = casefold (pl_name p)"
    using assms(3) by auto
  then have "tokens p \<inter> tokens q \<noteq> {}" by (auto simp: tokens_def)
  then have "j = k" using assms(1,2) q(1) unambiguousD unfolding good_playlists_def by metis
  with assms(1,2) q(1) show "q = p"
    by (metis good_playlists_def wf_authored_def map_of_is_SomeI option.inject)
qed

section \<open>Every change keeps the map well-formed and unambiguous\<close>

definition keeps_good :: "(authored, 'r) change \<Rightarrow> bool" where
  "keeps_good change \<longleftrightarrow>
     (\<forall>d x b d'. good_playlists d \<longrightarrow> change d = Inr (x, b, d') \<longrightarrow> good_playlists d')"

lemma keeps_goodI:
  "(\<And>d x b d'. good_playlists d \<Longrightarrow> change d = Inr (x, b, d') \<Longrightarrow> good_playlists d') \<Longrightarrow> keeps_good change"
  by (auto simp: keeps_good_def)

lemma tidy_playlist_name_ok: "tidy_playlist_name raw = Inr n \<Longrightarrow> n \<noteq> [] \<and> strip n = n"
  by (auto simp: tidy_playlist_name_def Let_def split: if_splits)

lemma playlist_identifier_ok: "playlist_identifier raw = Inr i \<Longrightarrow> i \<noteq> [] \<and> strip i = i"
  by (auto simp: playlist_identifier_def split: if_splits)

lemma given_cycle_ok: "given_cycle v = Inr (Some s) \<Longrightarrow> valid_cycle_interval (JInt s)"
  by (auto simp: given_cycle_def valid_cycle_interval_def split: json.splits if_splits)

lemma check_entries_ok: "check_entries seen es = Inr () \<Longrightarrow> list_all wf_entry es"
  by (induction seen es rule: check_entries.induct) (auto simp: wf_entry_def split: if_splits)

lemma new_authored_wf:
  assumes "new_authored fresh name chosen es cycle shuffle = Inr p" "fresh \<noteq> []" "strip fresh = fresh"
  shows "wf_playlist p"
proof -
  obtain i n c s where i: "(case chosen of None \<Rightarrow> Inr fresh | Some j \<Rightarrow> playlist_identifier j) = Inr i"
    and n: "tidy_playlist_name name = Inr n" and es: "check_entries [] es = Inr ()"
    and len: "length es \<le> MAX_PLAYLIST_ENTRIES" and c: "given_cycle cycle = Inr c"
    and p: "p = \<lparr>pl_id = i, pl_name = n, pl_entries = es, pl_cycle = c, pl_shuffle = s\<rparr>"
    using assms(1) by (auto simp: new_authored_def and_then_Inr split: if_splits)
  have "i \<noteq> [] \<and> strip i = i"
    using i assms(2,3) playlist_identifier_ok by (cases chosen) auto
  with p tidy_playlist_name_ok [OF n] check_entries_ok [OF es] len given_cycle_ok [of cycle] c
  show ?thesis by (cases c) (auto simp: wf_playlist_def)
qed

lemma create_change_good:
  assumes "wf_playlist p"
  shows "keeps_good (create_change p)"
proof (rule keeps_goodI)
  fix d x b d' assume d: "good_playlists d" and r: "create_change p d = Inr (x, b, d')"
  then have room: "authored_count d < MAX_AUTHORED_PLAYLISTS" and d': "d' = AList.update (pl_id p) p d"
    and v: "validate_identity (pl_id p) (pl_name p) d None False False = Inr ()"
    by (auto simp: create_change_def and_then_Inr split: if_splits)
  have "capped d'"
    using d room_for_one [OF d room] validate_not_display [OF v] unfolding d'
    by (intro capped_new) (auto simp: good_playlists_def)
  with good_validated [OF d assms v] d' show "good_playlists d'" by simp
qed

lemma renamed_good:
  assumes "tidy_playlist_name name = Inr tidy"
  shows "keeps_good (renamed reference tidy)"
proof (rule keeps_goodI)
  fix d x b d' assume d: "good_playlists d" and r: "renamed reference tidy d = Inr (x, b, d')"
  then obtain p where p: "find_in d reference = Inr p" by (auto simp: renamed_def and_then_Inr)
  from find_in_member [OF d p] have wf: "wf_playlist (p\<lparr>pl_name := tidy\<rparr>)"
    using tidy_playlist_name_ok [OF assms] by (simp add: wf_playlist_def)
  show "good_playlists d'"
    using r p d good_validated [OF d wf, of "Some (pl_id p)"] find_in_member [OF d p]
    by (auto simp: renamed_def and_then_Inr good_playlists_def capped_replace split: if_splits)
qed

lemma length_filter_removeAll: "length (filter P (removeAll k xs)) \<le> length (filter P xs)"
  by (induction xs) auto

lemma delete_change_good: "keeps_good (delete_change reference)"
proof (rule keeps_goodI)
  fix d x b d' assume d: "good_playlists d" and r: "delete_change reference d = Inr (x, b, d')"
  then have "d' = d \<or> (\<exists>k. d' = AList.delete k d)"
    by (auto simp: delete_change_def split: sum.splits if_splits)
  moreover have "capped (AList.delete k d)" if "capped d" for k
    using that length_filter_removeAll [of _ k "map fst d"] length_removeAll_less_eq [of k "map fst d"]
    unfolding capped_def display_choice_count_def delete_keys
    by (metis delete_keys length_map order_trans)
  ultimately show "good_playlists d'"
    using d unambiguous_subset [OF _ set_AList_delete] wf_authored_delete by (auto simp: good_playlists_def)
qed

lemma change_playlist_good:
  assumes "\<And>p q b. wf_playlist p \<Longrightarrow> f p = Inr (q, b) \<Longrightarrow>
      wf_playlist q \<and> pl_id q = pl_id p \<and> pl_name q = pl_name p"
  shows "keeps_good (change_playlist reference f)"
proof (rule keeps_goodI)
  fix d x b d' assume d: "good_playlists d" and r: "change_playlist reference f d = Inr (x, b, d')"
  then obtain p where p: "find_in d reference = Inr p" "f p = Inr (x, b)" "d' = AList.update (pl_id x) x d"
    by (auto simp: change_playlist_def and_then_Inr)
  from find_in_member [OF d p(1)] assms [OF _ p(2)] p(3) good_replace [OF d, of p x]
  show "good_playlists d'" by simp
qed

lemma singleton_made_ok:
  assumes "i \<noteq> []" "strip i = i" "n \<noteq> []" "strip n = n" "wf_entry e"
    and "\<And>p. existing = Some p \<Longrightarrow> pl_id p = i \<and> wf_playlist p"
  shows "pl_id (singleton_made i n e existing) = i \<and> pl_name (singleton_made i n e existing) = n \<and>
    wf_playlist (singleton_made i n e existing)"
  using assms
  by (cases existing) (simp_all add: singleton_made_def wf_playlist_def MAX_PLAYLIST_ENTRIES_def)

lemma set_singleton_change_good:
  assumes "i \<noteq> []" "strip i = i" "n \<noteq> []" "strip n = n" "wf_entry e"
  shows "keeps_good (set_singleton_change i name n e)"
proof (rule keeps_goodI)
  fix d x b d' assume d: "good_playlists d" and r: "set_singleton_change i name n e d = Inr (x, b, d')"
  then obtain u where v: "validate_identity i n d (Some i) True False = Inr u"
    and x: "x = singleton_made i n e (map_of d i)" and d': "d' = AList.update (pl_id x) x d"
    and room: "map_of d i = None \<Longrightarrow>
      length d < MAX_PLAYLISTS \<or> authored_count d < MAX_AUTHORED_PLAYLISTS"
    by (auto simp: set_singleton_change_def Let_def and_then_Inr split: if_splits)
  have "pl_id x = i \<and> pl_name x = n \<and> wf_playlist x"
    unfolding x using assms by (intro singleton_made_ok good_authoredD [OF d])
  moreover have "capped (AList.update i x d)"
  proof (cases "map_of d i")
    case None
    with d room room_for_one [OF d] validate_not_display [OF v] show ?thesis
      by (intro capped_new) (auto simp: good_playlists_def)
  next
    case Some
    with d show ?thesis by (simp add: capped_replace good_playlists_def)
  qed
  ultimately show "good_playlists d'" using good_validated [OF d, of x "Some i"] v d' by auto
qed

lemma set_display_change_good:
  assumes "i \<noteq> []" "strip i = i" "n \<noteq> []" "strip n = n" "wf_entry e"
  shows "keeps_good (set_display_change i n e)"
proof (rule keeps_goodI)
  fix d x b d' assume d: "good_playlists d" and r: "set_display_change i n e d = Inr (x, b, d')"
  then obtain u where v: "validate_identity i n d (Some i) False True = Inr u"
    and x: "x = display_singleton_made i n e (map_of d i)" and d': "d' = AList.update (pl_id x) x d"
    and same: "\<And>existing. map_of d i = Some existing \<Longrightarrow> pl_name existing = n"
    and room: "map_of d i = None \<Longrightarrow>
      length d < MAX_PLAYLISTS \<and> display_choice_count d < MAX_DISPLAY_QUICK_CHOICES"
    unfolding set_display_change_def Let_def
    by (simp only: and_then_Inr sum.inject sum.distinct prod.inject split: if_split_asm) fastforce+
  have "display_singleton_made i n e (map_of d i) = singleton_made i n e (map_of d i)"
    using same by (cases "map_of d i") (auto simp: display_singleton_made_def singleton_made_def)
  then have "pl_id x = i \<and> pl_name x = n \<and> wf_playlist x"
    unfolding x using assms good_authoredD [OF d] by (simp add: singleton_made_ok)
  moreover have "capped (AList.update i x d)"
    using d room by (cases "map_of d i") (simp_all add: capped_new capped_replace good_playlists_def)
  ultimately show "good_playlists d'" using good_validated [OF d, of x "Some i"] v d' by auto
qed

lemma forget_source_same [simp]:
  "pl_id (forget_source s p) = pl_id p" "pl_name (forget_source s p) = pl_name p"
  "tokens (forget_source s p) = tokens p"
  by (simp_all add: forget_source_def tokens_def)

lemma wf_playlist_filter:
  "wf_playlist p \<Longrightarrow> wf_playlist (p\<lparr>pl_entries := filter P (pl_entries p)\<rparr>)"
  by (auto simp: wf_playlist_def list_all_iff intro: order_trans [OF length_filter_le])

lemma forget_source_wf: "wf_playlist p \<Longrightarrow> wf_playlist (forget_source s p)"
  by (simp add: forget_source_def wf_playlist_filter)

lemma forget_all_good: "good_playlists d \<Longrightarrow> good_playlists (map (\<lambda>(k, p). (k, forget_source s p)) d)"
proof -
  assume d: "good_playlists d"
  have "unambiguous (map (\<lambda>(k, p). (k, forget_source s p)) d)"
    using d unfolding good_playlists_def unambiguous_iff by fastforce
  moreover have "capped (map (\<lambda>(k, p). (k, forget_source s p)) d) \<longleftrightarrow> capped d"
    by (rule capped_keys) (simp add: split_beta)
  ultimately show ?thesis using d
    by (auto simp: good_playlists_def wf_authored_def list_all_iff o_def split_beta forget_source_wf)
qed

lemma forget_path_change_good: "keeps_good (forget_path_change s)"
  by (rule keeps_goodI) (auto simp: forget_path_change_def Let_def forget_all_good)

end
