(* ===== verification/Playlist_System.thy ===== *)
theory Playlist_System
  imports Playlist_Identity
begin

text \<open>
  Whole operations of \<open>playlists.Store\<close>, on the store, the file and the operating system, and the
  states that any sequence of them by several processes can reach.
\<close>

section \<open>What the playlist changes keep\<close>

lemma wf_playlist_entries:
  "wf_playlist p \<Longrightarrow> list_all wf_entry es \<Longrightarrow> length es \<le> MAX_PLAYLIST_ENTRIES \<Longrightarrow>
     wf_playlist (p\<lparr>pl_entries := es\<rparr>)"
  by (simp add: wf_playlist_def)

lemma with_added_wf:
  "wf_playlist p \<Longrightarrow> wf_entry \<lparr>entry_id = id_or_new chosen fresh, entry_source = source\<rparr> \<Longrightarrow>
     with_added source chosen fresh p = Inr q \<Longrightarrow>
     wf_playlist q \<and> pl_id q = pl_id p \<and> pl_name q = pl_name p"
  by (auto simp: with_added_def wf_playlist_def split: if_splits)

lemma without_wf:
  "wf_playlist p \<Longrightarrow> without i p = Inr q \<Longrightarrow> wf_playlist q \<and> pl_id q = pl_id p \<and> pl_name q = pl_name p"
  by (auto simp: without_def Let_def wf_playlist_filter split: if_splits)

lemma moved_wf:
  assumes "wf_playlist p" "moved i position p = Inr q"
  shows "wf_playlist q \<and> pl_id q = pl_id p \<and> pl_name q = pl_name p"
proof -
  let ?rest = "filter (\<lambda>e. entry_id e \<noteq> i) (pl_entries p)"
  obtain e where e: "find (\<lambda>e. entry_id e = i) (pl_entries p) = Some e"
    and q: "q = p\<lparr>pl_entries := insert_at (clamp (length ?rest) position) e ?rest\<rparr>"
    using assms(2) by (auto simp: moved_def Let_def split: option.splits)
  have m: "e \<in> set (pl_entries p)" "entry_id e = i" using e by (auto simp: find_Some_iff)
  then have "length ?rest < length (pl_entries p)" by (metis (mono_tags, lifting) length_filter_less)
  with assms(1) m q show ?thesis by (auto simp: wf_playlist_def list_all_iff)
qed

lemma place_entries_wf:
  "place_entries ws es = Inr fs \<Longrightarrow> check_placed ws = Inr () \<Longrightarrow> list_all wf_entry es \<Longrightarrow>
     list_all wf_entry fs \<and> length fs = length es + length ws"
proof (induction ws es rule: place_entries.induct)
  case (2 position e rest es)
  from "2.prems" have e: "wf_entry e" and rest: "check_placed rest = Inr ()"
    by (auto simp: wf_entry_def split: if_splits)
  from e "2.prems"(3) have "list_all wf_entry (insert_at (clamp (length es) position) e es)"
    by (simp add: list_all_iff)
  with "2.IH" "2.prems" rest show ?case by (auto split: if_splits)
qed simp

lemma insert_entries_of_wf:
  "wf_playlist p \<Longrightarrow> check_placed ws = Inr () \<Longrightarrow> insert_entries_of ws p = Inr (q, b) \<Longrightarrow>
     wf_playlist q \<and> pl_id q = pl_id p \<and> pl_name q = pl_name p"
  by (auto simp: insert_entries_of_def and_then_Inr wf_playlist_def split: if_splits dest!: place_entries_wf)

lemma remove_entries_of_wf:
  "wf_playlist p \<Longrightarrow> remove_entries_of ws p = Inr (q, b) \<Longrightarrow>
     wf_playlist q \<and> pl_id q = pl_id p \<and> pl_name q = pl_name p"
  by (auto simp: remove_entries_of_def wf_playlist_filter split: if_splits)

lemma move_relative_of_wf:
  "wf_playlist p \<Longrightarrow> move_relative_of i step p = Inr (q, b) \<Longrightarrow>
     wf_playlist q \<and> pl_id q = pl_id p \<and> pl_name q = pl_name p"
  by (auto simp: move_relative_of_def Let_def and_then_Inr split: option.splits dest: moved_wf)

lemma checked_cycle_ok:
  "checked_field given_cycle v = Inr c \<Longrightarrow> c = Set (Some s) \<Longrightarrow> valid_cycle_interval (JInt s)"
  by (auto simp: checked_field_def map_sum_def split: field_arg.splits sum.splits dest: given_cycle_ok)

lemma set_rotation_of_wf:
  assumes "wf_playlist p" "checked_field given_cycle v = Inr c" "set_rotation_of c s p = Inr (q, b)"
  shows "wf_playlist q \<and> pl_id q = pl_id p \<and> pl_name q = pl_name p"
proof -
  have q: "q = p\<lparr>pl_cycle := field_value c (pl_cycle p), pl_shuffle := field_value s (pl_shuffle p)\<rparr>"
    using assms(3) by (simp add: set_rotation_of_def Let_def)
  have "valid_cycle_interval (JInt n)" if "field_value c (pl_cycle p) = Some n" for n
    using that checked_cycle_ok [OF assms(2)] assms(1)
    by (auto simp: field_value_def wf_playlist_def split: field_arg.splits)
  with assms(1) q show ?thesis by (auto simp: wf_playlist_def split: option.split)
qed

section \<open>Generated identities are tidy\<close>

lemma connector_digest_hex:
  "length (connector_digest c) = 16" "\<forall>x\<in>set (connector_digest c). (48 \<le> x \<and> x \<le> 57) \<or> (97 \<le> x \<and> x \<le> 102)"
proof -
  let ?h = "hexdigest (sha256 (utf8 c))"
  have "length (concat (map (\<lambda>w. hex_digits 8 (unat w)) ws)) = 8 * length ws" for ws :: "32 word list"
    by (induction ws) simp_all
  then have "length ?h = 64" by (simp add: hexdigest_def)
  then show "length (connector_digest c) = 16" by (simp add: connector_digest_def)
  have "\<forall>x\<in>set ?h. (48 \<le> x \<and> x \<le> 57) \<or> (97 \<le> x \<and> x \<le> 102)"
    using hex_digits_ascii by (auto simp: hexdigest_def)
  then show "\<forall>x\<in>set (connector_digest c). (48 \<le> x \<and> x \<le> 57) \<or> (97 \<le> x \<and> x \<le> 102)"
    by (auto simp: connector_digest_def dest: in_set_takeD)
qed

lemma connector_digest_no_space: "no_space (connector_digest c)"
  using connector_digest_hex(2) [of c] by (fastforce simp: no_space_def cp_isspace_def)

lemma display_quick_choice_id_ok:
  "display_quick_choice_id c = Inr i \<Longrightarrow> i \<noteq> [] \<and> strip i = i"
proof -
  assume "display_quick_choice_id c = Inr i"
  then have i: "i = DISPLAY_QUICK_CHOICE_ID_PREFIX @ connector_digest c"
    by (auto simp: display_quick_choice_id_def and_then_Inr)
  have "no_space DISPLAY_QUICK_CHOICE_ID_PREFIX"
    by (simp add: no_space_def DISPLAY_QUICK_CHOICE_ID_PREFIX_def lit_def cp_isspace_def)
  with connector_digest_no_space [of c] i have "no_space i" by (auto simp: no_space_def)
  then have "strip i = i" by (rule strip_no_space)
  moreover have "i \<noteq> []" using i by (simp add: DISPLAY_QUICK_CHOICE_ID_PREFIX_def)
  ultimately show ?thesis by simp
qed

lemma display_quick_choice_name_ok:
  "display_quick_choice_name c = Inr n \<Longrightarrow> n \<noteq> [] \<and> strip n = n"
proof -
  assume n: "display_quick_choice_name c = Inr n"
  then obtain i where i: "display_quick_choice_id c = Inr i"
    by (auto simp: display_quick_choice_name_def and_then_Inr)
  then have c: "c \<noteq> []" "no_space c"
    by (auto simp: display_quick_choice_id_def and_then_Inr display_connector_def no_space_def
        list_ex_iff split: if_splits)
  have "i = DISPLAY_QUICK_CHOICE_ID_PREFIX @ connector_digest c"
    using i by (auto simp: display_quick_choice_id_def and_then_Inr)
  then have suffix: "drop (length DISPLAY_QUICK_CHOICE_ID_PREFIX) i = connector_digest c" by simp
  have "connector_digest c \<noteq> []" using connector_digest_hex(1) [of c] by auto
  then have last: "\<not> cp_isspace (last (connector_digest c))" "\<not> cp_isspace (last c)"
    using connector_digest_no_space [of c] c by (simp_all add: no_space_def)
  have "\<exists>t. n = DISPLAY_QUICK_CHOICE_NAME_PREFIX @ t \<and> t \<noteq> [] \<and> \<not> cp_isspace (last t)"
    using n i suffix last c \<open>connector_digest c \<noteq> []\<close>
    by (auto simp: display_quick_choice_name_def Let_def split: if_splits)
  then obtain t where t: "n = DISPLAY_QUICK_CHOICE_NAME_PREFIX @ t" "t \<noteq> []" "\<not> cp_isspace (last t)"
    by blast
  have "\<not> cp_isspace (hd n)"
    by (simp add: t(1) DISPLAY_QUICK_CHOICE_NAME_PREFIX_def lit_def cp_isspace_def)
  with t show ?thesis by (simp add: strip_id_iff)
qed

section \<open>What a save writes reads back as the same playlists\<close>

lemma t_found_to_json:
  "wf_playlist p \<Longrightarrow>
     t_found (parse_step t (JObj (playlist_to_json p))) = AList.update (pl_id p) p (t_found t)"
  by (simp add: parse_step_def playlist_of_json_def playlist_of_dict_to_json tally_playlist_def Let_def
      tally_entries_frame)

lemma update_new: "map_of d k = None \<Longrightarrow> AList.update k v d = d @ [(k, v)]"
  by (induction d) (auto split: if_splits)

lemma t_found_rendered:
  "wf_authored d \<Longrightarrow> fst ` set d \<inter> fst ` set (t_found t) = {} \<Longrightarrow>
     t_found (foldl parse_step t (map (\<lambda>(k, p). JObj (playlist_to_json p)) d)) = t_found t @ d"
proof (induction d arbitrary: t)
  case (Cons kp d)
  obtain p where kp: "kp = (pl_id p, p)" and p: "wf_playlist p"
    using Cons.prems by (cases kp) (auto simp: wf_authored_def)
  have "map_of (t_found t) (pl_id p) = None"
    using Cons.prems(2) kp by (auto simp: map_of_eq_None_iff)
  then have "t_found (parse_step t (JObj (playlist_to_json p))) = t_found t @ [kp]"
    using t_found_to_json [OF p] update_new kp by simp
  moreover have "wf_authored d" "kp \<notin> set d" "fst kp \<notin> fst ` set d"
    using Cons.prems(1) by (auto simp: wf_authored_def)
  moreover have "fst ` set d \<inter> fst ` set (t_found t @ [kp]) = {}"
    using calculation(4) Cons.prems(2) by auto
  ultimately show ?case using Cons.IH [of "parse_step t (JObj (playlist_to_json p))"] kp by simp
qed simp

lemma wf_authored_take: "wf_authored d \<Longrightarrow> wf_authored (take n d)"
  by (auto simp: wf_authored_def list_all_iff take_map [symmetric] dest: in_set_takeD)

lemma read_written_value:
  assumes "wf_authored v" "playlists_document v u = Inr d" "bytes \<le> MAX_PLAYLISTS_BYTES"
    and "json_encodable (JObj d)" "read_playlists (Regular bytes (Decoded (JObj d))) = Inr r"
  shows "r_value r = take MAX_PLAYLISTS (in_key_order v)"
proof -
  have p: "project playlists_shape d = project playlists_shape (plain_playlists v)"
    using assms(2) project_merge(1) [OF playlists_shape_flat]
    by (auto simp: playlists_document_def plain_playlists_def)
  have parse: "parse_playlists d = parse_playlists (plain_playlists v)"
    using parse_playlists_project p by metis
  have ok: "wf_authored (take MAX_PLAYLISTS (in_key_order v))"
    using assms(1) in_key_order_ok(1) wf_authored_take by blast
  have "t_found (foldl parse_step (empty_tally fs)
      (map (\<lambda>(k, p). JObj (playlist_to_json p)) (take MAX_PLAYLISTS (in_key_order v)))) =
    take MAX_PLAYLISTS (in_key_order v)" for fs
    using t_found_rendered [OF ok, of "empty_tally fs"] by (simp add: empty_tally_def)
  then have "fst (parse_playlists (plain_playlists v)) = take MAX_PLAYLISTS (in_key_order v)"
    by (simp add: parse_playlists_def plain_playlists_def take_map Let_def)
  with assms(3-5) parse show ?thesis
    by (auto simp: read_playlists_def read_object_def decode_content_def Let_def split_beta
        split: option.splits)
qed

section \<open>Operations keep identities unambiguous\<close>

definition good_file :: "world \<Rightarrow> bool" where
  "good_file w \<longleftrightarrow> (\<forall>r. read_playlists (w_node w) = Inr r \<longrightarrow> good_playlists (r_value r))"

lemma good_nothing: "good_playlists []"
  by (simp add: good_playlists_def wf_authored_def unambiguous_def capped_def display_choice_count_def)

lemma good_file_absent: "w_node w = Absent \<Longrightarrow> good_file w"
  by (simp add: good_file_def read_playlists_def read_object_def good_nothing)

lemma good_in_key_order: "good_playlists d \<Longrightarrow> good_playlists (in_key_order d)"
proof -
  have "mset (filter P (map fst (in_key_order d))) = mset (filter P (map fst d))" for P
    by (simp add: mset_in_key_order)
  then have "display_choice_count (in_key_order d) = display_choice_count d"
    unfolding display_choice_count_def by (metis size_mset)
  moreover have "length (in_key_order d) = length d" by (simp add: in_key_order_def)
  ultimately show "good_playlists d \<Longrightarrow> good_playlists (in_key_order d)"
    using unambiguous_subset [of d "in_key_order d"] in_key_order_ok(1) [of d]
    by (simp add: good_playlists_def capped_def)
qed

lemma good_file_written:
  assumes "good_playlists v" "playlists_document v u = Inr d" "rendered_size (JObj d) \<le> MAX_PLAYLISTS_BYTES"
    and "json_encodable (JObj d)" "w_node w = Regular (rendered_size (JObj d)) (Decoded (JObj d))"
  shows "good_file w"
  unfolding good_file_def
proof (intro allI impI)
  fix r assume "read_playlists (w_node w) = Inr r"
  then have v: "r_value r = take MAX_PLAYLISTS (in_key_order v)"
    using read_written_value assms by (metis good_playlists_def)
  moreover have "length (in_key_order v) = length v"
    by (simp add: in_key_order_def)
  ultimately have "r_value r = in_key_order v"
    using assms(1) by (simp add: good_playlists_def capped_def)
  then show "good_playlists (r_value r)" using assms(1) good_in_key_order by simp
qed

text \<open>The file is a document a save rendered of these playlists.\<close>

definition file_written :: "world \<Rightarrow> authored \<Rightarrow> bool" where
  "file_written w v \<longleftrightarrow>
     (\<exists>u d. playlists_document v u = Inr d \<and> rendered_size (JObj d) \<le> MAX_PLAYLISTS_BYTES \<and>
        json_encodable (JObj d) \<and> w_node w = Regular (rendered_size (JObj d)) (Decoded (JObj d)))"

definition entries_distinct :: "authored \<Rightarrow> bool" where
  "entries_distinct v \<longleftrightarrow> list_all (\<lambda>(k, p). distinct_entries p) v"

lemma take_all_good: "good_playlists v \<Longrightarrow> take MAX_PLAYLISTS (in_key_order v) = in_key_order v"
  by (simp add: good_playlists_def capped_def in_key_order_def)

lemma file_written_reads:
  assumes "good_playlists v" "file_written w v"
  shows "\<exists>r. read_playlists (w_node w) = Inr r \<and> \<not> r_newer r \<and> r_value r = in_key_order v \<and>
    (r_fault r = None \<longleftrightarrow> entries_distinct v)"
proof -
  obtain u d where d: "playlists_document v u = Inr d" "rendered_size (JObj d) \<le> MAX_PLAYLISTS_BYTES"
    "json_encodable (JObj d)" and n: "w_node w = Regular (rendered_size (JObj d)) (Decoded (JObj d))"
    using assms(2) by (auto simp: file_written_def)
  have wf: "wf_authored v" using assms(1) by (simp add: good_playlists_def)
  show ?thesis
  proof (cases "entries_distinct v")
    case True
    then have "clean_authored v"
      using assms(1) by (simp add: good_playlists_def capped_def clean_authored_def entries_distinct_def)
    from read_playlists_written [OF wf this d(1-3)] n True show ?thesis by simp
  next
    case False
    have p: "project playlists_shape d = project playlists_shape (plain_playlists v)"
      using d(1) project_merge(1) [OF playlists_shape_flat]
      by (auto simp: playlists_document_def plain_playlists_def)
    have "newer_version_fault 2 (plain_playlists v) = None"
      by (simp add: newer_version_fault_def plain_playlists_def)
    then have old: "newer_version_fault 2 d = None" using playlists_version_project(1) p by metis
    then obtain r where r: "read_playlists (w_node w) = Inr r" "\<not> r_newer r"
      using d(2,3) n by (auto simp: read_playlists_def read_object_def decode_content_def Let_def split_beta)
    have v: "r_value r = in_key_order v"
      using read_written_value [OF wf d(1-3) r(1) [unfolded n]] take_all_good [OF assms(1)] by (rule trans)
    have "\<not> clean_authored (in_key_order v)"
      using False unfolding clean_authored_def entries_distinct_def list_all_iff set_in_key_order by blast
    then have "r_fault r \<noteq> None" using read_playlists_ok(2) [OF r(1)] v by metis
    with r v False show ?thesis by (intro exI [of _ r]) simp
  qed
qed

text \<open>
  From a well-formed, unambiguous store and file to such a store and file; and the file is as it was,
  or was moved aside by an operation that then failed, or holds what the store holds.
\<close>

definition playlist_safe :: "(authored store \<Rightarrow> world \<Rightarrow> authored store \<times> world) \<Rightarrow> bool" where
  "playlist_safe f \<longleftrightarrow> (\<forall>st w st1 w1. good_playlists (st_value st) \<longrightarrow> good_file w \<longrightarrow>
     f st w = (st1, w1) \<longrightarrow> good_playlists (st_value st1) \<and> good_file w1 \<and>
       (w1 = w \<or> w_node w1 = Absent \<or> file_written w1 (st_value st1) \<and> st_fault st1 = None))"

lemma safe_mutate_playlists:
  assumes "keeps_good change"
  shows "playlist_safe (\<lambda>st w. snd (mutate_playlists env refuse change st w))"
  unfolding playlist_safe_def
proof (intro allI impI)
  fix st w st1 w1
  assume good: "good_playlists (st_value st)" and disk: "good_file w"
    and "snd (mutate_playlists env refuse change st w) = (st1, w1)"
  then obtain res where t: "transact playlist_ops env refuse change st w = (res, st1, w1)"
    unfolding mutate_playlists_def by (metis prod.collapse)
  have val: "good_playlists (st_value st1)"
  proof (rule transact_keeps [OF t])
    show "\<And>v x b v'. good_playlists v \<Longrightarrow> change v = Inr (x, b, v') \<Longrightarrow> good_playlists v'"
      using assms unfolding keeps_good_def by blast
    show "\<And>r. op_read playlist_ops (w_node w) = Inr r \<Longrightarrow> good_playlists (r_value r)"
      using disk by (simp add: good_file_def)
  qed (rule good)
  from t have "good_file w1 \<and> (w1 = w \<or> w_node w1 = Absent \<or>
      file_written w1 (st_value st1) \<and> st_fault st1 = None)"
  proof (cases rule: transact_cases)
    case (not_saved r e x v)
    from persist_error [OF not_saved(5)] disk good_file_absent show ?thesis by metis
  next
    case (saved r x v)
    from persist_ok [OF saved(9)] obtain d where "playlists_document v (r_unknown r) = Inr d"
      "rendered_size (JObj d) \<le> MAX_PLAYLISTS_BYTES" "json_encodable (JObj d)"
      "w_node w1 = Regular (rendered_size (JObj d)) (Decoded (JObj d))" by auto
    moreover from this have "file_written w1 (st_value st1)"
      using saved(2) unfolding file_written_def by blast
    ultimately show ?thesis using val saved(2,3) good_file_written by blast
  qed (use disk in auto)
  with val show "good_playlists (st_value st1) \<and> good_file w1 \<and> (w1 = w \<or> w_node w1 = Absent \<or>
      file_written w1 (st_value st1) \<and> st_fault st1 = None)" by blast
qed

lemma safe_after_check:
  assumes "\<And>a. x = Inr a \<Longrightarrow> playlist_safe (\<lambda>st w. snd (k a st w))"
  shows "playlist_safe (\<lambda>st w. snd (after_check x k st w))"
proof (cases x)
  case (Inl e)
  then show ?thesis by (simp add: after_check_def playlist_safe_def)
next
  case (Inr a)
  with assms show ?thesis by (simp add: after_check_def)
qed

text \<open>
  The operations, with what their callers pass: identifiers \<open>new_id\<close> makes are texts of hexadecimal
  digits, an explicit entry id has no whitespace around it, and the source is an absolute path.
\<close>

definition usable_entry :: "pystr \<Rightarrow> pystr option \<Rightarrow> pystr \<Rightarrow> bool" where
  "usable_entry fresh chosen source \<longleftrightarrow>
     wf_entry \<lparr>entry_id = id_or_new chosen fresh, entry_source = source\<rparr>"

inductive playlist_operation :: "(authored store \<Rightarrow> world \<Rightarrow> authored store \<times> world) \<Rightarrow> bool" where
  op_create: "is_word fresh \<Longrightarrow> playlist_operation (\<lambda>st w. snd (create env fresh n i es c s st w))"
| op_rename: "playlist_operation (\<lambda>st w. snd (rename env ref n st w))"
| op_delete: "playlist_operation (\<lambda>st w. snd (delete env ref st w))"
| op_add: "usable_entry fresh i source \<Longrightarrow> playlist_operation (\<lambda>st w. snd (add_source env fresh ref source i st w))"
| op_singleton: "usable_entry fresh i source \<Longrightarrow>
    playlist_operation (\<lambda>st w. snd (set_singleton env fresh j n source i st w))"
| op_display: "usable_entry fresh i source \<Longrightarrow>
    playlist_operation (\<lambda>st w. snd (set_display_singleton env fresh c source i st w))"
| op_rotation: "playlist_operation (\<lambda>st w. snd (set_rotation env ref c s st w))"
| op_remove: "playlist_operation (\<lambda>st w. snd (remove_entry env ref i st w))"
| op_insert: "playlist_operation (\<lambda>st w. snd (insert_entries env ref ws st w))"
| op_remove_many: "playlist_operation (\<lambda>st w. snd (remove_entries env ref is st w))"
| op_move: "playlist_operation (\<lambda>st w. snd (move_entry env ref i position st w))"
| op_move_relative: "playlist_operation (\<lambda>st w. snd (move_entry_relative env ref i step st w))"
| op_forget: "playlist_operation (\<lambda>st w. snd (forget_path env source st w))"
| op_adopt_forget: "playlist_operation (\<lambda>st w. (snd (adopt_worker_forget_path source st), w))"
| op_adopt_repair: "playlist_operation (\<lambda>st w. (snd (adopt_worker_repair f st), w))"

lemma is_word_tidy: "is_word s \<Longrightarrow> s \<noteq> [] \<and> strip s = s"
  by (auto simp: is_word_def strip_no_space)

lemma keeps_good_flagged:
  assumes "\<And>p q. wf_playlist p \<Longrightarrow> f p = Inr q \<Longrightarrow> wf_playlist q \<and> pl_id q = pl_id p \<and> pl_name q = pl_name p"
  shows "keeps_good (change_playlist reference (\<lambda>p. map_sum id (\<lambda>q. (q, True)) (f p)))"
  by (rule change_playlist_good) (auto simp: map_sum_def split: sum.splits dest: assms)

lemma operation_playlist_safe: "playlist_operation f \<Longrightarrow> playlist_safe f"
proof (induction rule: playlist_operation.induct)
  case (op_create fresh env n i es c s)
  then show ?case unfolding create_def
    by (intro safe_after_check safe_mutate_playlists create_change_good)
      (auto dest: is_word_tidy intro: new_authored_wf)
next
  case (op_rename env ref n)
  then show ?case unfolding rename_def
    by (intro safe_after_check safe_mutate_playlists renamed_good)
next
  case (op_delete env ref)
  then show ?case unfolding delete_def by (intro safe_mutate_playlists delete_change_good)
next
  case (op_add fresh i source env ref)
  then show ?case unfolding add_source_def usable_entry_def
    by (intro safe_mutate_playlists keeps_good_flagged) (rule with_added_wf)
next
  case (op_singleton fresh i source env j n)
  then show ?case unfolding set_singleton_def usable_entry_def
    by (intro safe_after_check safe_mutate_playlists set_singleton_change_good)
      (auto dest: playlist_identifier_ok tidy_playlist_name_ok)
next
  case (op_display fresh i source env c)
  then show ?case unfolding set_display_singleton_def usable_entry_def
    by (intro safe_after_check safe_mutate_playlists set_display_change_good)
      (auto dest: display_quick_choice_id_ok display_quick_choice_name_ok)
next
  case (op_rotation env ref c s)
  then show ?case unfolding set_rotation_def
    by (intro safe_after_check safe_mutate_playlists change_playlist_good) (rule set_rotation_of_wf)
next
  case (op_remove env ref i)
  then show ?case unfolding remove_entry_def
    by (intro safe_mutate_playlists keeps_good_flagged) (rule without_wf)
next
  case (op_insert env ref ws)
  then show ?case unfolding insert_entries_def
    by (intro safe_after_check safe_mutate_playlists change_playlist_good) (rule insert_entries_of_wf, auto)
next
  case (op_remove_many env ref is')
  then show ?case unfolding remove_entries_def
    by (intro safe_mutate_playlists change_playlist_good) (rule remove_entries_of_wf)
next
  case (op_move env ref i position)
  then show ?case unfolding move_entry_def
    by (intro safe_mutate_playlists keeps_good_flagged) (rule moved_wf)
next
  case (op_move_relative env ref i step)
  then show ?case unfolding move_entry_relative_def
    by (intro safe_mutate_playlists change_playlist_good) (rule move_relative_of_wf)
next
  case (op_forget env source)
  then show ?case unfolding forget_path_def by (intro safe_mutate_playlists forget_path_change_good)
next
  case (op_adopt_forget source)
  then show ?case by (simp add: playlist_safe_def adopt_worker_forget_path_def forget_all_good)
next
  case (op_adopt_repair f)
  then show ?case by (auto simp: playlist_safe_def adopt_worker_repair_def split: if_splits)
qed

end
