(* ===== verification/Playlist_Guarantees.thy ===== *)
theory Playlist_Guarantees
  imports Playlist_System
begin

text \<open>
  The properties of the playlists: what is saved reads back, every reachable state keeps its
  identities apart and its caps, a reference finds one playlist, and what renaming, taking entries
  out and putting them back, dragging, and the display choices do.
\<close>

section \<open>Samples\<close>

definition entry_at :: "string \<Rightarrow> string \<Rightarrow> entry" where
  "entry_at i s = \<lparr>entry_id = lit i, entry_source = lit s\<rparr>"

definition city :: playlist where
  "city = \<lparr>pl_id = lit ''c1'', pl_name = lit ''City'',
     pl_entries = [entry_at ''e1'' ''/w/a'', entry_at ''e2'' ''/w/b'', entry_at ''e3'' ''/w/a''],
     pl_cycle = Some 60, pl_shuffle = Some True\<rparr>"

definition quiet :: playlist where
  "quiet = \<lparr>pl_id = lit ''a9'', pl_name = lit ''Quiet'', pl_entries = [], pl_cycle = None,
     pl_shuffle = None\<rparr>"

definition two_playlists :: authored where
  "two_playlists = [(lit ''a9'', quiet), (lit ''c1'', city)]"

definition playlists_world :: world where
  "playlists_world = holding (plain_playlists two_playlists)"

definition playlists_store :: "authored store" where
  "playlists_store = \<lparr>st_value = two_playlists, st_fault = None, st_kind = None, st_loaded = True\<rparr>"

lemma two_playlists_good: "good_playlists two_playlists"
proof -
  have "wf_authored two_playlists" by code_simp
  moreover have "unambiguous two_playlists" by code_simp
  moreover have "capped two_playlists" by code_simp
  ultimately show ?thesis by (simp add: good_playlists_def)
qed

lemma playlists_world_reads:
  "\<exists>r. read_playlists (w_node playlists_world) = Inr r \<and> r_fault r = None \<and> \<not> r_newer r \<and>
     r_value r = two_playlists"
proof -
  have "case read_playlists (w_node playlists_world) of Inl _ \<Rightarrow> False
      | Inr r \<Rightarrow> r_fault r = None \<and> \<not> r_newer r \<and> r_value r = two_playlists"
    by code_simp
  then show ?thesis by (auto split: sum.splits)
qed

lemma playlists_world_good: "good_file playlists_world"
  using playlists_world_reads two_playlists_good by (auto simp: good_file_def)

section \<open>What is saved reads back\<close>

text \<open>C24: Let the store's playlists and those of the file be well formed, unambiguous and within the caps
  (\<open>good_playlists\<close>, \<open>good_file\<close>: no id or name of one is another's in any letter case, at most 64 of
  them display choices and 577 in all), as every state that processes reach by the operations has them; a
  file edited by hand may be outside these caps and fault-free, and then a save can exceed them. Whatever
  operation runs, with ids and sources the callers pass (\<open>playlist_operation\<close>), and whatever the operating
  system answers: unless the file stays as it is, or was moved aside by an operation that then could not
  save, the store reports no fault and the next reader finds exactly the playlists the store now holds, in
  the order of their ids, with no fault exactly when no playlist holds an entry id twice. (A damaged file
  whose fault is such a pair is therefore moved aside, rewritten with the pair still in it, and called
  repaired; it faults again the next time it is read.)\<close>

theorem playlist_save_reads_back:
  assumes "playlist_operation f" and "good_playlists (st_value st)" and "good_file w"
    and "f st w = (st1, w1)" and "w_node w1 \<notin> {w_node w, Absent}"
  shows "st_fault st1 = None \<and>
    (\<exists>r. read_playlists (w_node w1) = Inr r \<and> \<not> r_newer r \<and> r_value r = in_key_order (st_value st1) \<and>
       (r_fault r = None \<longleftrightarrow> entries_distinct (st_value st1)))"
proof -
  have "good_playlists (st_value st1)" and
    "w1 = w \<or> w_node w1 = Absent \<or> file_written w1 (st_value st1) \<and> st_fault st1 = None"
    using operation_playlist_safe [OF assms(1)] assms(2-4) unfolding playlist_safe_def by blast+
  with assms(5) file_written_reads show ?thesis by auto
qed

text \<open>A file with one entry id twice in a playlist, and a wallpaper added to another playlist.\<close>

definition twice :: playlist where
  "twice = city\<lparr>pl_entries := [entry_at ''e1'' ''/w/a'', entry_at ''e1'' ''/w/b'']\<rparr>"

definition twice_world :: world where
  "twice_world = holding (plain_playlists [(lit ''a9'', quiet), (lit ''c1'', twice)])"

lemma twice_world_good: "good_file twice_world"
proof -
  have "case read_playlists (w_node twice_world) of Inl _ \<Rightarrow> False
      | Inr r \<Rightarrow> r_value r = [(lit ''a9'', quiet), (lit ''c1'', twice)]"
    by code_simp
  moreover have "wf_authored [(lit ''a9'', quiet), (lit ''c1'', twice)]"
    "unambiguous [(lit ''a9'', quiet), (lit ''c1'', twice)]"
    "capped [(lit ''a9'', quiet), (lit ''c1'', twice)]"
    by code_simp+
  ultimately show ?thesis by (auto simp: good_file_def good_playlists_def)
qed

theorem playlist_save_reads_back_witness:
  "\<exists>st1 w1 r. snd (add_source calm (lit ''f0'') (lit ''quiet'') (lit ''/w/c'') None playlists_store twice_world) =
       (st1, w1) \<and>
     st_fault st1 = None \<and> read_playlists (w_node w1) = Inr r \<and> r_value r = in_key_order (st_value st1) \<and>
     r_fault r \<noteq> None \<and> w_backups w1 = [w_node twice_world]"
proof -
  let ?add = "\<lambda>st w. snd (add_source calm (lit ''f0'') (lit ''quiet'') (lit ''/w/c'') None st w)"
  obtain st1 w1 where run: "?add playlists_store twice_world = (st1, w1)" by fastforce
  have "case ?add playlists_store twice_world of (st1, w1) \<Rightarrow>
      w_node w1 \<notin> {w_node twice_world, Absent} \<and> \<not> entries_distinct (st_value st1) \<and>
      w_backups w1 = [w_node twice_world]"
    by code_simp
  with run have facts: "w_node w1 \<notin> {w_node twice_world, Absent}" "\<not> entries_distinct (st_value st1)"
    "w_backups w1 = [w_node twice_world]" by simp_all
  have "usable_entry (lit ''f0'') None (lit ''/w/c'')" by code_simp
  note op = op_add [OF this, of calm "lit ''quiet''"]
  have "good_playlists (st_value playlists_store)"
    by (simp add: playlists_store_def two_playlists_good)
  from playlist_save_reads_back [OF op this twice_world_good run facts(1)] run facts(2,3)
  show ?thesis by blast
qed

section \<open>Reachable states\<close>

text \<open>
  Several processes, each with a store of its own, on one file: an operation runs, a store is opened
  or copied, or the file is replaced from outside, by one whose playlists are told apart.
\<close>

inductive playlist_system ::
  "(nat \<Rightarrow> authored store) \<times> world \<Rightarrow> (nat \<Rightarrow> authored store) \<times> world \<Rightarrow> bool"
where
  operated: "playlist_operation f \<Longrightarrow> f (sts p) w = (st1, w1) \<Longrightarrow> playlist_system (sts, w) (sts(p := st1), w1)"
| reopened: "open_playlists w = Inr st \<Longrightarrow> playlist_system (sts, w) (sts(p := st), w)"
| recopied: "worker_copy_playlists rebase (sts p) w = Inr st \<Longrightarrow> playlist_system (sts, w) (sts(q := st), w)"
| replaced: "good_file (w\<lparr>w_node := n\<rparr>) \<Longrightarrow> playlist_system (sts, w) (sts, w\<lparr>w_node := n\<rparr>)"

inductive_cases playlist_systemE: "playlist_system s s'"

definition good_state :: "(nat \<Rightarrow> authored store) \<times> world \<Rightarrow> bool" where
  "good_state s \<longleftrightarrow> (\<forall>p. good_playlists (st_value (fst s p))) \<and> good_file (snd s)"

lemma open_playlists_good: "open_playlists w = Inr st \<Longrightarrow> good_file w \<Longrightarrow> good_playlists (st_value st)"
  by (auto simp: open_playlists_def open_store_def good_file_def split: sum.splits)

lemma playlist_system_good: "playlist_system s s' \<Longrightarrow> good_state s \<Longrightarrow> good_state s'"
proof (induction rule: playlist_system.induct)
  case (operated f sts p w st1 w1)
  have "good_playlists (st_value (sts p))" "good_file w"
    using operated.prems by (simp_all add: good_state_def)
  then have "good_playlists (st_value st1) \<and> good_file w1"
    using operation_playlist_safe [OF operated(1)] operated(2) unfolding playlist_safe_def by blast
  with operated.prems show ?case by (simp add: good_state_def)
next
  case (reopened w st sts p)
  then show ?case using open_playlists_good by (auto simp: good_state_def)
next
  case (recopied rebase sts p w st q)
  then show ?case using open_playlists_good [unfolded open_playlists_def]
    by (auto simp: good_state_def worker_copy_playlists_def worker_copy_def split: if_splits)
next
  case (replaced w n sts)
  then show ?case by (simp add: good_state_def)
qed

text \<open>C25: In every state that processes working on well-formed, unambiguous playlists can reach, every
  store's playlists are well formed, no id or name of one is, in any letter case, the id or name of
  another, at most 64 of them are display choices, and there are at most 577 in all: so a save never
  makes a file its own reader would cut short.\<close>

theorem playlist_invariant:
  assumes "playlist_system\<^sup>*\<^sup>* (sts, w) (sts', w')"
    and "\<forall>p. good_playlists (st_value (sts p))" and "good_file w"
  shows "wf_authored (st_value (sts' p)) \<and> unambiguous (st_value (sts' p)) \<and>
    display_choice_count (st_value (sts' p)) \<le> 64 \<and> length (st_value (sts' p)) \<le> 577 \<and> good_file w'"
proof -
  have "good_state s" if "playlist_system\<^sup>*\<^sup>* (sts, w) s" for s
    using that
  proof (induction rule: rtranclp_induct)
    case base
    with assms(2,3) show ?case by (simp add: good_state_def)
  next
    case (step s t)
    then show ?case using playlist_system_good by blast
  qed
  from this [OF assms(1)] show ?thesis
    by (simp add: good_state_def good_playlists_def capped_def MAX_PLAYLISTS_def
        MAX_AUTHORED_PLAYLISTS_def MAX_DISPLAY_QUICK_CHOICES_def)
qed

theorem playlist_invariant_witness:
  "\<exists>st1 w1. playlist_system\<^sup>*\<^sup>* ((\<lambda>_. playlists_store), playlists_world)
       ((\<lambda>_. playlists_store)(0 := st1), w1) \<and>
     unambiguous (st_value st1) \<and> length (st_value st1) = 3"
proof -
  let ?make = "\<lambda>st w. snd (create calm (lit ''f0'') (lit ''Night'') None [] JNull JNull st w)"
  obtain st1 w1 where run: "?make playlists_store playlists_world = (st1, w1)" by fastforce
  have "length (st_value (fst (?make playlists_store playlists_world))) = 3" by code_simp
  with run have len: "length (st_value st1) = 3" by simp
  have "is_word (lit ''f0'')" by (simp add: is_word_def no_space_def lit_def cp_isspace_def)
  then have "playlist_system ((\<lambda>_. playlists_store), playlists_world) ((\<lambda>_. playlists_store)(0 := st1), w1)"
    using operated [OF op_create, of "lit ''f0''" calm "lit ''Night''" None "[]" JNull JNull
        "\<lambda>_. playlists_store" 0 playlists_world] run by simp
  then have steps: "playlist_system\<^sup>*\<^sup>* ((\<lambda>_. playlists_store), playlists_world)
      ((\<lambda>_. playlists_store)(0 := st1), w1)" by blast
  have "\<forall>p :: nat. good_playlists (st_value ((\<lambda>_. playlists_store) p))"
    by (simp add: playlists_store_def two_playlists_good)
  from playlist_invariant [OF steps this playlists_world_good, of 0] len steps show ?thesis by auto
qed

section \<open>References\<close>

lemma good_mset: "mset d' = mset d \<Longrightarrow> good_playlists d \<Longrightarrow> good_playlists d'"
proof -
  assume m: "mset d' = mset d" and d: "good_playlists d"
  have keys: "mset (map fst d') = mset (map fst d)" using m by simp
  have s: "set d' = set d" and l: "length d' = length d"
    using m by (metis set_mset_mset, metis size_mset)
  have "mset (filter P (map fst d')) = mset (filter P (map fst d))" for P
    using keys by (simp del: mset_map)
  then have "display_choice_count d' = display_choice_count d"
    unfolding display_choice_count_def by (metis size_mset)
  moreover have "distinct (map fst d') \<longleftrightarrow> distinct (map fst d)"
    using keys by (rule mset_eq_imp_distinct_iff)
  ultimately show ?thesis
    using d s l unambiguous_subset [of d d'] by (simp add: good_playlists_def wf_authored_def list_all_iff capped_def)
qed

lemma by_name_mset:
  assumes "mset d' = mset d" "good_playlists d"
  shows "by_name d' reference = by_name d reference"
proof -
  have good: "good_playlists d'" and s: "set d' = set d"
    using good_mset [OF assms] assms(1) by (simp, metis set_mset_mset)
  show ?thesis
  proof (cases "by_name d reference")
    case (Some p)
    from by_name_SomeD [OF this] obtain k where "(k, p) \<in> set d'"
      "strip (casefold reference) = casefold (pl_name p)" using s by blast
    from by_name_only [OF good this] Some show ?thesis by simp
  next
    case None
    then show ?thesis
    proof (cases "by_name d' reference")
      case (Some p)
      from by_name_SomeD [OF this] obtain k where "(k, p) \<in> set d"
        "strip (casefold reference) = casefold (pl_name p)" using s by blast
      from by_name_only [OF assms(2) this] None show ?thesis by simp
    qed simp
  qed
qed

text \<open>C26: Among unambiguous playlists a reference means one playlist: every playlist is found by its id
  and by its name in any letter case, even where the name is typed with the id of another, and what a
  reference finds does not depend on the order of the map.\<close>

theorem references_find_one:
  assumes "good_playlists d" and "(k, p) \<in> set d"
  shows "find_in d k = Inr p \<and>
    (\<forall>reference. casefold reference = casefold (pl_name p) \<longrightarrow> find_in d reference = Inr p) \<and>
    (\<forall>d' reference. mset d' = mset d \<longrightarrow> find_in d' reference = find_in d reference)"
proof (intro conjI allI impI)
  have keys: "distinct (map fst d)" and wf: "wf_authored d" and apart: "unambiguous d"
    using assms(1) by (simp_all add: good_playlists_def wf_authored_def)
  have k: "map_of d k = Some p" using assms(2) keys by simp
  then show "find_in d k = Inr p" by (simp add: find_in_def)
  fix reference assume fold: "casefold reference = casefold (pl_name p)"
  have "strip (pl_name p) = pl_name p" using wf_authoredD(1) [OF wf assms(2)] by (simp add: wf_playlist_def)
  then have name: "strip (casefold reference) = casefold (pl_name p)"
    using strip_casefold fold by simp
  show "find_in d reference = Inr p"
  proof (cases "map_of d reference")
    case None
    with by_name_only [OF assms name] show ?thesis by (simp add: find_in_def)
  next
    case (Some q)
    then have q: "(reference, q) \<in> set d" by (rule map_of_SomeD)
    then have "pl_id q = reference" using wf_authoredD(1) [OF wf] by blast
    then have "tokens p \<inter> tokens q \<noteq> {}" using fold by (auto simp: tokens_def)
    then have "reference = k" using unambiguousD [OF apart assms(2) q] by blast
    with k show ?thesis by (simp add: find_in_def)
  qed
next
  fix d' :: authored and reference
  assume m: "mset d' = mset d"
  have "distinct (map fst d')" using good_mset [OF m assms(1)] by (simp add: good_playlists_def wf_authored_def)
  then have "map_of d' = map_of d"
    using m assms(1) by (intro map_of_inject_set [THEN iffD2])
      (auto simp: good_playlists_def wf_authored_def dest: mset_eq_setD)
  with by_name_mset [OF m assms(1)] show "find_in d' reference = find_in d reference"
    by (simp only: find_in_def)
qed

theorem references_find_one_witness:
  "find_in (rev two_playlists) (lit ''QUIET'') = Inr quiet"
proof -
  have "(lit ''a9'', quiet) \<in> set two_playlists" by (simp add: two_playlists_def)
  note one = references_find_one [OF two_playlists_good this]
  have "casefold (lit ''QUIET'') = casefold (pl_name quiet)" by code_simp
  then have "find_in two_playlists (lit ''QUIET'') = Inr quiet" using one by blast
  moreover have "mset (rev two_playlists) = mset two_playlists" by simp
  ultimately show ?thesis using one by metis
qed

section \<open>Renaming\<close>

lemma tidy_playlist_name_error: "tidy_playlist_name name = Inl e \<Longrightarrow> e = Err InvalidName"
  by (auto simp: tidy_playlist_name_def Let_def split: if_splits)

text \<open>The operating system lets the transaction finish.\<close>

definition works :: "env \<Rightarrow> bool" where
  "works env \<longleftrightarrow> e_lock env \<and> e_observe env \<and> e_directory env \<and> e_publish env \<noteq> Failed"

lemma persist_working:
  "works env \<Longrightarrow> persist playlist_ops env None v u w = (x, w1) \<Longrightarrow>
     x = Inr () \<or> x = Inl (Err Full) \<or> x = Inl ValueErr"
  by (auto simp: persist_def save_document_def render_document_def render_json_def works_def
      playlists_document_def split: if_splits outcome.splits)

lemma renamed_error: "renamed reference tidy d = Inl e \<Longrightarrow> e = Err NoSuchPlaylist \<or> e = Err IdentityConflict"
  by (auto simp: renamed_def and_then_def find_in_def validate_identity_def split: sum.splits
      option.splits if_splits)

lemma read_playlists_Inr: "\<exists>r. read_playlists n = Inr r"
  by (auto simp: read_playlists_def Let_def split: prod.split option.split)

text \<open>\<open>rename_problem\<close> tells the truth about \<open>rename\<close>. Where it names a problem, renaming now fails
  and writes nothing, with that very error where the name is a name and the file can be inspected.
  Where it names none and the operating system lets it, renaming succeeds, or fails only because the
  document would be too large or does not encode.\<close>

theorem rename_problem_exact:
  assumes "works env" and "rename env reference name st w = (res, st1, w1)"
  shows "(\<forall>k. rename_problem reference name st w = Some k \<longrightarrow>
       \<not> is_ok res \<and> w1 = w \<and>
       (is_ok (tidy_playlist_name name) \<and> w_node w \<noteq> Uninspectable \<longrightarrow> res = Inl (Err k))) \<and>
     (rename_problem reference name st w = None \<longrightarrow>
       is_ok res \<or> res = Inl (Err Full) \<or> res = Inl ValueErr)"
proof -
  obtain r where r: "read_playlists (w_node w) = Inr r" using read_playlists_Inr by blast
  let ?base = "if w_node w \<noteq> Absent \<or> st_loaded st then r_value r else st_value st"
  have uninspectable: "r_fault r \<noteq> None" if "w_node w = Uninspectable"
    using r that by (auto simp: read_playlists_def read_object_def)
  show ?thesis
  proof (cases "tidy_playlist_name name")
    case (Inl e)
    with assms(2) show ?thesis
      using tidy_playlist_name_error [OF Inl] r
      by (auto simp: rename_def after_check_def rename_problem_def Let_def)
  next
    case (Inr tidy)
    with assms have t: "transact playlist_ops env True (renamed reference tidy) st w = (res, st1, w1)"
      by (simp add: rename_def after_check_def mutate_playlists_def)
    show ?thesis
    proof (cases "r_newer r \<or> r_fault r \<noteq> None")
      case True
      with t r assms(1) Inr show ?thesis
        by (auto simp: transact_def rename_problem_def Let_def works_def split: if_splits)
    next
      case fine: False
      then have "w_node w \<noteq> Uninspectable" using uninspectable by blast
      show ?thesis
      proof (cases "renamed reference tidy ?base")
        case (Inl e)
        with t r fine \<open>w_node w \<noteq> Uninspectable\<close> assms(1) \<open>tidy_playlist_name name = Inr tidy\<close>
        show ?thesis
          using renamed_error [OF Inl]
          by (auto simp: transact_def rename_problem_def Let_def works_def split: if_splits)
      next
        case (Inr y)
        obtain x b v where y: "y = (x, b, v)" by (cases y)
        from Inr y r fine have none: "rename_problem reference name st w = None"
          using \<open>tidy_playlist_name name = Inr tidy\<close> by (simp add: rename_problem_def Let_def)
        obtain z w2 where p: "persist playlist_ops env None v (r_unknown r) w = (z, w2)" by fastforce
        from t r fine \<open>w_node w \<noteq> Uninspectable\<close> assms(1) Inr y p
        have "is_ok res \<or> (\<exists>e. z = Inl e \<and> res = Inl e)"
          by (auto simp: transact_def Let_def works_def is_ok_def split: if_splits sum.splits)
        with none persist_working [OF assms(1) p] show ?thesis by auto
      qed
    qed
  qed
qed

theorem rename_problem_exact_witness:
  "rename_problem (lit ''c1'') (lit ''quiet'') playlists_store playlists_world = Some IdentityConflict \<and>
     fst (rename calm (lit ''c1'') (lit ''quiet'') playlists_store playlists_world) = Inl (Err IdentityConflict)"
proof -
  obtain res st1 w1 where run:
    "rename calm (lit ''c1'') (lit ''quiet'') playlists_store playlists_world = (res, st1, w1)"
    by (metis prod_cases3)
  have problem: "rename_problem (lit ''c1'') (lit ''quiet'') playlists_store playlists_world =
      Some IdentityConflict" by code_simp
  have "works calm" "is_ok (tidy_playlist_name (lit ''quiet''))" "w_node playlists_world \<noteq> Uninspectable"
    by code_simp+
  with rename_problem_exact [OF _ run] problem run show ?thesis by simp
qed

section \<open>Entries taken out go back\<close>

text \<open>The entries a removal takes out, each with its position in the list, smallest first.\<close>

definition taken_out :: "pystr list \<Rightarrow> playlist \<Rightarrow> (int \<times> entry) list" where
  "taken_out wanted p =
     map (\<lambda>(i, e). (int i, e))
       (filter (\<lambda>(i, e). entry_id e \<in> set wanted) (zip [0..<length (pl_entries p)] (pl_entries p)))"

lemma place_taken_out:
  assumes "distinct (map entry_id (pre @ suf))"
  shows "place_entries
      (map (\<lambda>(i, e). (int i, e)) (filter (\<lambda>(i, e). P e) (zip [length pre..<length pre + length suf] suf)))
      (pre @ filter (\<lambda>e. \<not> P e) suf) = Inr (pre @ suf)"
  using assms
proof (induction suf arbitrary: pre)
  case (Cons e suf)
  let ?zip = "\<lambda>n xs. zip [n..<n + length xs] xs"
  have split: "?zip (length pre) (e # suf) = (length pre, e) # ?zip (length (pre @ [e])) suf"
    by (simp add: upt_conv_Cons [of "length pre"] del: upt_Suc)
  have ih: "place_entries
      (map (\<lambda>(i, e). (int i, e)) (filter (\<lambda>(i, e). P e) (?zip (length (pre @ [e])) suf)))
      ((pre @ [e]) @ filter (\<lambda>e. \<not> P e) suf) = Inr ((pre @ [e]) @ suf)"
    using Cons.prems by (intro Cons.IH) simp
  show ?case
  proof (cases "P e")
    case True
    let ?rest = "pre @ filter (\<lambda>e. \<not> P e) suf"
    have "entry_id e \<notin> entry_id ` set ?rest" using Cons.prems by auto
    moreover have "insert_at (clamp (length ?rest) (int (length pre))) e ?rest =
        (pre @ [e]) @ filter (\<lambda>e. \<not> P e) suf"
      by (simp add: clamp_id insert_at_def)
    ultimately show ?thesis using True ih unfolding split by simp
  next
    case False
    with ih show ?thesis unfolding split by simp
  qed
qed simp

lemma check_placed_ok: "\<forall>(i, e)\<in>set ws. wf_entry e \<Longrightarrow> check_placed ws = Inr ()"
  by (induction ws rule: check_placed.induct) (auto simp: wf_entry_def)

text \<open>C27: Taking entries out of a playlist and putting them back at their old positions, smallest first,
  restores it exactly: same entries, same ids, same order, and every other playlist untouched.\<close>

theorem removed_entries_go_back:
  assumes "good_playlists d" and "map_of d k = Some p" and "distinct_entries p"
    and "change_playlist k (remove_entries_of wanted) d = Inr (q, b, d1)"
  shows "check_placed (taken_out wanted p) = Inr () \<and>
    (\<exists>c d2. change_playlist k (insert_entries_of (taken_out wanted p)) d1 = Inr (p, c, d2) \<and>
       map_of d2 = map_of d)"
proof -
  have p: "pl_id p = k" "wf_playlist p" using good_authoredD [OF assms(1,2)] by simp_all
  let ?kept = "filter (\<lambda>e. entry_id e \<notin> set wanted) (pl_entries p)"
  have find: "find_in d k = Inr p" using assms(2) by (simp add: find_in_def)
  with assms(4) have q: "q = p\<lparr>pl_entries := ?kept\<rparr>" and d1: "d1 = AList.update k q d"
    using p(1) by (auto simp: change_playlist_def remove_entries_of_def split: if_splits)
  have zip: "set (map snd (zip [0..<length (pl_entries p)] (pl_entries p))) = set (pl_entries p)" by simp
  have "e \<in> set (pl_entries p)" if "(i, e) \<in> set (taken_out wanted p)" for i e
    using that by (auto simp: taken_out_def dest: set_zip_rightD)
  then have check: "check_placed (taken_out wanted p) = Inr ()"
    using p(2) by (intro check_placed_ok) (auto simp: wf_playlist_def list_all_iff)
  have place: "place_entries (taken_out wanted p) ?kept = Inr (pl_entries p)"
    using place_taken_out [of "[]" "pl_entries p" "\<lambda>e. entry_id e \<in> set wanted"] assms(3)
    by (simp add: taken_out_def distinct_entries_def)
  have room: "length ?kept + length (taken_out wanted p) \<le> MAX_PLAYLIST_ENTRIES"
    using place_entries_wf [OF place check] p(2) by (auto simp: wf_playlist_def list_all_iff)
  have "find_in d1 k = Inr q" by (simp add: d1 find_in_def)
  then have "change_playlist k (insert_entries_of (taken_out wanted p)) d1 =
      Inr (p, taken_out wanted p \<noteq> [], AList.update k p d1)"
    using place room q p(1) by (simp add: change_playlist_def insert_entries_of_def)
  moreover have "map_of (AList.update k p d1) = map_of d"
    using assms(2) by (auto simp: d1 fun_eq_iff)
  ultimately show ?thesis using check by blast
qed

theorem removed_entries_go_back_witness:
  "\<exists>q b d1 c d2. change_playlist (lit ''c1'') (remove_entries_of [lit ''e3'', lit ''e1'']) two_playlists =
       Inr (q, b, d1) \<and> length (pl_entries q) = 1 \<and>
     change_playlist (lit ''c1'') (insert_entries_of (taken_out [lit ''e3'', lit ''e1''] city)) d1 =
       Inr (city, c, d2)"
proof -
  let ?r = "change_playlist (lit ''c1'') (remove_entries_of [lit ''e3'', lit ''e1'']) two_playlists"
  have "case ?r of Inl _ \<Rightarrow> False | Inr (q, b, d1) \<Rightarrow> length (pl_entries q) = 1" by code_simp
  then obtain q b d1 where r: "?r = Inr (q, b, d1)" "length (pl_entries q) = 1"
    by (auto split: sum.splits)
  have "map_of two_playlists (lit ''c1'') = Some city" "distinct_entries city" by code_simp+
  from removed_entries_go_back [OF two_playlists_good this r(1)] r show ?thesis by blast
qed

section \<open>Dragging an entry\<close>

lemma moved_ids:
  assumes "distinct_entries p" "moved i position p = Inr q"
  shows "map entry_id (pl_entries q) =
    (let rest = filter (\<lambda>j. j \<noteq> i) (map entry_id (pl_entries p))
     in insert_at (clamp (length rest) position) i rest)"
proof -
  let ?rest = "filter (\<lambda>e. entry_id e \<noteq> i) (pl_entries p)"
  obtain e where e: "find (\<lambda>e. entry_id e = i) (pl_entries p) = Some e"
    and q: "q = p\<lparr>pl_entries := insert_at (clamp (length ?rest) position) e ?rest\<rparr>"
    using assms(2) by (auto simp: moved_def Let_def split: option.splits)
  have rest: "filter (\<lambda>j. j \<noteq> i) (map entry_id (pl_entries p)) = map entry_id ?rest"
    by (simp add: filter_map o_def)
  have "entry_id e = i" using find_SomeD [OF e] by simp
  then show ?thesis unfolding rest Let_def length_map
    by (simp add: q insert_at_def take_map drop_map)
qed

lemma filter_insert_at: "i \<notin> set xs \<Longrightarrow> filter (\<lambda>j. j \<noteq> i) (insert_at n i xs) = xs"
proof -
  assume "i \<notin> set xs"
  then have "filter (\<lambda>j. j \<noteq> i) (take n xs) = take n xs" "filter (\<lambda>j. j \<noteq> i) (drop n xs) = drop n xs"
    by (auto intro!: filter_True dest: in_set_takeD in_set_dropD)
  then show ?thesis by (simp add: insert_at_def)
qed

lemma insert_at_own_place:
  "distinct xs \<Longrightarrow> find_index (\<lambda>j. j = i) xs = Some n \<Longrightarrow>
     n \<le> length (filter (\<lambda>j. j \<noteq> i) xs) \<and> insert_at n i (filter (\<lambda>j. j \<noteq> i) xs) = xs"
proof (induction xs arbitrary: n)
  case (Cons x xs)
  show ?case
  proof (cases "x = i")
    case True
    with Cons.prems have "filter (\<lambda>j. j \<noteq> i) xs = xs" by (intro filter_True) auto
    with True Cons.prems(2) show ?thesis by (simp add: insert_at_def)
  next
    case False
    with Cons.prems(2) obtain m where "find_index (\<lambda>j. j = i) xs = Some m" "n = Suc m" by auto
    with Cons False show ?thesis by (simp add: insert_at_def)
  qed
qed simp

lemma insert_at_anchor:
  assumes "find_index (\<lambda>j. j = a) xs = Some n"
  shows "Suc n \<le> length xs" and "insert_at n i xs = take n xs @ [i, a] @ drop (Suc n) xs"
    and "insert_at (Suc n) i xs = take n xs @ [a, i] @ drop (Suc n) xs"
proof -
  from find_index_Some [OF assms] have n: "n < length xs" "xs ! n = a" by simp_all
  then show "Suc n \<le> length xs" by simp
  have "drop n xs = a # drop (Suc n) xs" using n by (metis Cons_nth_drop_Suc)
  then show "insert_at n i xs = take n xs @ [i, a] @ drop (Suc n) xs" by (simp add: insert_at_def)
  have "take (Suc n) xs = take n xs @ [a]" using n by (simp add: take_Suc_conv_app_nth)
  then show "insert_at (Suc n) i xs = take n xs @ [a, i] @ drop (Suc n) xs" by (simp add: insert_at_def)
qed

lemma moved_succeeds: "i \<in> entry_id ` set (pl_entries p) \<Longrightarrow> \<exists>q. moved i position p = Inr q"
  by (auto simp: moved_def Let_def find_None_iff split: option.split)

text \<open>Dropping an entry before or after another puts it right there, dropping it on itself leaves the
  list as it is, and dropping it beside nothing puts it last. The other entries keep their order.\<close>

theorem dragged_entry_lands:
  assumes "distinct_entries p" and "i \<in> entry_id ` set (pl_entries p)"
    and "position = drop_position (map entry_id (pl_entries p)) i anchor after"
  shows "\<exists>q. moved i (int position) p = Inr q \<and>
    filter (\<lambda>j. j \<noteq> i) (map entry_id (pl_entries q)) = filter (\<lambda>j. j \<noteq> i) (map entry_id (pl_entries p)) \<and>
    (case anchor of
       None \<Rightarrow> last (map entry_id (pl_entries q)) = i
     | Some a \<Rightarrow>
         if a = i then map entry_id (pl_entries q) = map entry_id (pl_entries p)
         else if a \<notin> entry_id ` set (pl_entries p) then last (map entry_id (pl_entries q)) = i
         else \<exists>xs ys. map entry_id (pl_entries q) = xs @ (if after then [a, i] else [i, a]) @ ys)"
proof -
  let ?ids = "map entry_id (pl_entries p)"
  let ?rest = "filter (\<lambda>j. j \<noteq> i) ?ids"
  have dist: "distinct ?ids" using assms(1) by (simp add: distinct_entries_def)
  obtain q where q: "moved i (int position) p = Inr q" using moved_succeeds assms(2) by blast
  have ids: "map entry_id (pl_entries q) = insert_at (clamp (length ?rest) (int position)) i ?rest"
    using moved_ids [OF assms(1) q] by (simp add: Let_def)
  have order: "filter (\<lambda>j. j \<noteq> i) (insert_at n i ?rest) = ?rest" for n
    by (rule filter_insert_at) simp
  have at_end: "insert_at (clamp (length ?rest) (int (length ?rest))) i ?rest = ?rest @ [i]"
    by (simp only: clamp_id [OF order_refl]) (simp add: insert_at_def)
  have goal: ?thesis if "case anchor of
       None \<Rightarrow> last (map entry_id (pl_entries q)) = i
     | Some a \<Rightarrow>
         if a = i then map entry_id (pl_entries q) = ?ids
         else if a \<notin> entry_id ` set (pl_entries p) then last (map entry_id (pl_entries q)) = i
         else \<exists>xs ys. map entry_id (pl_entries q) = xs @ (if after then [a, i] else [i, a]) @ ys"
    using q that order ids by (intro exI [of _ q]) simp
  show ?thesis
  proof (cases anchor)
    case None
    then have "position = length ?rest" using assms(3) by (simp add: drop_position_def)
    with ids at_end have "map entry_id (pl_entries q) = ?rest @ [i]" by simp
    with None show ?thesis by (intro goal) (simp only: option.case last_snoc)
  next
    case (Some a)
    consider (itself) "a = i" | (absent) "a \<noteq> i" "a \<notin> set ?ids" | (beside) "a \<noteq> i" "a \<in> set ?ids"
      by blast
    then show ?thesis
    proof cases
      case itself
      then obtain n where n: "find_index (\<lambda>j. j = i) ?ids = Some n"
        using assms(2) find_index_None [of "\<lambda>j. j = i" ?ids] by fastforce
      with insert_at_own_place [OF dist n] ids assms(3) Some itself
      have "map entry_id (pl_entries q) = ?ids" by (simp add: drop_position_def clamp_id)
      with Some itself show ?thesis by (intro goal) simp
    next
      case absent
      then have "find_index (\<lambda>j. j = a) ?rest = None" by (auto simp: find_index_None)
      then have "position = length ?rest"
        using assms(3) Some absent by (simp add: drop_position_def Let_def)
      with ids at_end have "map entry_id (pl_entries q) = ?rest @ [i]" by simp
      with Some absent show ?thesis by (intro goal) (simp del: map_append)
    next
      case beside
      then obtain n where n: "find_index (\<lambda>j. j = a) ?rest = Some n"
        using find_index_None [of "\<lambda>j. j = a" ?rest] by fastforce
      have "position = (if after then Suc n else n)"
        using assms(3) Some beside n by (simp add: drop_position_def Let_def)
      then have "clamp (length ?rest) (int position) = (if after then Suc n else n)"
        using insert_at_anchor(1) [OF n] by (simp add: clamp_id del: of_nat_Suc)
      then have "map entry_id (pl_entries q) =
          take n ?rest @ (if after then [a, i] else [i, a]) @ drop (Suc n) ?rest"
        unfolding ids using insert_at_anchor(2,3) [OF n, of i] by simp
      with Some beside show ?thesis by (intro goal) auto
    qed
  qed
qed

theorem dragged_entry_lands_witness:
  "drop_position [lit ''e1'', lit ''e2'', lit ''e3''] (lit ''e1'') (Some (lit ''e2'')) True = 1 \<and>
     (\<exists>q xs ys. moved (lit ''e1'') 1 city = Inr q \<and>
        map entry_id (pl_entries q) = xs @ [lit ''e2'', lit ''e1''] @ ys)"
proof -
  have "distinct_entries city" "lit ''e1'' \<in> entry_id ` set (pl_entries city)"
    "1 = drop_position (map entry_id (pl_entries city)) (lit ''e1'') (Some (lit ''e2'')) True"
    "lit ''e2'' \<in> entry_id ` set (pl_entries city)" "lit ''e2'' \<noteq> lit ''e1''"
    by code_simp+
  from dragged_entry_lands [OF this(1-3)] this(4,5)
  have "\<exists>q. moved (lit ''e1'') (int 1) city = Inr q \<and>
      (\<exists>xs ys. map entry_id (pl_entries q) = xs @ [lit ''e2'', lit ''e1''] @ ys)"
    by (simp only: option.case if_True if_False not_True_eq_False) blast
  moreover have "drop_position [lit ''e1'', lit ''e2'', lit ''e3''] (lit ''e1'') (Some (lit ''e2'')) True = 1"
    by code_simp
  ultimately show ?thesis by (simp only: of_nat_1) blast
qed

section \<open>Display choices\<close>

text \<open>C28: A display's Quick choice is written under the id and name derived from its connector and
  nowhere else: every other playlist stays as it is, and where that id already belongs to a playlist
  of another name, the choice is refused, and neither the store nor the file changes.\<close>

theorem display_choice_owned:
  assumes "set_display_singleton env fresh c source chosen st w = (res, st1, w1)"
    and "read_playlists (w_node w) = Inr r" and "st_loaded st"
  shows "(\<forall>p. res = Inr p \<longrightarrow>
      display_quick_choice_id c = Inr (pl_id p) \<and> display_quick_choice_name c = Inr (pl_name p) \<and>
      map entry_source (pl_entries p) = [source] \<and>
      map_of (st_value st1) = (map_of (r_value r))(pl_id p \<mapsto> p)) \<and>
    (\<forall>i n q. display_quick_choice_id c = Inr i \<longrightarrow> display_quick_choice_name c = Inr n \<longrightarrow>
      map_of (r_value r) i = Some q \<longrightarrow> pl_name q \<noteq> n \<longrightarrow>
      \<not> is_ok res \<and> st_value st1 = st_value st \<and> w1 = w)"
proof (cases "display_quick_choice_id c")
  case (Inl e)
  with assms(1) show ?thesis by (auto simp: set_display_singleton_def after_check_def)
next
  case i: (Inr i)
  have "\<exists>n. display_quick_choice_name c = Inr n"
    using i by (simp add: display_quick_choice_name_def Let_def)
  then obtain n where n: "display_quick_choice_name c = Inr n" ..
  let ?e = "\<lparr>entry_id = id_or_new chosen fresh, entry_source = source\<rparr>"
  from assms(1) i n have t: "transact playlist_ops env False (set_display_change i n ?e) st w = (res, st1, w1)"
    by (simp add: set_display_singleton_def after_check_def mutate_playlists_def)
  have refused: "\<exists>e. set_display_change i n ?e (r_value r) = Inl e"
    if "map_of (r_value r) i = Some q" "pl_name q \<noteq> n" for q
    using that by (simp add: set_display_change_def)
  have "(\<forall>q. map_of (r_value r) i = Some q \<longrightarrow> pl_name q \<noteq> n \<longrightarrow>
      \<not> is_ok res \<and> st_value st1 = st_value st \<and> w1 = w)"
    using t by (cases rule: transact_cases) (use assms(2,3) refused in \<open>fastforce+\<close>)
  moreover have "pl_id p = i \<and> pl_name p = n \<and> map entry_source (pl_entries p) = [source] \<and>
      map_of (st_value st1) = (map_of (r_value r))(pl_id p \<mapsto> p)" if "res = Inr p" for p
  proof -
    from t that have "transact playlist_ops env False (set_display_change i n ?e) st w = (Inr p, st1, w1)"
      by simp
    from playlist.transact_rebases [OF this] assms(2,3) obtain b where
      ch: "set_display_change i n ?e (r_value r) = Inr (p, b, st_value st1)" by auto
    then have p: "p = display_singleton_made i n ?e (map_of (r_value r) i)"
      and v: "st_value st1 = AList.update (pl_id p) p (r_value r)"
      and same: "\<And>q. map_of (r_value r) i = Some q \<Longrightarrow> pl_name q = n"
      unfolding set_display_change_def Let_def
      by (simp only: and_then_Inr sum.inject sum.distinct prod.inject split: if_split_asm; fastforce)+
    have "pl_id p = i \<and> pl_name p = n \<and> map entry_source (pl_entries p) = [source]"
      using p same wf_authoredD(2) [OF read_playlists_ok(1) [OF assms(2)]]
      by (auto simp: display_singleton_made_def split: option.splits)
    with v show ?thesis by simp
  qed
  ultimately show ?thesis using i n by auto
qed

lemma plain_playlists_read:
  assumes "wf_authored d" "clean_authored d" "json_encodable (JObj (plain_playlists d))"
  shows "\<exists>r. read_playlists (w_node (holding (plain_playlists d))) = Inr r \<and> r_fault r = None \<and>
    r_value r = in_key_order d"
proof -
  have doc: "playlists_document d nothing_unknown = Inr (plain_playlists d)"
    using merge_without_unknown [of nothing_unknown]
    by (simp add: playlists_document_def plain_playlists_def nothing_unknown_def has_unknown_def)
  have "1 \<le> MAX_PLAYLISTS_BYTES" by (simp add: MAX_PLAYLISTS_BYTES_def)
  from read_playlists_written [OF assms(1,2) doc this assms(3)] show ?thesis
    by (simp add: holding_def)
qed

lemma connector_digest_encodable: "encodable (connector_digest c)"
  using connector_digest_hex(2) [of c] by (fastforce simp: encodable_def list_all_iff cp_surrogate_def)

theorem display_choice_owned_witness:
  "\<exists>i w st. display_quick_choice_id (lit ''DP-1'') = Inr i \<and>
     map_of (st_value st) i = Some (quiet\<lparr>pl_id := i\<rparr>) \<and>
     (case set_display_singleton calm (lit ''f0'') (lit ''DP-1'') (lit ''/w/a'') None st w of
        (res, st1, w1) \<Rightarrow> \<not> is_ok res \<and> w1 = w \<and> st_value st1 = st_value st)"
proof -
  have id: "\<exists>i. display_quick_choice_id (lit ''DP-1'') = Inr i"
    and name: "\<exists>n. display_quick_choice_name (lit ''DP-1'') = Inr n \<and> n \<noteq> lit ''Quiet''"
  proof -
    have "display_connector (lit ''DP-1'') = Inr ()" by code_simp
    then show id: "\<exists>i. display_quick_choice_id (lit ''DP-1'') = Inr i"
      by (simp add: display_quick_choice_id_def)
    have "length DISPLAY_QUICK_CHOICE_NAME_PREFIX + length (lit ''DP-1'') \<le> MAX_PLAYLIST_NAME" by code_simp
    moreover have "DISPLAY_QUICK_CHOICE_NAME_PREFIX @ lit ''DP-1'' \<noteq> lit ''Quiet''" by code_simp
    ultimately show "\<exists>n. display_quick_choice_name (lit ''DP-1'') = Inr n \<and> n \<noteq> lit ''Quiet''"
      using id by (auto simp: display_quick_choice_name_def)
  qed
  then obtain i n where i: "display_quick_choice_id (lit ''DP-1'') = Inr i"
    and n: "display_quick_choice_name (lit ''DP-1'') = Inr n" "n \<noteq> lit ''Quiet''" by blast
  let ?d = "[(i, quiet\<lparr>pl_id := i\<rparr>)]"
  let ?w = "holding (plain_playlists ?d)"
  let ?st = "\<lparr>st_value = ?d, st_fault = None, st_kind = None, st_loaded = True\<rparr>"
  have name_ok: "strip (lit ''Quiet'') = lit ''Quiet''" by code_simp
  have "wf_authored ?d" "clean_authored ?d"
    using display_quick_choice_id_ok [OF i] name_ok
    by (simp_all add: wf_authored_def clean_authored_def quiet_def wf_playlist_def distinct_entries_def
        MAX_PLAYLISTS_def MAX_AUTHORED_PLAYLISTS_def)
  moreover have "encodable i"
    using i connector_digest_encodable
    by (auto simp: display_quick_choice_id_def and_then_Inr DISPLAY_QUICK_CHOICE_ID_PREFIX_def)
  then have "json_encodable (JObj (plain_playlists ?d))"
    by (simp add: plain_playlists_def in_key_order_def playlist_to_json_def quiet_def)
  ultimately obtain r where r: "read_playlists (w_node ?w) = Inr r" "r_value r = ?d"
    using plain_playlists_read [of ?d] by (auto simp: in_key_order_def)
  obtain res st1 w1 where run:
    "set_display_singleton calm (lit ''f0'') (lit ''DP-1'') (lit ''/w/a'') None ?st ?w = (res, st1, w1)"
    by (metis prod_cases3)
  have "map_of (r_value r) i = Some (quiet\<lparr>pl_id := i\<rparr>)" "pl_name (quiet\<lparr>pl_id := i\<rparr>) \<noteq> n"
    using r(2) n(2) by (auto simp: quiet_def)
  with display_choice_owned [OF run r(1)] i n(1) have "\<not> is_ok res \<and> st_value st1 = st_value ?st \<and> w1 = ?w"
    by auto
  with i run show ?thesis by (intro exI [of _ i] exI [of _ ?w] exI [of _ ?st]) simp
qed

end
