(* ===== verification/Displays.thy ===== *)
theory Displays
  imports Store_Transaction "HOL-Library.List_Lexorder"
begin

text \<open>
  \<open>library/displays.py\<close>: which playlist each screen shows, and which screens' own playlist beats the
  global schedule rules: the arrangement, its \<open>displays.json\<close> document, that the document reads back
  as the very arrangement, and the operations of the store.
\<close>

definition MAX_ASSIGNMENTS :: nat where "MAX_ASSIGNMENTS = 64"
definition MAX_ASSIGNED_BYTES :: nat where "MAX_ASSIGNED_BYTES = 256"
definition MAX_DISPLAYS_BYTES :: nat where "MAX_DISPLAYS_BYTES = 64 * 1024"

definition BEATS_GLOBAL_RULES_KEY :: pystr where
  "BEATS_GLOBAL_RULES_KEY = lit ''beats_global_rules''"

section \<open>Cleaning names\<close>

text \<open>The empty text stands for anything unusable.\<close>

definition clean_playlist :: "pystr \<Rightarrow> pystr" where
  "clean_playlist value =
     (let flattened = collapse value
      in if \<not> encodable flattened then []
         else if flattened = [] \<or> MAX_ASSIGNED_BYTES < utf8_len flattened then []
         else flattened)"

definition clean_screen :: "pystr \<Rightarrow> pystr" where
  "clean_screen value =
     (if \<not> encodable value then []
      else if value = [] \<or> list_ex cp_isspace value \<or> MAX_ASSIGNED_BYTES < utf8_len value \<or>
          list_ex cp_control value then []
      else value)"

definition clean_json :: "(pystr \<Rightarrow> pystr) \<Rightarrow> json \<Rightarrow> pystr" where
  "clean_json f v = (case v of JStr s \<Rightarrow> f s | _ \<Rightarrow> [])"

lemma clean_screen_cases: "clean_screen s = [] \<or> clean_screen s = s"
  by (simp add: clean_screen_def)

lemma clean_screen_idem [simp]: "clean_screen (clean_screen s) = clean_screen s"
  using clean_screen_cases [of s] by (auto simp: clean_screen_def)

lemma clean_playlist_Nil: "clean_playlist [] = []"
  by (simp add: clean_playlist_def collapse_def words.simps [of "[]"])

lemma clean_playlist_idem [simp]: "clean_playlist (clean_playlist s) = clean_playlist s"
  using clean_playlist_Nil by (simp add: clean_playlist_def Let_def)

section \<open>The arrangement and its document\<close>

record arrangement =
  assignments :: "(pystr \<times> pystr) list"
  beats :: "pystr set"

definition no_arrangement :: arrangement where
  "no_arrangement = \<lparr>assignments = [], beats = {}\<rparr>"

text \<open>The loop over \<open>entries.items()\<close>: what is found, and how many are malformed.\<close>

fun parse_assignments :: "(pystr \<times> pystr) list \<Rightarrow> nat \<Rightarrow> dict \<Rightarrow> (pystr \<times> pystr) list \<times> nat" where
  "parse_assignments found malformed [] = (found, malformed)"
| "parse_assignments found malformed ((key, value) # rest) =
     (if MAX_ASSIGNMENTS \<le> length found then (found, malformed)
      else
        let connector = clean_screen key; playlist = clean_json clean_playlist value
        in if connector \<noteq> [] \<and> playlist \<noteq> []
           then parse_assignments (AList.update connector playlist found) malformed rest
           else parse_assignments found (Suc malformed) rest)"

text \<open>The loop over the flagged connectors: who beats the global rules, and how many are stray.\<close>

fun parse_beats :: "(pystr \<times> pystr) list \<Rightarrow> pystr set \<Rightarrow> nat \<Rightarrow> json list \<Rightarrow> pystr set \<times> nat" where
  "parse_beats found beating stray [] = (beating, stray)"
| "parse_beats found beating stray (value # rest) =
     (let connector = clean_json clean_screen value
      in if connector \<noteq> [] \<and> map_of found connector \<noteq> None \<and> connector \<notin> beating
         then parse_beats found (insert connector beating) stray rest
         else parse_beats found beating (Suc stray) rest)"

definition parse_arrangement :: "dict \<Rightarrow> arrangement \<times> fault option" where
  "parse_arrangement document =
     (let versions = (if declared_version 1 2 document = None
                      then [UnsupportedVersion (stored_version document)] else [])
      in case map_of document (lit ''displays'') of
           Some (JObj entries) \<Rightarrow>
             (let (found, malformed) = parse_assignments [] 0 entries;
                  flags = (case map_of document BEATS_GLOBAL_RULES_KEY of None \<Rightarrow> JArr [] | Some v \<Rightarrow> v);
                  flagged = (case flags of JArr xs \<Rightarrow> xs | _ \<Rightarrow> []);
                  (beating, stray) = parse_beats found {} 0 (take MAX_ASSIGNMENTS flagged);
                  strays = stray + (length flagged - MAX_ASSIGNMENTS)
              in (\<lparr>assignments = found, beats = beating\<rparr>,
                  joined_faults (versions @
                    (if MAX_ASSIGNMENTS < length entries then [TooMany] else []) @
                    (if malformed = 0 then [] else [MalformedRecords malformed]) @
                    (if is_arr flags then [] else [MalformedList]) @
                    (if strays = 0 then [] else [MalformedListEntries strays]))))
         | _ \<Rightarrow> (no_arrangement, Some (ContentFault [NoRecords])))"

definition displays_shape :: shape where
  "displays_shape =
     Shape [lit ''version'', lit ''displays'', BEATS_GLOBAL_RULES_KEY] None False [] [] []"

definition read_displays :: "node \<Rightarrow> arrangement reading result" where
  "read_displays n =
     (case read_object MAX_DISPLAYS_BYTES n of
        (None, fault) \<Rightarrow>
          Inr \<lparr>r_value = no_arrangement, r_fault = fault, r_newer = False,
               r_unknown = nothing_unknown, r_version = None\<rparr>
      | (Some document, _) \<Rightarrow>
          (let (found, fault) = parse_arrangement document;
               unknown = capture_unknown displays_shape document
           in case newer_version_fault 2 document of
                Some newer \<Rightarrow>
                  Inr \<lparr>r_value = found, r_fault = Some newer, r_newer = True, r_unknown = unknown,
                       r_version = None\<rparr>
              | None \<Rightarrow>
                  Inr \<lparr>r_value = found, r_fault = fault, r_newer = False, r_unknown = unknown,
                       r_version = declared_version 1 2 document\<rparr>))"

definition displays_read_cleanly :: "node \<Rightarrow> bool result" where
  "displays_read_cleanly n =
     map_sum id (\<lambda>r. r_fault r = None \<and> r_version r \<noteq> None) (read_displays n)"

definition displays_record_ids :: "nat \<Rightarrow> content \<Rightarrow> pystr list option" where
  "displays_record_ids bytes c =
     (case (if MAX_DISPLAYS_BYTES < bytes then (None, Some (ContentFault [TooLarge]))
            else decode_content c) of
        (Some document, None) \<Rightarrow>
          (let (found, fault) = parse_arrangement document
           in if fault \<noteq> None then None else Some (map fst (assignments found)))
      | _ \<Rightarrow> None)"

definition displays_saved_by_newer_version :: "node \<Rightarrow> bool result" where
  "displays_saved_by_newer_version n = map_sum id r_newer (read_displays n)"

definition held_display_ids :: "node \<Rightarrow> pystr list option result" where
  "held_display_ids n =
     map_sum id (\<lambda>r. if r_fault r \<noteq> None \<or> r_version r = None then None
                       else Some (map fst (assignments (r_value r)))) (read_displays n)"

definition plain_displays :: "arrangement \<Rightarrow> dict" where
  "plain_displays a =
     [(lit ''version'', JInt 2),
      (lit ''displays'', JObj (map (\<lambda>(c, p). (c, JStr p)) (assignments a)))] @
     (if beats a = {} then []
      else [(BEATS_GLOBAL_RULES_KEY, JArr (map JStr (sorted_list_of_set (beats a))))])"

text \<open>Only an assigned screen may beat global rules: a \<open>ValueError\<close> otherwise.\<close>

definition displays_document :: "arrangement \<Rightarrow> unknown \<Rightarrow> dict result" where
  "displays_document a u =
     (if \<not> beats a \<subseteq> fst ` set (assignments a) then Inl ValueErr
      else Inr (merge_unknown u displays_shape (plain_displays a)))"

definition displays_ops :: "arrangement store_ops" where
  "displays_ops = \<lparr>op_read = read_displays, op_document = displays_document,
     op_max = MAX_DISPLAYS_BYTES, op_early = True, op_missing = [], op_catches_unicode = True\<rparr>"

lemma displays_ops_simps [simp]:
  "op_read displays_ops = read_displays" "op_document displays_ops = displays_document"
  "op_max displays_ops = MAX_DISPLAYS_BYTES" "op_early displays_ops" "op_missing displays_ops = []"
  "op_catches_unicode displays_ops"
  by (simp_all add: displays_ops_def)

section \<open>The document reads back\<close>

definition wf_assignments :: "(pystr \<times> pystr) list \<Rightarrow> bool" where
  "wf_assignments d \<longleftrightarrow> distinct (map fst d) \<and> length d \<le> MAX_ASSIGNMENTS \<and>
     list_all (\<lambda>(c, p). c \<noteq> [] \<and> clean_screen c = c \<and> p \<noteq> [] \<and> clean_playlist p = p) d"

definition wf_arrangement :: "arrangement \<Rightarrow> bool" where
  "wf_arrangement a \<longleftrightarrow> wf_assignments (assignments a) \<and> beats a \<subseteq> fst ` set (assignments a)"

lemma wf_assignments_update:
  assumes "wf_assignments d" "c \<noteq> []" "clean_screen c = c" "p \<noteq> []" "clean_playlist p = p"
    and "map_of d c = None \<Longrightarrow> length d < MAX_ASSIGNMENTS"
  shows "wf_assignments (AList.update c p d)"
proof -
  have "set (AList.update c p d) \<subseteq> insert (c, p) (set d)" by (induction d) auto
  moreover have "length (AList.update c p d) = (if map_of d c = None then Suc (length d) else length d)"
    by (induction d) auto
  ultimately show ?thesis
    using assms by (auto simp: wf_assignments_def list_all_iff intro: distinct_update)
qed

lemma parse_assignments_wf:
  "parse_assignments found m xs = (d, k) \<Longrightarrow> wf_assignments found \<Longrightarrow> wf_assignments d"
proof (induction found m xs rule: parse_assignments.induct)
  case (2 found m key v rest)
  show ?case
  proof (cases "MAX_ASSIGNMENTS \<le> length found")
    case False
    let ?c = "clean_screen key" and ?p = "clean_json clean_playlist v"
    have "clean_playlist ?p = ?p" by (simp add: clean_json_def clean_playlist_Nil split: json.split)
    with False "2.prems"(2) have "?c \<noteq> [] \<Longrightarrow> ?p \<noteq> [] \<Longrightarrow> wf_assignments (AList.update ?c ?p found)"
      by (intro wf_assignments_update) simp_all
    with False "2.IH" "2.prems" show ?thesis by (auto simp: Let_def split: if_splits)
  qed (use "2.prems" in simp)
qed simp

lemma parse_beats_subset:
  "parse_beats found b s xs = (d, k) \<Longrightarrow> b \<subseteq> fst ` set found \<Longrightarrow> d \<subseteq> fst ` set found"
proof (induction found b s xs rule: parse_beats.induct)
  case (2 found b s v rest)
  let ?c = "clean_json clean_screen v"
  have "map_of found ?c \<noteq> None \<Longrightarrow> ?c \<in> fst ` set found"
    by (simp add: map_of_eq_None_iff)
  with 2 show ?case by (auto simp: Let_def simp del: not_None_eq split: if_splits)
qed simp

lemma no_arrangement_wf: "wf_arrangement no_arrangement"
  by (simp add: wf_arrangement_def no_arrangement_def wf_assignments_def)

lemma parse_arrangement_wf:
  assumes "parse_arrangement d = (a, f)"
  shows "wf_arrangement a"
proof (cases "\<exists>entries. map_of d (lit ''displays'') = Some (JObj entries)")
  case True
  then obtain entries where e: "map_of d (lit ''displays'') = Some (JObj entries)" by blast
  obtain found m where p: "parse_assignments [] 0 entries = (found, m)" by fastforce
  let ?flags = "case map_of d BEATS_GLOBAL_RULES_KEY of None \<Rightarrow> JArr [] | Some v \<Rightarrow> v"
  let ?flagged = "case ?flags of JArr xs \<Rightarrow> xs | _ \<Rightarrow> []"
  obtain b s where b: "parse_beats found {} 0 (take MAX_ASSIGNMENTS ?flagged) = (b, s)" by fastforce
  have "a = \<lparr>assignments = found, beats = b\<rparr>"
    using assms e p b by (simp add: parse_arrangement_def Let_def)
  moreover have "wf_assignments found"
    by (rule parse_assignments_wf [OF p]) (simp add: wf_assignments_def)
  moreover have "b \<subseteq> fst ` set found" by (rule parse_beats_subset [OF b]) simp
  ultimately show ?thesis by (simp add: wf_arrangement_def)
next
  case False
  then have "a = no_arrangement"
    using assms by (auto simp: parse_arrangement_def split: option.splits json.splits)
  then show ?thesis by (simp add: no_arrangement_wf)
qed

lemma parse_assignments_rendered:
  "wf_assignments (found @ d) \<Longrightarrow>
     parse_assignments found m (map (\<lambda>(c, p). (c, JStr p)) d) = (found @ d, m)"
proof (induction d arbitrary: found)
  case (Cons cp d)
  obtain c p where cp: "cp = (c, p)" by (cases cp)
  have new: "c \<notin> fst ` set found" and room: "length found < MAX_ASSIGNMENTS"
    and ok: "c \<noteq> []" "clean_screen c = c" "p \<noteq> []" "clean_playlist p = p"
    using Cons.prems cp by (auto simp: wf_assignments_def)
  have "AList.update c p found = found @ [cp]"
    using new cp by (induction found) auto
  with Cons.IH [of "found @ [cp]"] Cons.prems cp room ok show ?case
    by (simp add: clean_json_def)
qed simp

lemma parse_beats_rendered:
  "\<forall>c\<in>set cs. c \<noteq> [] \<and> clean_screen c = c \<and> map_of found c \<noteq> None \<Longrightarrow> distinct cs \<Longrightarrow> set cs \<inter> b = {} \<Longrightarrow>
     parse_beats found b s (map JStr cs) = (b \<union> set cs, s)"
  by (induction cs arbitrary: b) (auto simp: clean_json_def Let_def)

lemma plain_displays_lookup:
  "map_of (plain_displays a) (lit ''version'') = Some (JInt 2)"
  "map_of (plain_displays a) (lit ''displays'') =
     Some (JObj (map (\<lambda>(c, p). (c, JStr p)) (assignments a)))"
  "map_of (plain_displays a) BEATS_GLOBAL_RULES_KEY =
     (if beats a = {} then None else Some (JArr (map JStr (sorted_list_of_set (beats a)))))"
  by (simp_all add: plain_displays_def BEATS_GLOBAL_RULES_KEY_def)

lemma parse_plain_displays:
  assumes "wf_arrangement a"
  shows "parse_arrangement (plain_displays a) = (a, None)"
proof -
  have wf: "wf_assignments (assignments a)" and sub: "beats a \<subseteq> fst ` set (assignments a)"
    using assms by (simp_all add: wf_arrangement_def)
  then have fin: "finite (beats a)" using finite_subset by blast
  let ?cs = "sorted_list_of_set (beats a)"
  have found: "parse_assignments [] 0 (map (\<lambda>(c, p). (c, JStr p)) (assignments a)) = (assignments a, 0)"
    using parse_assignments_rendered [of "[]" "assignments a" 0] wf by simp
  have "length ?cs = card (beats a)" by simp
  also have "\<dots> \<le> card (fst ` set (assignments a))" by (rule card_mono [OF _ sub]) simp
  also have "\<dots> \<le> length (assignments a)"
    by (rule order_trans [OF card_image_le card_length]) simp
  finally have len: "length ?cs \<le> MAX_ASSIGNMENTS" using wf by (simp add: wf_assignments_def)
  have "parse_beats (assignments a) {} 0 (map JStr ?cs) = ({} \<union> set ?cs, 0)"
  proof (rule parse_beats_rendered)
    show "\<forall>c\<in>set ?cs. c \<noteq> [] \<and> clean_screen c = c \<and> map_of (assignments a) c \<noteq> None"
    proof
      fix c assume "c \<in> set ?cs"
      then obtain p where "(c, p) \<in> set (assignments a)" using sub fin by auto
      with wf show "c \<noteq> [] \<and> clean_screen c = c \<and> map_of (assignments a) c \<noteq> None"
        by (auto simp: wf_assignments_def list_all_iff)
    qed
  qed simp_all
  then have beating: "parse_beats (assignments a) {} 0 (map JStr ?cs) = (beats a, 0)" using fin by simp
  have few: "length (assignments a) \<le> MAX_ASSIGNMENTS" using wf by (simp add: wf_assignments_def)
  show ?thesis
  proof (cases "beats a = {}")
    case True
    then show ?thesis using found few
      by (simp add: parse_arrangement_def plain_displays_lookup declared_version_def joined_faults_def)
  next
    case False
    then show ?thesis using found beating len few
      by (simp add: parse_arrangement_def plain_displays_lookup declared_version_def joined_faults_def)
  qed
qed

lemma displays_shape_flat: "no_objects displays_shape"
  by (simp add: displays_shape_def)

lemma displays_keys:
  "map_of (project displays_shape d) (lit ''version'') = map_of d (lit ''version'')"
  "map_of (project displays_shape d) (lit ''displays'') = map_of d (lit ''displays'')"
  "map_of (project displays_shape d) BEATS_GLOBAL_RULES_KEY = map_of d BEATS_GLOBAL_RULES_KEY"
  by (rule project_plain; simp add: displays_shape_def models_def)+

lemma displays_project:
  "parse_arrangement (project displays_shape d) = parse_arrangement d"
  "newer_version_fault n (project displays_shape d) = newer_version_fault n d"
  "declared_version i j (project displays_shape d) = declared_version i j d"
  unfolding parse_arrangement_def newer_version_fault_def declared_version_def stored_version_def
    displays_keys by (rule refl)+

lemma read_displays_written:
  assumes "wf_arrangement a" "displays_document a u = Inr d"
    and "bytes \<le> MAX_DISPLAYS_BYTES" "json_encodable (JObj d)"
  shows "read_displays (Regular bytes (Decoded (JObj d))) =
    Inr \<lparr>r_value = a, r_fault = None, r_newer = False, r_unknown = capture_unknown displays_shape d,
         r_version = Some 2\<rparr>"
proof -
  have p: "project displays_shape d = project displays_shape (plain_displays a)"
    using assms(2) project_merge(1) [OF displays_shape_flat]
    by (auto simp: displays_document_def split: if_splits)
  have "parse_arrangement d = (a, None)"
    using parse_plain_displays [OF assms(1)] displays_project(1) p by metis
  moreover have "newer_version_fault 2 (plain_displays a) = None"
    "declared_version 1 2 (plain_displays a) = Some 2"
    by (simp_all add: newer_version_fault_def declared_version_def plain_displays_lookup)
  then have "newer_version_fault 2 d = None" "declared_version 1 2 d = Some 2"
    using displays_project p by metis+
  ultimately show ?thesis
    using assms(3,4) by (simp add: read_displays_def read_object_def decode_content_def Let_def)
qed

lemma read_displays_wf: "read_displays n = Inr r \<Longrightarrow> wf_arrangement (r_value r)"
  by (auto simp: read_displays_def Let_def no_arrangement_wf split: prod.splits option.splits
      dest: parse_arrangement_wf)

interpretation display: exact_store displays_ops wf_arrangement "\<lambda>_. True"
proof unfold_locales
  show True ..
  show "op_read displays_ops n = Inr r \<Longrightarrow> wf_arrangement (r_value r)" for n r
    by (simp add: read_displays_wf)
  show "\<exists>r. op_read displays_ops Absent = Inr r \<and> r_fault r = None \<and> \<not> r_newer r"
    by (simp add: read_displays_def read_object_def)
  show "\<exists>r. op_read displays_ops (Regular bytes (Decoded (JObj d))) = Inr r \<and> r_fault r = None \<and>
      \<not> r_newer r \<and> r_value r = v"
    if "wf_arrangement v" "op_document displays_ops v u = Inr d" "bytes \<le> op_max displays_ops"
      "json_encodable (JObj d)" for v u d bytes
    using read_displays_written [of v u d bytes] that by simp
qed

end
