(* ===== verification/Display_Store.thy ===== *)
theory Display_Store
  imports Displays
begin

text \<open>
  The operations of \<open>displays.Store\<close>, what they keep, and their properties. An opt-in to beat the
  global rules belongs to an assigned screen; \<open>drop\<close> forgets both together.
\<close>

section \<open>What the inner functions do\<close>

definition drop_screen :: "pystr \<Rightarrow> arrangement \<Rightarrow> arrangement" where
  "drop_screen c a = \<lparr>assignments = AList.delete c (assignments a), beats = beats a - {c}\<rparr>"

text \<open>\<open>for key in stale: working.drop(key)\<close>, and \<open>assignments[key] = replacement\<close>.\<close>

definition drop_screens :: "pystr list \<Rightarrow> arrangement \<Rightarrow> arrangement" where
  "drop_screens cs a = foldl (\<lambda>a c. drop_screen c a) a cs"

definition point_screens :: "pystr list \<Rightarrow> pystr \<Rightarrow> arrangement \<Rightarrow> arrangement" where
  "point_screens cs p a =
     a\<lparr>assignments := foldl (\<lambda>d c. AList.update c p d) (assignments a) cs\<rparr>"

definition screens_where :: "(pystr \<Rightarrow> bool) \<Rightarrow> arrangement \<Rightarrow> pystr list" where
  "screens_where P a = map fst (filter (\<lambda>(c, p). P p) (assignments a))"

definition opt_change :: "pystr \<Rightarrow> bool \<Rightarrow> (arrangement, bool) change" where
  "opt_change name enabled a =
     (if enabled \<and> map_of (assignments a) name = None then Inl (Err Validation)
      else
        let changed = ((name \<in> beats a) \<noteq> enabled)
        in Inr (changed, changed,
             a\<lparr>beats := (if enabled then insert name (beats a) else beats a - {name})\<rparr>))"

definition assign_change :: "pystr \<Rightarrow> pystr \<Rightarrow> (arrangement, unit) change" where
  "assign_change name wanted a =
     (if MAX_ASSIGNMENTS \<le> length (assignments a) \<and> map_of (assignments a) name = None
      then Inl (Err Validation)
      else Inr ((), map_of (assignments a) name \<noteq> Some wanted,
             a\<lparr>assignments := AList.update name wanted (assignments a)\<rparr>))"

definition unassign_change :: "pystr \<Rightarrow> (arrangement, bool) change" where
  "unassign_change name a =
     (let changed = (map_of (assignments a) name \<noteq> None) in Inr (changed, changed, drop_screen name a))"

definition forget_display_change :: "pystr \<Rightarrow> (arrangement, pystr) change" where
  "forget_display_change name a =
     (let playlist = (case map_of (assignments a) name of None \<Rightarrow> [] | Some p \<Rightarrow> p)
      in Inr (playlist, playlist \<noteq> [], drop_screen name a))"

definition forget_change :: "(pystr \<Rightarrow> bool) \<Rightarrow> (arrangement, nat) change" where
  "forget_change names a =
     (let stale = screens_where names a
      in Inr (length stale, stale \<noteq> [], drop_screens stale a))"

definition retarget_change :: "(pystr \<Rightarrow> bool) \<Rightarrow> pystr \<Rightarrow> (arrangement, nat) change" where
  "retarget_change names replacement a =
     (let stale = screens_where names a
      in Inr (length stale, stale \<noteq> [], point_screens stale replacement a))"

section \<open>The operations\<close>

type_synonym 'r display_op = "arrangement store \<Rightarrow> world \<Rightarrow> 'r result \<times> arrangement store \<times> world"

definition mutate_displays :: "env \<Rightarrow> bool \<Rightarrow> (arrangement, 'r) change \<Rightarrow> 'r display_op" where
  "mutate_displays env refuse change = transact displays_ops env refuse change"

text \<open>\<open>raise DisplayError("validation", ...)\<close> where a name is unusable.\<close>

definition usable :: "bool \<Rightarrow> 'r display_op \<Rightarrow> 'r display_op" where
  "usable b k st w = (if b then k st w else (Inl (Err Validation), st, w))"

definition set_beats_global_rules :: "env \<Rightarrow> pystr \<Rightarrow> json \<Rightarrow> bool display_op" where
  "set_beats_global_rules env connector enabled =
     usable (clean_screen connector \<noteq> [])
       (usable (is_bool enabled)
         (mutate_displays env True (opt_change (clean_screen connector) (enabled = JBool True))))"

definition assign :: "env \<Rightarrow> pystr \<Rightarrow> pystr \<Rightarrow> unit display_op" where
  "assign env connector playlist =
     usable (clean_screen connector \<noteq> [])
       (usable (clean_playlist playlist \<noteq> [])
         (mutate_displays env False (assign_change (clean_screen connector) (clean_playlist playlist))))"

definition unassign :: "env \<Rightarrow> pystr \<Rightarrow> bool display_op" where
  "unassign env connector = mutate_displays env True (unassign_change (clean_screen connector))"

definition forget_display :: "env \<Rightarrow> pystr \<Rightarrow> pystr display_op" where
  "forget_display env connector =
     mutate_displays env True (forget_display_change (clean_screen connector))"

definition unassign_playlist :: "env \<Rightarrow> pystr \<Rightarrow> nat display_op" where
  "unassign_playlist env playlist =
     mutate_displays env True (forget_change (\<lambda>p. p = clean_playlist playlist))"

definition unassign_playlist_where :: "env \<Rightarrow> (pystr \<Rightarrow> bool) \<Rightarrow> nat display_op" where
  "unassign_playlist_where env names = mutate_displays env True (forget_change names)"

definition reassign_where :: "env \<Rightarrow> (pystr \<Rightarrow> bool) \<Rightarrow> pystr \<Rightarrow> nat display_op" where
  "reassign_where env names playlist_id =
     usable (clean_playlist playlist_id \<noteq> [])
       (mutate_displays env True
         (retarget_change (\<lambda>p. p \<noteq> clean_playlist playlist_id \<and> names p) (clean_playlist playlist_id)))"

definition reassign_many :: "env \<Rightarrow> pystr list \<Rightarrow> pystr \<Rightarrow> nat display_op" where
  "reassign_many env references playlist_id =
     usable (clean_playlist playlist_id \<noteq> [])
       (mutate_displays env True
         (retarget_change (\<lambda>p. p \<in> set (map clean_playlist references)) (clean_playlist playlist_id)))"

definition reassign :: "env \<Rightarrow> pystr \<Rightarrow> pystr \<Rightarrow> nat display_op" where
  "reassign env reference playlist_id = reassign_many env [reference] playlist_id"

text \<open>The mirrors of a worker's save, in memory only. A mapping's keys are cleaned; of two that clean
  to the same text the later stays.\<close>

definition adopt_worker_reassign :: "(pystr \<times> pystr) list \<Rightarrow> arrangement store \<Rightarrow> nat \<times> arrangement store" where
  "adopt_worker_reassign retargeted st =
     (let cleaned = map_of (rev (map (\<lambda>(r, t). (clean_playlist r, clean_playlist t)) retargeted));
          stale = screens_where (\<lambda>p. cleaned p \<noteq> None) (st_value st);
          point = (\<lambda>d c. AList.update c (the (cleaned (the (map_of d c)))) d)
      in (length stale, st\<lparr>st_value := (st_value st)
            \<lparr>assignments := foldl point (assignments (st_value st)) stale\<rparr>\<rparr>))"

definition adopt_worker_unassign :: "pystr list \<Rightarrow> arrangement store \<Rightarrow> nat \<times> arrangement store" where
  "adopt_worker_unassign playlists st =
     (let stale = screens_where (\<lambda>p. p \<in> set (map clean_playlist playlists)) (st_value st)
      in (length stale, st\<lparr>st_value :=
            \<lparr>assignments = foldl (\<lambda>d c. AList.delete c d) (assignments (st_value st)) stale,
             beats = beats (st_value st) - set stale\<rparr>\<rparr>))"

text \<open>Reading the arrangement: \<open>all\<close>, \<open>playlist_for\<close>, \<open>beats_global_rules\<close> and \<open>describe\<close>.\<close>

definition all_assignments :: "arrangement \<Rightarrow> (pystr \<times> pystr) list" where
  "all_assignments a = sort_key fst (assignments a)"

definition playlist_for :: "arrangement \<Rightarrow> pystr \<Rightarrow> pystr" where
  "playlist_for a connector =
     (case map_of (assignments a) (clean_screen connector) of None \<Rightarrow> [] | Some p \<Rightarrow> p)"

definition beats_global_rules :: "arrangement \<Rightarrow> pystr \<Rightarrow> bool" where
  "beats_global_rules a connector \<longleftrightarrow> clean_screen connector \<in> beats a"

definition describe_displays :: "arrangement \<Rightarrow> pystr list \<Rightarrow> pystr list" where
  "describe_displays a attached =
     map (\<lambda>(c, p). c @ [9] @ p @
         (if c \<in> beats a then lit ''  (beats global rules)'' else []) @
         (if attached = [] \<or> c \<in> set attached then [] else lit ''  (not attached)''))
       (all_assignments a)"

text \<open>\<open>Store.__init__\<close> keeps the opt-ins of assigned screens only; \<open>open\<close> and \<open>worker_copy\<close> go
  through it.\<close>

definition kept_opt_ins :: "arrangement \<Rightarrow> arrangement" where
  "kept_opt_ins a = a\<lparr>beats := {c \<in> beats a. map_of (assignments a) c \<noteq> None}\<rparr>"

definition open_displays :: "world \<Rightarrow> arrangement store result" where
  "open_displays w =
     map_sum id (\<lambda>st. st\<lparr>st_value := kept_opt_ins (st_value st)\<rparr>) (open_store displays_ops w)"

definition worker_copy_displays :: "bool \<Rightarrow> arrangement store \<Rightarrow> world \<Rightarrow> arrangement store result" where
  "worker_copy_displays rebase st w =
     map_sum id (\<lambda>st. st\<lparr>st_value := kept_opt_ins (st_value st)\<rparr>) (worker_copy displays_ops rebase st w)"

definition displays_durable_problem :: "world \<Rightarrow> error_kind option result" where
  "displays_durable_problem w = durable_problem displays_ops w"

definition save_displays :: "env \<Rightarrow> arrangement \<Rightarrow> unknown \<Rightarrow> world \<Rightarrow> unit result \<times> world" where
  "save_displays env a u w = save_document displays_ops env a u w"

section \<open>What the loops come to\<close>

lemma foldl_delete: "foldl (\<lambda>d c. AList.delete c d) d cs = filter (\<lambda>(c, p). c \<notin> set cs) d"
proof (induction cs arbitrary: d)
  case (Cons c cs)
  then show ?case by (simp add: AList.delete_eq filter_filter split_beta) (metis (mono_tags, lifting))
qed simp

lemma drop_screens_eq:
  "drop_screens cs a =
     \<lparr>assignments = filter (\<lambda>(c, p). c \<notin> set cs) (assignments a), beats = beats a - set cs\<rparr>"
proof -
  have "drop_screens cs a =
      \<lparr>assignments = foldl (\<lambda>d c. AList.delete c d) (assignments a) cs, beats = beats a - set cs\<rparr>"
    unfolding drop_screens_def
    by (induction cs arbitrary: a) (auto simp: drop_screen_def set_diff_eq)
  then show ?thesis by (simp only: foldl_delete)
qed

lemma map_of_foldl_update:
  "map_of (foldl (\<lambda>d c. AList.update c p d) d cs) k = (if k \<in> set cs then Some p else map_of d k)"
  by (induction cs arbitrary: d) auto

lemma keys_foldl_update:
  "set cs \<subseteq> fst ` set d \<Longrightarrow> map fst (foldl (\<lambda>d c. AList.update c p d) d cs) = map fst d"
proof (induction cs arbitrary: d)
  case (Cons c cs)
  have "map fst (AList.update c p d) = map fst d"
    using Cons.prems by (simp add: update_keys)
  then have "fst ` set (AList.update c p d) = fst ` set d" by (metis list.set_map)
  with Cons \<open>map fst (AList.update c p d) = map fst d\<close> show ?case by simp
qed simp

lemma screens_where_member:
  "distinct (map fst (assignments a)) \<Longrightarrow>
     c \<in> set (screens_where P a) \<longleftrightarrow> (\<exists>p. map_of (assignments a) c = Some p \<and> P p)"
  by (force simp: screens_where_def dest: map_of_SomeD)

lemma screens_where_keys: "set (screens_where P a) \<subseteq> fst ` set (assignments a)"
  by (auto simp: screens_where_def)

section \<open>What every change keeps\<close>

definition sound_edit :: "(arrangement, 'r) change \<Rightarrow> bool" where
  "sound_edit change \<longleftrightarrow> display.preserves change \<and> display.honest change"

lemma sound_editI:
  assumes "\<And>a x b a'. wf_arrangement a \<Longrightarrow> change a = Inr (x, b, a') \<Longrightarrow> wf_arrangement a'"
    and "\<And>a x a'. wf_arrangement a \<Longrightarrow> change a = Inr (x, False, a') \<Longrightarrow> a' = a"
  shows "sound_edit change"
  using assms unfolding sound_edit_def display.preserves_def display.honest_def by blast

lemma wf_filter:
  assumes "wf_arrangement a"
  shows "wf_arrangement \<lparr>assignments = filter (\<lambda>(c, p). c \<notin> S) (assignments a), beats = beats a - S\<rparr>"
proof -
  let ?d = "filter (\<lambda>(c, p). c \<notin> S) (assignments a)"
  have wf: "wf_assignments (assignments a)" and sub: "beats a \<subseteq> fst ` set (assignments a)"
    using assms by (simp_all add: wf_arrangement_def)
  have "distinct (map fst ?d)" using wf by (simp add: wf_assignments_def distinct_map_filter)
  moreover have "length ?d \<le> MAX_ASSIGNMENTS"
    using wf by (intro order_trans [OF length_filter_le]) (simp add: wf_assignments_def)
  ultimately have "wf_assignments ?d" using wf by (simp add: wf_assignments_def list_all_iff)
  moreover have "beats a - S \<subseteq> fst ` set ?d" using sub by fastforce
  ultimately show ?thesis by (simp add: wf_arrangement_def)
qed

lemma drop_screen_eq: "drop_screen c a = drop_screens [c] a"
  by (simp add: drop_screens_def)

lemma wf_drop: "wf_arrangement a \<Longrightarrow> wf_arrangement (drop_screens cs a)"
  using wf_filter [of a "set cs"] by (simp add: drop_screens_eq)

lemma drop_absent:
  assumes "set cs \<inter> fst ` set (assignments a) = {}" "wf_arrangement a"
  shows "drop_screens cs a = a"
proof -
  have "filter (\<lambda>(c, p). c \<notin> set cs) (assignments a) = assignments a"
    using assms(1) by (intro filter_True) force
  moreover have "beats a - set cs = beats a" using assms by (auto simp: wf_arrangement_def)
  ultimately show ?thesis by (cases a) (simp add: drop_screens_eq)
qed

lemma update_same: "map_of d c = Some p \<Longrightarrow> AList.update c p d = d"
  by (induction d) (auto split: if_splits)

lemma wf_point:
  assumes "wf_arrangement a" "p \<noteq> []" "clean_playlist p = p" "set cs \<subseteq> fst ` set (assignments a)"
  shows "wf_arrangement (point_screens cs p a)"
proof -
  define d where "d = foldl (\<lambda>d c. AList.update c p d) (assignments a) cs"
  have keys: "map fst d = map fst (assignments a)" unfolding d_def using keys_foldl_update [OF assms(4)] .
  have wf: "wf_assignments (assignments a)" using assms(1) by (simp add: wf_arrangement_def)
  have dist: "distinct (map fst d)" unfolding keys using wf by (simp add: wf_assignments_def)
  have ok: "c \<noteq> [] \<and> clean_screen c = c \<and> q \<noteq> [] \<and> clean_playlist q = q" if cq: "(c, q) \<in> set d" for c q
  proof -
    have m: "map_of d c = Some q" using cq dist by simp
    have "c \<in> set (map fst (assignments a))"
      unfolding keys [symmetric] using cq by (metis fst_conv in_set_zipE list.set_map rev_image_eqI)
    then obtain r where r: "(c, r) \<in> set (assignments a)" by auto
    from m have "q = p \<or> (c, q) \<in> set (assignments a)"
      unfolding d_def map_of_foldl_update by (auto split: if_splits dest: map_of_SomeD)
    with wf assms(2,3) r show ?thesis by (auto simp: wf_assignments_def list_all_iff)
  qed
  have "length d \<le> MAX_ASSIGNMENTS" using wf keys by (metis length_map wf_assignments_def)
  with dist ok have "wf_assignments d" unfolding wf_assignments_def list_all_iff by blast
  moreover have "fst ` set d = fst ` set (assignments a)" using keys by (metis list.set_map)
  ultimately show ?thesis using assms(1) by (simp add: wf_arrangement_def point_screens_def d_def)
qed

lemma opt_change_sound: "sound_edit (opt_change name b)"
proof (rule sound_editI)
  fix a x c a' assume a: "wf_arrangement a" and r: "opt_change name b a = Inr (x, c, a')"
  from r have assigned: "b \<Longrightarrow> map_of (assignments a) name \<noteq> None"
    and a': "a' = a\<lparr>beats := (if b then insert name (beats a) else beats a - {name})\<rparr>"
    by (auto simp: opt_change_def Let_def split: if_splits)
  from assigned have "b \<Longrightarrow> name \<in> fst ` set (assignments a)" by (metis map_of_eq_None_iff)
  with a a' show "wf_arrangement a'" by (cases b) (auto simp: wf_arrangement_def)
qed (auto simp: opt_change_def Let_def insert_absorb split: if_splits)

lemma assign_change_sound:
  assumes "clean_screen c = c" "c \<noteq> []" "clean_playlist p = p" "p \<noteq> []"
  shows "sound_edit (assign_change c p)"
proof (rule sound_editI)
  fix a x b a' assume a: "wf_arrangement a" and r: "assign_change c p a = Inr (x, b, a')"
  from r have room: "map_of (assignments a) c = None \<Longrightarrow> length (assignments a) < MAX_ASSIGNMENTS"
    and a': "a' = a\<lparr>assignments := AList.update c p (assignments a)\<rparr>"
    by (auto simp: assign_change_def split: if_splits)
  have "wf_assignments (AList.update c p (assignments a))"
    using a assms room by (intro wf_assignments_update) (simp_all add: wf_arrangement_def)
  moreover have "fst ` set (AList.update c p (assignments a)) = insert c (fst ` set (assignments a))"
    by (simp add: dom_update [unfolded dom_map_of_conv_image_fst])
  ultimately show "wf_arrangement a'" using a a' by (auto simp: wf_arrangement_def)
qed (auto simp: assign_change_def update_same split: if_splits)

lemma drop_unassigned: "map_of (assignments a) c = None \<Longrightarrow> wf_arrangement a \<Longrightarrow> drop_screens [c] a = a"
  by (rule drop_absent) (simp_all add: map_of_eq_None_iff)

lemma unassign_change_sound: "sound_edit (unassign_change c)"
  by (rule sound_editI) (auto simp: unassign_change_def Let_def drop_screen_eq wf_drop drop_unassigned)

lemma forget_display_change_sound: "sound_edit (forget_display_change c)"
proof (rule sound_editI)
  fix a x a' assume a: "wf_arrangement a" and r: "forget_display_change c a = Inr (x, False, a')"
  from r have "map_of (assignments a) c = None \<or> map_of (assignments a) c = Some []"
    by (auto simp: forget_display_change_def Let_def split: option.splits)
  with a have "map_of (assignments a) c = None"
    by (auto simp: wf_arrangement_def wf_assignments_def list_all_iff dest: map_of_SomeD)
  with a r show "a' = a"
    by (simp add: forget_display_change_def Let_def drop_screen_eq drop_unassigned)
qed (auto simp: forget_display_change_def Let_def drop_screen_eq wf_drop)

lemma forget_change_sound: "sound_edit (forget_change names)"
  by (rule sound_editI) (auto simp: forget_change_def Let_def wf_drop drop_screens_def [of "[]"])

lemma retarget_change_sound:
  assumes "clean_playlist p = p" "p \<noteq> []"
  shows "sound_edit (retarget_change names p)"
  by (rule sound_editI)
    (use assms screens_where_keys in \<open>auto simp: retarget_change_def Let_def point_screens_def [of "[]"]
       intro!: wf_point\<close>)

end
