(* ===== verification/Display_Guarantees.thy ===== *)
theory Display_Guarantees
  imports Display_Store
begin

text \<open>
  The properties of the display assignments: what every reachable state keeps, what each operation
  does to each screen, and that the mirror of a worker's save in memory is what the worker saved.
\<close>

section \<open>Whole operations\<close>

lemma mutate_displays_rebases:
  assumes "mutate_displays env refuse change st w = (Inr x, st1, w1)"
    and "read_displays (w_node w) = Inr r" and "st_loaded st"
  obtains b where "change (r_value r) = Inr (x, b, st_value st1)"
  using display.transact_rebases [OF assms(1) [unfolded mutate_displays_def]] assms(2,3) by auto

lemma usable_ok: "usable b k st w = (Inr x, st1, w1) \<Longrightarrow> b \<and> k st w = (Inr x, st1, w1)"
  by (auto simp: usable_def split: if_splits)

definition file_reads_as :: "world \<Rightarrow> arrangement \<Rightarrow> bool" where
  "file_reads_as w a \<longleftrightarrow> (case read_displays (w_node w) of
     Inl _ \<Rightarrow> False | Inr r \<Rightarrow> r_fault r = None \<and> r_value r = a)"

text \<open>After an operation that refuses a damaged file, the file holds exactly what the store holds.\<close>

lemma mutate_displays_in_file:
  assumes m: "mutate_displays env True change st w = (Inr x, st1, w1)" and s: "sound_edit change"
    and "st_loaded st" and "wf_arrangement (st_value st)"
  shows "file_reads_as w1 (st_value st1)"
proof -
  note t = m [unfolded mutate_displays_def]
  have pres: "display.preserves change" and honest: "display.honest change"
    using s by (simp_all add: sound_edit_def)
  from t show ?thesis
  proof (cases rule: transact_cases)
    case (unchanged r y v)
    have r: "read_displays (w_node w) = Inr r" using unchanged(5) by simp
    have "change (r_value r) = Inr (y, False, v)" using unchanged(8) \<open>st_loaded st\<close> by simp
    then have "v = r_value r" using honest read_displays_wf [OF r] unfolding display.honest_def by blast
    moreover have "r_fault r = None" using unchanged(7) by blast
    ultimately show ?thesis using r unchanged(2,3) by (simp add: file_reads_as_def)
  next
    case (saved r y v)
    from persist_ok [OF saved(9)] obtain d where d: "displays_document v (r_unknown r) = Inr d"
      "rendered_size (JObj d) \<le> MAX_DISPLAYS_BYTES" "json_encodable (JObj d)"
      "w_node w1 = Regular (rendered_size (JObj d)) (Decoded (JObj d))"
      by auto
    have "wf_arrangement v" using display.transact_wf [OF t pres assms(4)] saved(2) by simp
    from read_displays_written [OF this d(1-3)] d(4) saved(2) show ?thesis by (simp add: file_reads_as_def)
  qed simp_all
qed

section \<open>Reachable states\<close>

type_synonym display_run = "arrangement store \<Rightarrow> world \<Rightarrow> unit result \<times> arrangement store \<times> world"

text \<open>An operation, whatever it returns.\<close>

definition ran_op :: "'r display_op \<Rightarrow> display_run" where
  "ran_op f st w = (let (x, st1, w1) = f st w in (map_sum id (\<lambda>_. ()) x, st1, w1))"

text \<open>What is mirrored after a worker's \<open>retarget\<close> is what it returned for: its targets are no empty names,
  which \<open>retarget\<close> refuses before it reads the file.\<close>

inductive display_operation :: "display_run \<Rightarrow> bool" where
  op_beats: "display_operation (ran_op (set_beats_global_rules env c e))"
| op_assign: "display_operation (ran_op (assign env c p))"
| op_unassign: "display_operation (ran_op (unassign env c))"
| op_forget_display: "display_operation (ran_op (forget_display env c))"
| op_forget: "display_operation (ran_op (unassign_playlist env p))"
| op_forget_where: "display_operation (ran_op (unassign_playlist_where env names))"
| op_reassign_where: "display_operation (ran_op (reassign_where env names p))"
| op_reassign_many: "display_operation (ran_op (reassign_many env refs p))"
| op_adopt_retarget: "\<forall>(q, p)\<in>set retargeted. clean_playlist p \<noteq> [] \<Longrightarrow>
    display_operation (ran_op (\<lambda>st w. (Inr (), snd (adopt_worker_reassign retargeted st), w)))"
| op_adopt: "display_operation (ran_op (\<lambda>st w. (Inr (), snd (adopt_worker_unassign ps st), w)))"

definition display_safe :: "display_run \<Rightarrow> bool" where
  "display_safe f \<longleftrightarrow> (\<forall>st w x st1 w1. wf_arrangement (st_value st) \<longrightarrow> f st w = (x, st1, w1) \<longrightarrow>
     wf_arrangement (st_value st1) \<and> x \<noteq> Inl ValueErr)"

definition never_value_error :: "(arrangement, 'r) change \<Rightarrow> bool" where
  "never_value_error change \<longleftrightarrow> (\<forall>a. change a \<noteq> Inl ValueErr)"

lemma persist_displays_no_value_error:
  assumes "persist displays_ops env f v u w = (Inl e, w1)" "wf_arrangement v"
  shows "e \<noteq> ValueErr"
proof -
  have "\<exists>d. displays_document v u = Inr d" using assms(2) by (simp add: displays_document_def wf_arrangement_def)
  with assms(1) show ?thesis
    by (auto simp: persist_def save_document_def render_document_def render_json_def preserve_faulted_def
        split: if_splits outcome.splits sum.splits prod.splits)
qed

lemma read_displays_Inr: "\<exists>r. read_displays n = Inr r"
  by (auto simp: read_displays_def Let_def split: prod.split option.split)

lemma safe_mutate_displays:
  assumes "sound_edit change" "never_value_error change"
  shows "display_safe (ran_op (mutate_displays env refuse change))"
  unfolding display_safe_def
proof (intro allI impI)
  fix st w x st1 w1
  assume wf: "wf_arrangement (st_value st)" and "ran_op (mutate_displays env refuse change) st w = (x, st1, w1)"
  then obtain y where t: "transact displays_ops env refuse change st w = (y, st1, w1)"
    and x: "x = map_sum id (\<lambda>_. ()) y"
    by (auto simp: ran_op_def mutate_displays_def Let_def split: prod.splits)
  have pres: "display.preserves change" using assms(1) by (simp add: sound_edit_def)
  have "y \<noteq> Inl ValueErr"
  proof
    assume y: "y = Inl ValueErr"
    obtain r where r: "read_displays (w_node w) = Inr r" using read_displays_Inr by blast
    let ?base = "if w_node w \<noteq> Absent \<or> st_loaded st then r_value r else st_value st"
    have base: "wf_arrangement ?base" using wf read_displays_wf [OF r] by simp
    from t r y assms(2) have "\<exists>z v. change ?base = Inr (z, True, v) \<and>
        (\<exists>w2. persist displays_ops env (r_fault r) v (r_unknown r) w = (Inl ValueErr, w2))"
      by (auto simp: transact_def Let_def never_value_error_def
          split: if_splits sum.splits prod.splits)
    then obtain z v w2 where "change ?base = Inr (z, True, v)"
      "persist displays_ops env (r_fault r) v (r_unknown r) w = (Inl ValueErr, w2)" by blast
    with persist_displays_no_value_error pres base show False
      unfolding display.preserves_def by blast
  qed
  moreover have "wf_arrangement (st_value st1)" by (rule display.transact_wf [OF t pres wf])
  ultimately show "wf_arrangement (st_value st1) \<and> x \<noteq> Inl ValueErr"
    using x by (cases y) auto
qed

lemma safe_usable: "(b \<Longrightarrow> display_safe (ran_op k)) \<Longrightarrow> display_safe (ran_op (usable b k))"
  by (cases b) (auto simp: display_safe_def ran_op_def usable_def Let_def)

lemma changes_never_value_error:
  "never_value_error (opt_change c e)" "never_value_error (assign_change c p)"
  "never_value_error (unassign_change c)" "never_value_error (forget_display_change c)"
  "never_value_error (forget_change names)" "never_value_error (retarget_change names p)"
  by (simp_all add: never_value_error_def opt_change_def assign_change_def unassign_change_def
      forget_display_change_def forget_change_def retarget_change_def Let_def)

lemma adopt_worker_unassign_eq:
  "adopt_worker_unassign ps st =
     (let stale = screens_where (\<lambda>p. p \<in> set (map clean_playlist ps)) (st_value st)
      in (length stale, st\<lparr>st_value := drop_screens stale (st_value st)\<rparr>))"
  by (simp add: adopt_worker_unassign_def Let_def drop_screens_eq foldl_delete)

text \<open>Mirroring a retarget keeps the screens, and gives each a usable name.\<close>

lemma foldl_retarget_wf:
  assumes "wf_assignments d" and "distinct cs" and "\<forall>c\<in>set cs. \<exists>q t. map_of d c = Some q \<and> f q = Some t"
    and "\<forall>q t. f q = Some t \<longrightarrow> t \<noteq> [] \<and> clean_playlist t = t"
  shows "wf_assignments (foldl (\<lambda>d c. AList.update c (the (f (the (map_of d c)))) d) d cs) \<and>
    fst ` set (foldl (\<lambda>d c. AList.update c (the (f (the (map_of d c)))) d) d cs) = fst ` set d"
  using assms(1-3)
proof (induction cs arbitrary: d)
  case (Cons c cs)
  obtain q t where q: "map_of d c = Some q" "f q = Some t" using Cons.prems(3) by auto
  have "c \<noteq> []" "clean_screen c = c"
    using map_of_SomeD [OF q(1)] Cons.prems(1) by (auto simp: wf_assignments_def list_all_iff)
  then have wf: "wf_assignments (AList.update c t d)"
    using assms(4) q Cons.prems(1) by (intro wf_assignments_update) auto
  have keys: "fst ` set (AList.update c t d) = fst ` set d"
    using map_of_SomeD [OF q(1)] by (simp add: dom_update insert_absorb rev_image_eqI)
  have "\<forall>c'\<in>set cs. \<exists>q t'. map_of (AList.update c t d) c' = Some q \<and> f q = Some t'"
    using Cons.prems(2,3) by (auto simp: update_conv')
  then show ?case using Cons.IH [OF wf] Cons.prems(2) keys by (simp add: q)
qed simp

lemma adopt_retarget_wf:
  assumes "\<forall>(q, p)\<in>set retargeted. clean_playlist p \<noteq> []" and a: "wf_arrangement (st_value st)"
  shows "wf_arrangement (st_value (snd (adopt_worker_reassign retargeted st)))"
proof -
  let ?f = "map_of (rev (map (\<lambda>(r, t). (clean_playlist r, clean_playlist t)) retargeted))"
  let ?stale = "screens_where (\<lambda>p. ?f p \<noteq> None) (st_value st)"
  have wf: "wf_assignments (assignments (st_value st))" using a by (simp add: wf_arrangement_def)
  then have dist: "distinct (map fst (assignments (st_value st)))" by (simp add: wf_assignments_def)
  have targets: "\<forall>q t. ?f q = Some t \<longrightarrow> t \<noteq> [] \<and> clean_playlist t = t"
    using assms(1) by (fastforce dest!: map_of_SomeD)
  have "distinct ?stale" unfolding screens_where_def using dist by (rule distinct_map_filter)
  moreover have "\<forall>c\<in>set ?stale. \<exists>q t. map_of (assignments (st_value st)) c = Some q \<and> ?f q = Some t"
    using screens_where_member [OF dist] by fastforce
  ultimately show ?thesis
    using foldl_retarget_wf [OF wf _ _ targets, of ?stale] a
    by (simp add: adopt_worker_reassign_def Let_def wf_arrangement_def)
qed

lemma operation_display_safe: "display_operation f \<Longrightarrow> display_safe f"
proof (induction rule: display_operation.induct)
  case (op_adopt_retarget retargeted)
  then show ?case by (simp add: display_safe_def ran_op_def adopt_retarget_wf)
next
  case (op_adopt ps)
  then show ?case by (simp add: display_safe_def ran_op_def adopt_worker_unassign_eq Let_def wf_drop)
qed (unfold set_beats_global_rules_def assign_def unassign_def forget_display_def unassign_playlist_def
    unassign_playlist_where_def reassign_where_def reassign_many_def,
  (intro safe_usable safe_mutate_displays changes_never_value_error opt_change_sound
    assign_change_sound unassign_change_sound forget_display_change_sound forget_change_sound
    retarget_change_sound; simp)+)

inductive display_system ::
  "(nat \<Rightarrow> arrangement store) \<times> world \<Rightarrow> (nat \<Rightarrow> arrangement store) \<times> world \<Rightarrow> bool"
where
  display_ran: "display_operation f \<Longrightarrow> f (sts p) w = (x, st1, w1) \<Longrightarrow>
    display_system (sts, w) (sts(p := st1), w1)"
| display_opened: "open_displays w = Inr st \<Longrightarrow> display_system (sts, w) (sts(p := st), w)"
| display_copied: "worker_copy_displays rebase (sts p) w = Inr st \<Longrightarrow> display_system (sts, w) (sts(q := st), w)"
| display_edited: "display_system (sts, w) (sts, w\<lparr>w_node := n\<rparr>)"

lemma kept_opt_ins_id: "wf_arrangement a \<Longrightarrow> kept_opt_ins a = a"
proof -
  assume "wf_arrangement a"
  then have "{c \<in> beats a. map_of (assignments a) c \<noteq> None} = beats a"
    unfolding wf_arrangement_def by (metis (mono_tags, lifting) Collect_cong Collect_mem_eq map_of_eq_None_iff subsetD)
  then show ?thesis by (simp add: kept_opt_ins_def)
qed

lemma open_displays_wf: "open_displays w = Inr st \<Longrightarrow> wf_arrangement (st_value st)"
  using read_displays_wf kept_opt_ins_id
  by (auto simp: open_displays_def open_store_def map_sum_def split: sum.splits)

lemma display_system_wf:
  "display_system s s' \<Longrightarrow> \<forall>p. wf_arrangement (st_value (fst s p)) \<Longrightarrow>
     \<forall>p. wf_arrangement (st_value (fst s' p))"
proof (induction rule: display_system.induct)
  case (display_ran f sts p w x st1 w1)
  have "wf_arrangement (st_value (sts p))" using display_ran.prems by simp
  then have "wf_arrangement (st_value st1)"
    using operation_display_safe [OF display_ran(1)] display_ran(2) unfolding display_safe_def by blast
  with display_ran.prems show ?case by simp
next
  case (display_opened w st sts p)
  then show ?case using open_displays_wf by simp
next
  case (display_copied rebase sts p w st q)
  then have "wf_arrangement (st_value st)"
    using read_displays_wf kept_opt_ins_id
    by (auto simp: worker_copy_displays_def worker_copy_def open_store_def map_sum_def
        split: sum.splits if_splits)
  with display_copied.prems show ?case by simp
qed simp

text \<open>C29: In every state the system can reach, through every operation of the store, the two mirrors of a
  worker's saves included, and whatever is written to the file from outside, every store's arrangement
  is well formed: at most 64 screens with usable names, each shown a playlist of a usable name, and
  only an assigned screen beats the global rules. So no operation ever ends in the \<open>ValueError\<close> that saving an
  opt-in without an assignment raises. The mirror of a retarget, which checks nothing itself, is given
  targets that are not blank, as every retarget a worker could save has: \<open>reassign_where\<close> and
  \<open>reassign_many\<close> refuse a blank one.\<close>

theorem display_invariant:
  assumes "display_system\<^sup>*\<^sup>* (sts, w) (sts', w')" and "\<forall>p. wf_arrangement (st_value (sts p))"
  shows "wf_arrangement (st_value (sts' p)) \<and>
    (\<forall>f. display_operation f \<longrightarrow> fst (f (sts' p) w') \<noteq> Inl ValueErr)"
proof -
  have "\<forall>p. wf_arrangement (st_value (fst s p))" if "display_system\<^sup>*\<^sup>* (sts, w) s" for s
    using that
  proof (induction rule: rtranclp_induct)
    case (step s t)
    then show ?case using display_system_wf by blast
  qed (use assms(2) in simp)
  from this [OF assms(1)] have wf: "wf_arrangement (st_value (sts' p))" by simp
  moreover have "fst (f (sts' p) w') \<noteq> Inl ValueErr" if "display_operation f" for f
    using operation_display_safe [OF that] wf unfolding display_safe_def by (metis prod.collapse)
  ultimately show ?thesis by blast
qed

section \<open>Samples\<close>

definition desk :: arrangement where
  "desk = \<lparr>assignments = [(lit ''HDMI-A-1'', lit ''c1''), (lit ''DP-1'', lit ''a9''), (lit ''DP-2'', lit ''c1'')],
     beats = {lit ''HDMI-A-1'', lit ''DP-1''}\<rparr>"

definition desk_world :: world where
  "desk_world = holding (plain_displays desk)"

definition desk_store :: "arrangement store" where
  "desk_store = \<lparr>st_value = desk, st_fault = None, st_kind = None, st_loaded = True\<rparr>"

lemma desk_wf: "wf_arrangement desk"
  by code_simp

lemma desk_world_reads: "\<exists>r. read_displays (w_node desk_world) = Inr r \<and> r_value r = desk"
proof -
  have "case read_displays (w_node desk_world) of Inl _ \<Rightarrow> False | Inr r \<Rightarrow> r_value r = desk"
    by code_simp
  then show ?thesis by (auto split: sum.splits)
qed

theorem display_invariant_witness:
  "\<exists>x st1 w1. ran_op (unassign calm (lit ''DP-1'')) desk_store desk_world = (x, st1, w1) \<and>
     wf_arrangement (st_value st1) \<and> beats (st_value st1) = {lit ''HDMI-A-1''} \<and>
     fst (ran_op (set_beats_global_rules calm (lit ''DP-1'') (JBool True)) st1 w1) = Inl (Err Validation)"
proof -
  obtain x st1 w1 where run: "ran_op (unassign calm (lit ''DP-1'')) desk_store desk_world = (x, st1, w1)"
    by (metis prod_cases3)
  have "case ran_op (unassign calm (lit ''DP-1'')) desk_store desk_world of (x, st1, w1) \<Rightarrow>
      beats (st_value st1) = {lit ''HDMI-A-1''} \<and>
      fst (ran_op (set_beats_global_rules calm (lit ''DP-1'') (JBool True)) st1 w1) = Inl (Err Validation)"
    by code_simp
  moreover have "display_system ((\<lambda>_. desk_store), desk_world) ((\<lambda>_. desk_store)(0 := st1), w1)"
    using display_ran [OF op_unassign, of calm "lit ''DP-1''" "\<lambda>_. desk_store" 0 desk_world x st1 w1] run
    by simp
  then have "display_system\<^sup>*\<^sup>* ((\<lambda>_. desk_store), desk_world) ((\<lambda>_. desk_store)(0 := st1), w1)" by blast
  from display_invariant [OF this, of 0] have "wf_arrangement (st_value st1)"
    by (simp add: desk_store_def desk_wf)
  ultimately show ?thesis using run by (intro exI [of _ x] exI [of _ st1] exI [of _ w1]) simp
qed

section \<open>What each operation does to each screen\<close>

lemma wf_names:
  assumes "wf_arrangement a"
  shows "map_of (assignments a) c = Some p \<Longrightarrow> p \<noteq> [] \<and> c \<noteq> []"
    and "c \<in> beats a \<Longrightarrow> \<exists>p. map_of (assignments a) c = Some p"
    and "distinct (map fst (assignments a))"
proof -
  show "distinct (map fst (assignments a))"
    using assms by (simp add: wf_arrangement_def wf_assignments_def)
  show "map_of (assignments a) c = Some p \<Longrightarrow> p \<noteq> [] \<and> c \<noteq> []"
    using assms by (auto simp: wf_arrangement_def wf_assignments_def list_all_iff dest: map_of_SomeD)
  assume "c \<in> beats a"
  then have "c \<in> fst ` set (assignments a)" using assms by (auto simp: wf_arrangement_def)
  then show "\<exists>p. map_of (assignments a) c = Some p" by (metis map_of_eq_None_iff not_None_eq)
qed

lemma playlist_for_drop:
  "playlist_for (drop_screens cs a) d = (if clean_screen d \<in> set cs then [] else playlist_for a d)"
  by (simp add: playlist_for_def drop_screens_eq map_of_filter_keys)

lemma beats_drop:
  "beats_global_rules (drop_screens cs a) d \<longleftrightarrow> beats_global_rules a d \<and> clean_screen d \<notin> set cs"
  by (auto simp: beats_global_rules_def drop_screens_eq)

text \<open>A playlist shown where a screen is assigned one; whoever beats the global rules has one.\<close>

lemma playlist_for_cases:
  assumes "wf_arrangement a"
  shows "playlist_for a d \<noteq> [] \<longleftrightarrow> map_of (assignments a) (clean_screen d) \<noteq> None"
    and "beats_global_rules a d \<Longrightarrow> playlist_for a d \<noteq> []"
  using wf_names [OF assms] by (force simp: playlist_for_def beats_global_rules_def split: option.split)+

lemma screens_where_shown:
  assumes "wf_arrangement a"
  shows "clean_screen d \<in> set (screens_where P a) \<longleftrightarrow> playlist_for a d \<noteq> [] \<and> P (playlist_for a d)"
  using wf_names(1) [OF assms] screens_where_member [OF wf_names(3) [OF assms]]
  by (auto simp: playlist_for_def split: option.splits)

lemma playlist_for_point:
  "playlist_for (point_screens cs p a) d = (if clean_screen d \<in> set cs then p else playlist_for a d)"
  "beats_global_rules (point_screens cs p a) d = beats_global_rules a d"
  by (simp_all add: playlist_for_def beats_global_rules_def point_screens_def map_of_foldl_update)

lemma mutate_displays_reading:
  assumes "mutate_displays env refuse change st w = (Inr x, st1, w1)"
    and "read_displays (w_node w) = Inr r" and "st_loaded st"
  obtains b where "change (r_value r) = Inr (x, b, st_value st1)" "wf_arrangement (r_value r)"
  using mutate_displays_rebases [OF assms] read_displays_wf [OF assms(2)] by blast

text \<open>Assigning, unassigning and opting in or out change what was asked of that screen and nothing
  of any other: the playlists and opt-ins of the other screens stay those the file holds. A new
  assignment keeps its screen's opt-in, and unassigning takes the opt-in along; the result of
  unassigning and opting says whether there was anything to change.\<close>

theorem screens_keep_their_own:
  assumes "st_loaded st" and "read_displays (w_node w) = Inr r"
  shows "(assign env c p st w = (Inr (), st1, w1) \<longrightarrow>
      playlist_for (st_value st1) d =
        (if clean_screen d = clean_screen c then clean_playlist p else playlist_for (r_value r) d) \<and>
      beats_global_rules (st_value st1) d = beats_global_rules (r_value r) d) \<and>
    (unassign env c st w = (Inr b, st1, w1) \<longrightarrow>
      playlist_for (st_value st1) d =
        (if clean_screen d = clean_screen c then [] else playlist_for (r_value r) d) \<and>
      beats_global_rules (st_value st1) d =
        (clean_screen d \<noteq> clean_screen c \<and> beats_global_rules (r_value r) d) \<and>
      b = (playlist_for (r_value r) c \<noteq> [])) \<and>
    (set_beats_global_rules env c (JBool e) st w = (Inr b, st1, w1) \<longrightarrow>
      playlist_for (st_value st1) d = playlist_for (r_value r) d \<and>
      beats_global_rules (st_value st1) d =
        (if clean_screen d = clean_screen c then e else beats_global_rules (r_value r) d) \<and>
      b = (beats_global_rules (r_value r) c \<noteq> e))"
proof (rule conjI [OF impI conjI [OF impI impI]], goal_cases)
  case 1
  then have "mutate_displays env False (assign_change (clean_screen c) (clean_playlist p)) st w
      = (Inr (), st1, w1)"
    unfolding assign_def by (blast dest: usable_ok)
  from mutate_displays_reading [OF this assms(2,1)] obtain b
    where "assign_change (clean_screen c) (clean_playlist p) (r_value r) = Inr ((), b, st_value st1)" .
  then have "st_value st1 = (r_value r)
      \<lparr>assignments := AList.update (clean_screen c) (clean_playlist p) (assignments (r_value r))\<rparr>"
    by (simp add: assign_change_def split: if_splits)
  then show ?case
    by (simp add: playlist_for_def beats_global_rules_def update_conv')
next
  case 2
  from mutate_displays_reading [OF 2 [unfolded unassign_def] assms(2,1)] obtain b'
    where "unassign_change (clean_screen c) (r_value r) = Inr (b, b', st_value st1)"
    and wf: "wf_arrangement (r_value r)" .
  then have "st_value st1 = drop_screens [clean_screen c] (r_value r)"
    and "b = (map_of (assignments (r_value r)) (clean_screen c) \<noteq> None)"
    by (auto simp: unassign_change_def Let_def drop_screen_eq)
  then show ?case
    using playlist_for_cases(1) [OF wf, of c] by (auto simp: playlist_for_drop beats_drop)
next
  case 3
  then have "mutate_displays env True (opt_change (clean_screen c) e) st w = (Inr b, st1, w1)"
    unfolding set_beats_global_rules_def by (auto dest!: usable_ok)
  from mutate_displays_reading [OF this assms(2,1)] obtain b'
    where "opt_change (clean_screen c) e (r_value r) = Inr (b, b', st_value st1)" .
  then have v: "st_value st1 = (r_value r)\<lparr>beats := (if e then insert (clean_screen c) (beats (r_value r))
      else beats (r_value r) - {clean_screen c})\<rparr>" and "b = ((clean_screen c \<in> beats (r_value r)) \<noteq> e)"
    by (auto simp: opt_change_def Let_def split: if_splits)
  then show ?case
    by (simp add: v playlist_for_def beats_global_rules_def)
qed

lemma screens_where_count:
  "length (screens_where P a) = length (filter (\<lambda>(c, p). P p) (all_assignments a))"
  unfolding screens_where_def all_assignments_def
  by (metis filter_sort length_map length_sort)

text \<open>C30: Forgetting a deleted playlist, or pointing references at another, reaches every screen that
  shows it and no other: a forgotten screen loses its playlist and its opt-in, a retargeted one keeps
  its opt-in, the result counts them, and the file then reads, without a fault, as the store.\<close>

theorem playlist_references_follow:
  assumes "st_loaded st" and "wf_arrangement (st_value st)" and "read_displays (w_node w) = Inr r"
  shows "(unassign_playlist_where env names st w = (Inr n, st1, w1) \<longrightarrow>
      playlist_for (st_value st1) d =
        (if names (playlist_for (r_value r) d) then [] else playlist_for (r_value r) d) \<and>
      beats_global_rules (st_value st1) d =
        (beats_global_rules (r_value r) d \<and> \<not> names (playlist_for (r_value r) d)) \<and>
      n = length (filter (\<lambda>(c, p). names p) (all_assignments (r_value r))) \<and>
      file_reads_as w1 (st_value st1)) \<and>
    (reassign_many env refs p st w = (Inr n, st1, w1) \<longrightarrow>
      playlist_for (st_value st1) d =
        (if playlist_for (r_value r) d \<noteq> [] \<and> playlist_for (r_value r) d \<in> set (map clean_playlist refs)
         then clean_playlist p else playlist_for (r_value r) d) \<and>
      beats_global_rules (st_value st1) d = beats_global_rules (r_value r) d \<and>
      n = length (filter (\<lambda>(c, p). p \<in> set (map clean_playlist refs)) (all_assignments (r_value r))) \<and>
      file_reads_as w1 (st_value st1))"
proof (rule conjI [OF impI impI], goal_cases)
  case 1
  note m = 1 [unfolded unassign_playlist_where_def]
  from mutate_displays_reading [OF m assms(3,1)] obtain b
    where "forget_change names (r_value r) = Inr (n, b, st_value st1)" and wf: "wf_arrangement (r_value r)" .
  then have v: "st_value st1 = drop_screens (screens_where names (r_value r)) (r_value r)"
    and n: "n = length (screens_where names (r_value r))"
    by (auto simp: forget_change_def Let_def)
  show ?case
    using mutate_displays_in_file [OF m forget_change_sound assms(1,2)] playlist_for_cases(2) [OF wf, of d]
    by (auto simp: v n screens_where_count playlist_for_drop beats_drop screens_where_shown [OF wf])
next
  case 2
  let ?P = "\<lambda>q. q \<in> set (map clean_playlist refs)"
  from 2 have p: "clean_playlist p \<noteq> []"
    and m: "mutate_displays env True (retarget_change ?P (clean_playlist p)) st w = (Inr n, st1, w1)"
    unfolding reassign_many_def by (blast dest: usable_ok)+
  from mutate_displays_reading [OF m assms(3,1)] obtain b
    where "retarget_change ?P (clean_playlist p) (r_value r) = Inr (n, b, st_value st1)"
    and wf: "wf_arrangement (r_value r)" .
  then have v: "st_value st1 = point_screens (screens_where ?P (r_value r)) (clean_playlist p) (r_value r)"
    and n: "n = length (screens_where ?P (r_value r))"
    by (auto simp: retarget_change_def Let_def)
  show ?case
    using mutate_displays_in_file [OF m retarget_change_sound [OF _ p] assms(1,2)]
    by (simp add: v n screens_where_count playlist_for_point screens_where_shown [OF wf]
        del: set_map)
qed

lemma worker_loaded:
  "worker_copy_displays b st w = Inr worker \<Longrightarrow> st_loaded st \<Longrightarrow> st_loaded worker"
  by (auto simp: worker_copy_displays_def worker_copy_def open_store_def map_sum_def
      split: sum.splits if_splits)

text \<open>The mirrored retarget to one playlist is the change the worker made.\<close>

lemma map_of_same: "map_of (map (\<lambda>q. (f q, y)) xs) k = (if k \<in> f ` set xs then Some y else None)"
  by (induction xs) auto

lemma foldl_point:
  assumes "distinct cs" and "\<forall>c\<in>set cs. \<exists>q. map_of d c = Some q \<and> f q = Some p"
  shows "foldl (\<lambda>d c. AList.update c (the (f (the (map_of d c)))) d) d cs =
    foldl (\<lambda>d c. AList.update c p d) d cs"
  using assms
proof (induction cs arbitrary: d)
  case (Cons c cs)
  then have "the (f (the (map_of d c))) = p" by force
  moreover have "\<forall>c'\<in>set cs. \<exists>q. map_of (AList.update c p d) c' = Some q \<and> f q = Some p"
    using Cons.prems by (auto simp: update_conv')
  ultimately show ?case using Cons.IH [of "AList.update c p d"] Cons.prems(1) by simp
qed simp

lemma adopt_worker_reassign_eq:
  assumes "wf_arrangement (st_value st)"
  shows "adopt_worker_reassign (map (\<lambda>q. (q, p)) refs) st =
     (let stale = screens_where (\<lambda>q. q \<in> set (map clean_playlist refs)) (st_value st)
      in (length stale, st\<lparr>st_value := point_screens stale (clean_playlist p) (st_value st)\<rparr>))"
proof -
  let ?f = "map_of (rev (map (\<lambda>(q, t). (clean_playlist q, clean_playlist t)) (map (\<lambda>q. (q, p)) refs)))"
  let ?d = "assignments (st_value st)"
  let ?stale = "screens_where (\<lambda>q. q \<in> set (map clean_playlist refs)) (st_value st)"
  have f: "?f q = (if q \<in> set (map clean_playlist refs) then Some (clean_playlist p) else None)" for q
    using map_of_same [of clean_playlist "clean_playlist p" "rev refs" q]
    by (simp add: rev_map comp_def)
  note dist = wf_names(3) [OF assms]
  have "distinct ?stale" unfolding screens_where_def using dist by (rule distinct_map_filter)
  moreover have "\<forall>c\<in>set ?stale. \<exists>q. map_of ?d c = Some q \<and> ?f q = Some (clean_playlist p)"
  proof
    fix c assume "c \<in> set ?stale"
    from iffD1 [OF screens_where_member [OF dist] this]
    obtain q where "map_of ?d c = Some q" "q \<in> set (map clean_playlist refs)" by (elim exE conjE)
    moreover have "?f q = Some (clean_playlist p)" unfolding f using calculation(2) by (rule if_P)
    ultimately show "\<exists>q. map_of ?d c = Some q \<and> ?f q = Some (clean_playlist p)" by blast
  qed
  ultimately have "foldl (\<lambda>d c. AList.update c (the (?f (the (map_of d c)))) d) ?d ?stale =
      foldl (\<lambda>d c. AList.update c (clean_playlist p) d) ?d ?stale"
    by (rule foldl_point)
  moreover have "(\<lambda>q. ?f q \<noteq> None) = (\<lambda>q. q \<in> set (map clean_playlist refs))"
    unfolding f by (simp split: if_split)
  ultimately show ?thesis by (simp only: adopt_worker_reassign_def Let_def point_screens_def)
qed

text \<open>C31: What the running program mirrors in memory after a worker's cleanup or retarget is what the
  worker's own store holds after saving it, when the file still held what the program knew.\<close>

theorem mirror_is_workers_save:
  assumes "worker_copy_displays True st w = Inr worker" and "read_displays (w_node w) = Inr r"
    and "r_value r = st_value st" and "st_loaded st"
  shows "(unassign_playlist_where env (\<lambda>p. p \<in> set (map clean_playlist ps)) worker w = (Inr n, st1, w1) \<longrightarrow>
      adopt_worker_unassign ps st = (n, st\<lparr>st_value := st_value st1\<rparr>)) \<and>
    (reassign_many env refs p worker w = (Inr n, st1, w1) \<longrightarrow>
      adopt_worker_reassign (map (\<lambda>q. (q, p)) refs) st = (n, st\<lparr>st_value := st_value st1\<rparr>))"
proof (rule conjI [OF impI impI], goal_cases)
  case 1
  obtain b where "forget_change (\<lambda>p. p \<in> set (map clean_playlist ps)) (st_value st) = Inr (n, b, st_value st1)"
    by (rule mutate_displays_reading [OF 1 [unfolded unassign_playlist_where_def] assms(2)
          worker_loaded [OF assms(1,4)], unfolded assms(3)])
  then show ?case by (simp add: forget_change_def adopt_worker_unassign_eq Let_def del: set_map)
next
  case 2
  then have "mutate_displays env True (retarget_change (\<lambda>q. q \<in> set (map clean_playlist refs))
      (clean_playlist p)) worker w = (Inr n, st1, w1)"
    unfolding reassign_many_def by (blast dest: usable_ok)
  then obtain b where "retarget_change (\<lambda>q. q \<in> set (map clean_playlist refs)) (clean_playlist p) (st_value st)
      = Inr (n, b, st_value st1)" and "wf_arrangement (st_value st)"
    by (rule mutate_displays_reading [OF _ assms(2) worker_loaded [OF assms(1,4)], unfolded assms(3)])
  then show ?case by (simp add: retarget_change_def adopt_worker_reassign_eq Let_def del: set_map)
qed

section \<open>On the sample desk\<close>

definition returned :: "'r result \<times> arrangement store \<times> world \<Rightarrow> 'r option" where
  "returned t = (case fst t of Inl _ \<Rightarrow> None | Inr x \<Rightarrow> Some x)"

lemma returnedE:
  assumes "returned t = Some x"
  obtains st1 w1 where "t = (Inr x, st1, w1)"
  using assms by (cases t) (auto simp: returned_def split: sum.splits)

theorem screens_keep_their_own_witness:
  "\<exists>st1 w1 st2 w2 st3 w3.
     assign calm (lit ''DP-1'') (lit ''z3'') desk_store desk_world = (Inr (), st1, w1) \<and>
     unassign calm (lit ''DP-1'') desk_store desk_world = (Inr True, st2, w2) \<and>
     set_beats_global_rules calm (lit ''DP-2'') (JBool True) desk_store desk_world = (Inr True, st3, w3) \<and>
     playlist_for (st_value st1) (lit ''DP-1'') = lit ''z3'' \<and> beats_global_rules (st_value st1) (lit ''DP-1'') \<and>
     playlist_for (st_value st2) (lit ''DP-1'') = [] \<and> \<not> beats_global_rules (st_value st2) (lit ''DP-1'') \<and>
     beats_global_rules (st_value st3) (lit ''DP-2'')"
proof -
  obtain r where r: "read_displays (w_node desk_world) = Inr r" "r_value r = desk"
    using desk_world_reads by blast
  have l: "st_loaded desk_store" by (simp add: desk_store_def)
  note here = screens_keep_their_own [OF l r(1), unfolded r(2)]
  have "returned (assign calm (lit ''DP-1'') (lit ''z3'') desk_store desk_world) = Some ()"
    and "returned (unassign calm (lit ''DP-1'') desk_store desk_world) = Some True"
    and "returned (set_beats_global_rules calm (lit ''DP-2'') (JBool True) desk_store desk_world) = Some True"
    by code_simp+
  then obtain st1 w1 st2 w2 st3 w3
    where runs: "assign calm (lit ''DP-1'') (lit ''z3'') desk_store desk_world = (Inr (), st1, w1)"
      "unassign calm (lit ''DP-1'') desk_store desk_world = (Inr True, st2, w2)"
      "set_beats_global_rules calm (lit ''DP-2'') (JBool True) desk_store desk_world = (Inr True, st3, w3)"
    by (elim returnedE) blast
  have "clean_playlist (lit ''z3'') = lit ''z3''" "beats_global_rules desk (lit ''DP-1'')" by code_simp+
  then have "playlist_for (st_value st1) (lit ''DP-1'') = lit ''z3'' \<and>
      beats_global_rules (st_value st1) (lit ''DP-1'')"
    using here [where d = "lit ''DP-1''"] runs(1) by presburger
  moreover have "playlist_for (st_value st2) (lit ''DP-1'') = [] \<and>
      \<not> beats_global_rules (st_value st2) (lit ''DP-1'')"
    using here [where d = "lit ''DP-1''"] runs(2) by presburger
  moreover have "beats_global_rules (st_value st3) (lit ''DP-2'')"
    using here [where d = "lit ''DP-2''"] runs(3) by presburger
  ultimately show ?thesis using runs by blast
qed

theorem playlist_references_follow_witness:
  "\<exists>st1 w1 st2 w2.
     unassign_playlist_where calm (\<lambda>p. p = lit ''c1'') desk_store desk_world = (Inr 2, st1, w1) \<and>
     reassign_many calm [lit ''c1''] (lit ''b2'') desk_store desk_world = (Inr 2, st2, w2) \<and>
     playlist_for (st_value st1) (lit ''DP-2'') = [] \<and>
     \<not> beats_global_rules (st_value st1) (lit ''HDMI-A-1'') \<and> file_reads_as w1 (st_value st1) \<and>
     playlist_for (st_value st2) (lit ''HDMI-A-1'') = lit ''b2'' \<and>
     beats_global_rules (st_value st2) (lit ''HDMI-A-1'')"
proof -
  obtain r where r: "read_displays (w_node desk_world) = Inr r" "r_value r = desk"
    using desk_world_reads by blast
  have l: "st_loaded desk_store" "wf_arrangement (st_value desk_store)"
    by (simp_all add: desk_store_def desk_wf)
  note here = playlist_references_follow [OF l r(1), unfolded r(2)]
  have "returned (unassign_playlist_where calm (\<lambda>p. p = lit ''c1'') desk_store desk_world) = Some 2"
    and "returned (reassign_many calm [lit ''c1''] (lit ''b2'') desk_store desk_world) = Some 2"
    by code_simp+
  then obtain st1 w1 st2 w2
    where runs: "unassign_playlist_where calm (\<lambda>p. p = lit ''c1'') desk_store desk_world = (Inr 2, st1, w1)"
      "reassign_many calm [lit ''c1''] (lit ''b2'') desk_store desk_world = (Inr 2, st2, w2)"
    by (elim returnedE) blast
  have f: "playlist_for desk (lit ''DP-2'') = lit ''c1''" "playlist_for desk (lit ''HDMI-A-1'') = lit ''c1''"
    "beats_global_rules desk (lit ''HDMI-A-1'')" "clean_playlist (lit ''b2'') = lit ''b2''"
    "lit ''c1'' \<in> set (map clean_playlist [lit ''c1''])" "lit ''c1'' \<noteq> []"
    by code_simp+
  have "playlist_for (st_value st1) (lit ''DP-2'') = [] \<and> file_reads_as w1 (st_value st1)"
    using here [where d = "lit ''DP-2''"] runs(1) f(1) by presburger
  moreover have "\<not> beats_global_rules (st_value st1) (lit ''HDMI-A-1'')"
    using here [where d = "lit ''HDMI-A-1''"] runs(1) f(2) by presburger
  moreover have "playlist_for (st_value st2) (lit ''HDMI-A-1'') = lit ''b2'' \<and>
      beats_global_rules (st_value st2) (lit ''HDMI-A-1'')"
    using here [where d = "lit ''HDMI-A-1''"] runs(2) f by presburger
  ultimately show ?thesis using runs by blast
qed

theorem mirror_is_workers_save_witness:
  "\<exists>worker st1 w1. worker_copy_displays True desk_store desk_world = Inr worker \<and>
     reassign_many calm [lit ''c1''] (lit ''b2'') worker desk_world = (Inr 2, st1, w1) \<and>
     adopt_worker_reassign [(lit ''c1'', lit ''b2'')] desk_store = (2, desk_store\<lparr>st_value := st_value st1\<rparr>)"
proof -
  obtain r where r: "read_displays (w_node desk_world) = Inr r" "r_value r = st_value desk_store"
    using desk_world_reads by (auto simp: desk_store_def)
  have l: "st_loaded desk_store" by (simp add: desk_store_def)
  have "case worker_copy_displays True desk_store desk_world of Inl _ \<Rightarrow> False
      | Inr worker \<Rightarrow> returned (reassign_many calm [lit ''c1''] (lit ''b2'') worker desk_world) = Some 2"
    by code_simp
  then obtain worker where worker: "worker_copy_displays True desk_store desk_world = Inr worker"
    and "returned (reassign_many calm [lit ''c1''] (lit ''b2'') worker desk_world) = Some 2"
    by (auto split: sum.splits)
  then obtain st1 w1
    where run: "reassign_many calm [lit ''c1''] (lit ''b2'') worker desk_world = (Inr 2, st1, w1)"
    by (elim returnedE) blast
  then have "adopt_worker_reassign [(lit ''c1'', lit ''b2'')] desk_store =
      (2, desk_store\<lparr>st_value := st_value st1\<rparr>)"
    using mirror_is_workers_save [OF worker r l, where refs = "[lit ''c1'']"] by simp
  with worker run show ?thesis by blast
qed

end
