(* ===== verification/Favourites.thy ===== *)
theory Favourites
  imports Store_Transaction Paths
begin

text \<open>
  \<open>library/favourites.py\<close>: the starred wallpapers in the order they were starred, the
  \<open>favourites.json\<close> document, that it reads back as the very list, and the store's operations. A
  \<open>Path\<close> is its text (theory \<open>Paths\<close>).
\<close>

definition MAX_FAVOURITES :: nat where "MAX_FAVOURITES = 10000"
definition MAX_FAVOURITES_BYTES :: nat where "MAX_FAVOURITES_BYTES = 4 * 1024 * 1024"

section \<open>The list\<close>

type_synonym favourites = "pystr list"

definition usable_path :: "json \<Rightarrow> pystr option" where
  "usable_path candidate =
     (case candidate of
        JStr s \<Rightarrow> (if strip s = [] \<or> \<not> is_absolute s then None else Some (path_text s))
      | _ \<Rightarrow> None)"

text \<open>The loop of \<open>_readable\<close>: \<open>found\<close> is also what has been seen.\<close>

fun readable_from :: "pystr list \<Rightarrow> json list \<Rightarrow> pystr list" where
  "readable_from found [] = found"
| "readable_from found (candidate # rest) =
     (case usable_path candidate of
        None \<Rightarrow> readable_from found rest
      | Some path \<Rightarrow>
          (if path \<in> set found then readable_from found rest
           else if MAX_FAVOURITES \<le> Suc (length found) then found @ [path]
           else readable_from (found @ [path]) rest))"

definition readable :: "json list \<Rightarrow> favourites" where
  "readable candidates = readable_from [] candidates"

definition with_starred :: "pystr \<Rightarrow> favourites \<Rightarrow> favourites" where
  "with_starred path entries =
     (if path \<in> set entries then entries else take MAX_FAVOURITES (entries @ [path]))"

definition without_star :: "pystr \<Rightarrow> favourites \<Rightarrow> favourites" where
  "without_star path entries =
     (if path \<notin> set entries then entries else filter (\<lambda>entry. entry \<noteq> path) entries)"

definition missing_favourites :: "pystr list \<Rightarrow> favourites \<Rightarrow> pystr list" where
  "missing_favourites present entries = filter (\<lambda>entry. entry \<notin> set present) entries"

section \<open>The document\<close>

definition favourites_shape :: shape where
  "favourites_shape = Shape [lit ''version'', lit ''paths''] None False [] [] []"

definition favourites_to_document :: "favourites \<Rightarrow> dict" where
  "favourites_to_document entries =
     [(lit ''version'', JInt 1), (lit ''paths'', JArr (map JStr entries))]"

definition favourites_document :: "favourites \<Rightarrow> unknown \<Rightarrow> dict" where
  "favourites_document entries u = merge_unknown u favourites_shape (favourites_to_document entries)"

definition parse_favourites :: "dict \<Rightarrow> favourites \<times> fault option" where
  "parse_favourites payload =
     (case map_of payload (lit ''paths'') of
        Some (JArr stored) \<Rightarrow>
          (let first = take MAX_FAVOURITES stored;
               malformed = length (filter (\<lambda>c. usable_path c = None) first);
               valid_paths = List.map_filter usable_path first;
               duplicate = length valid_paths - card (set valid_paths)
           in (readable stored,
               joined_faults (version_fault 1 payload @
                 (if MAX_FAVOURITES < length stored then [TooMany] else []) @
                 (if malformed = 0 then [] else [MalformedRecords malformed]) @
                 (if duplicate = 0 then [] else [DuplicateRecords duplicate]))))
      | _ \<Rightarrow> ([], Some (ContentFault [NoRecords])))"

definition read_favourites :: "node \<Rightarrow> favourites reading result" where
  "read_favourites n =
     (case read_object MAX_FAVOURITES_BYTES n of
        (None, fault) \<Rightarrow>
          Inr \<lparr>r_value = [], r_fault = fault, r_newer = False, r_unknown = nothing_unknown,
               r_version = None\<rparr>
      | (Some payload, _) \<Rightarrow>
          (let (found, fault) = parse_favourites payload;
               unknown = capture_unknown favourites_shape payload
           in case newer_version_fault 1 payload of
                Some newer \<Rightarrow>
                  Inr \<lparr>r_value = found, r_fault = Some newer, r_newer = True, r_unknown = unknown,
                       r_version = None\<rparr>
              | None \<Rightarrow>
                  Inr \<lparr>r_value = found, r_fault = fault, r_newer = False, r_unknown = unknown,
                       r_version = None\<rparr>))"

definition load_favourites :: "node \<Rightarrow> favourites result" where
  "load_favourites n = map_sum id r_value (read_favourites n)"

text \<open>\<open>_write\<close> catches no \<open>UnicodeError\<close>, and \<open>_mutate\<close> adopts nothing before its change ran.\<close>

definition favourites_ops :: "favourites store_ops" where
  "favourites_ops = \<lparr>op_read = read_favourites, op_document = (\<lambda>v u. Inr (favourites_document v u)),
     op_max = MAX_FAVOURITES_BYTES, op_early = False, op_missing = [], op_catches_unicode = False\<rparr>"

lemma favourites_ops_simps [simp]:
  "op_read favourites_ops = read_favourites"
  "op_document favourites_ops v u = Inr (favourites_document v u)"
  "op_max favourites_ops = MAX_FAVOURITES_BYTES" "\<not> op_early favourites_ops"
  "op_missing favourites_ops = []" "\<not> op_catches_unicode favourites_ops"
  by (simp_all add: favourites_ops_def)

section \<open>The operations\<close>

type_synonym 'r favourite_op = "favourites store \<Rightarrow> world \<Rightarrow> 'r result \<times> favourites store \<times> world"

definition mutate_favourites :: "env \<Rightarrow> bool \<Rightarrow> (favourites, 'r) change \<Rightarrow> 'r favourite_op" where
  "mutate_favourites env refuse change = transact favourites_ops env refuse change"

text \<open>\<open>updated is not current\<close>: \<open>with_starred\<close> answers a new object unless the path was there.\<close>

definition add_change :: "pystr \<Rightarrow> (favourites, bool) change" where
  "add_change path current =
     (let changed = (path \<notin> set current) in Inr (changed, changed, with_starred path current))"

definition star :: "env \<Rightarrow> pystr \<Rightarrow> bool favourite_op" where
  "star env path = mutate_favourites env False (add_change path)"

text \<open>\<open>tuple(dict.fromkeys(paths))\<close>: the first of each.\<close>

definition first_of_each :: "pystr list \<Rightarrow> pystr list" where
  "first_of_each paths = rev (remdups (rev paths))"

definition add_many_change :: "pystr list \<Rightarrow> (favourites, nat) change" where
  "add_many_change wanted current =
     (let new = filter (\<lambda>path. path \<notin> set current) wanted;
          room = int MAX_FAVOURITES - int (length current)
      in if room < int (length new) then Inl (Err Full)
         else let updated = foldl (\<lambda>entries path. with_starred path entries) current new
              in Inr (length updated - length current, new \<noteq> [], updated))"

definition star_many :: "env \<Rightarrow> pystr list \<Rightarrow> nat favourite_op" where
  "star_many env paths = mutate_favourites env False (add_many_change (first_of_each paths))"

definition discard_change :: "pystr \<Rightarrow> (favourites, bool) change" where
  "discard_change path current =
     (let changed = (path \<in> set current) in Inr (changed, changed, without_star path current))"

definition unstar :: "env \<Rightarrow> pystr \<Rightarrow> bool favourite_op" where
  "unstar env path = mutate_favourites env True (discard_change path)"

definition toggle_change :: "pystr \<Rightarrow> (favourites, bool) change" where
  "toggle_change path current =
     (let now_favourite = (path \<notin> set current)
      in Inr (now_favourite, True,
           if now_favourite then with_starred path current else without_star path current))"

definition toggle :: "env \<Rightarrow> pystr \<Rightarrow> bool favourite_op" where
  "toggle env path = mutate_favourites env True (toggle_change path)"

definition adopt_worker_discard :: "pystr \<Rightarrow> favourites store \<Rightarrow> bool \<times> favourites store" where
  "adopt_worker_discard path st =
     (path \<in> set (st_value st),
      \<lparr>st_value = without_star path (st_value st), st_fault = None, st_kind = None, st_loaded = True\<rparr>)"

definition open_favourites :: "world \<Rightarrow> favourites store result" where
  "open_favourites w = open_store favourites_ops w"

definition worker_copy_favourites :: "bool \<Rightarrow> favourites store \<Rightarrow> world \<Rightarrow> favourites store result" where
  "worker_copy_favourites rebase st w = worker_copy favourites_ops rebase st w"

definition save_favourites :: "env \<Rightarrow> favourites \<Rightarrow> unknown \<Rightarrow> world \<Rightarrow> unit result \<times> world" where
  "save_favourites env v u w = save_document favourites_ops env v u w"

definition is_favourite :: "favourites store \<Rightarrow> pystr \<Rightarrow> bool" where
  "is_favourite st path \<longleftrightarrow> path \<in> set (st_value st)"

section \<open>The document reads back\<close>

text \<open>A path as the reader keeps it: absolute, and its own text.\<close>

definition wallpaper_path :: "pystr \<Rightarrow> bool" where
  "wallpaper_path p \<longleftrightarrow> is_absolute p \<and> path_text p = p"

definition wf_favourites :: "favourites \<Rightarrow> bool" where
  "wf_favourites entries \<longleftrightarrow> distinct entries \<and> length entries \<le> MAX_FAVOURITES \<and>
     (\<forall>p\<in>set entries. wallpaper_path p)"

lemma usable_wallpaper: "usable_path c = Some p \<Longrightarrow> wallpaper_path p"
  by (auto simp: usable_path_def wallpaper_path_def split: json.splits if_splits)

lemma usable_stored: "wallpaper_path p \<Longrightarrow> usable_path (JStr p) = Some p"
  by (simp add: usable_path_def wallpaper_path_def absolute_strip)

lemma readable_from_wf:
  "wf_favourites found \<Longrightarrow> length found < MAX_FAVOURITES \<Longrightarrow> wf_favourites (readable_from found cs)"
  by (induction found cs rule: readable_from.induct)
    (auto simp: wf_favourites_def usable_wallpaper split: option.split)

lemma readable_wf: "wf_favourites (readable cs)"
  unfolding readable_def by (rule readable_from_wf) (simp_all add: wf_favourites_def MAX_FAVOURITES_def)

lemma readable_from_stored:
  "wf_favourites (found @ ps) \<Longrightarrow> length found < MAX_FAVOURITES \<Longrightarrow>
     readable_from found (map JStr ps) = found @ ps"
proof (induction ps arbitrary: found)
  case (Cons p ps)
  then have p: "usable_path (JStr p) = Some p" "p \<notin> set found"
    by (auto simp: wf_favourites_def intro: usable_stored)
  show ?case
  proof (cases "MAX_FAVOURITES \<le> Suc (length found)")
    case True
    moreover have "length found + Suc (length ps) \<le> MAX_FAVOURITES"
      using Cons.prems(1) by (simp add: wf_favourites_def)
    ultimately have "length ps = 0" by linarith
    then have "ps = []" by simp
    with p True show ?thesis by simp
  next
    case False
    with p Cons show ?thesis by simp
  qed
qed simp

lemma usable_all: "\<forall>p\<in>set ps. wallpaper_path p \<Longrightarrow> List.map_filter usable_path (map JStr ps) = ps"
  by (induction ps) (simp_all add: List.map_filter_simps usable_stored)

lemma favourites_keys:
  "map_of (favourites_to_document v) (lit ''version'') = Some (JInt 1)"
  "map_of (favourites_to_document v) (lit ''paths'') = Some (JArr (map JStr v))"
  by (simp_all add: favourites_to_document_def)

lemma parse_favourites_stored:
  assumes "wf_favourites v"
  shows "parse_favourites (favourites_to_document v) = (v, None)"
proof -
  have paths: "\<forall>p\<in>set v. wallpaper_path p" and len: "length v \<le> MAX_FAVOURITES" and "distinct v"
    using assms by (simp_all add: wf_favourites_def)
  have first: "take MAX_FAVOURITES (map JStr v) = map JStr v" using len by simp
  have "readable (map JStr v) = v"
    using readable_from_stored [of "[]" v] assms by (simp add: readable_def MAX_FAVOURITES_def)
  moreover have "filter (\<lambda>c. usable_path c = None) (map JStr v) = []"
    using paths by (auto simp: filter_empty_conv usable_stored)
  moreover have "length v - card (set v) = 0" using \<open>distinct v\<close> by (simp add: distinct_card)
  ultimately show ?thesis
    using len usable_all [OF paths]
    by (simp add: parse_favourites_def favourites_keys first version_fault_def joined_faults_def)
qed

lemma favourites_shape_flat: "no_objects favourites_shape"
  by (simp add: favourites_shape_def)

lemma favourites_project_keys:
  "map_of (project favourites_shape d) (lit ''version'') = map_of d (lit ''version'')"
  "map_of (project favourites_shape d) (lit ''paths'') = map_of d (lit ''paths'')"
  by (rule project_plain; simp add: favourites_shape_def models_def)+

lemma favourites_project:
  "parse_favourites (project favourites_shape d) = parse_favourites d"
  "newer_version_fault n (project favourites_shape d) = newer_version_fault n d"
  unfolding parse_favourites_def newer_version_fault_def version_fault_def favourites_project_keys
  by (rule refl)+

lemma read_favourites_written:
  assumes "wf_favourites v" "bytes \<le> MAX_FAVOURITES_BYTES" "json_encodable (JObj (favourites_document v u))"
  shows "\<exists>r. read_favourites (Regular bytes (Decoded (JObj (favourites_document v u)))) = Inr r \<and>
    r_fault r = None \<and> \<not> r_newer r \<and> r_value r = v \<and>
    r_unknown r = capture_unknown favourites_shape (favourites_document v u)"
proof -
  let ?d = "favourites_document v u"
  have p: "project favourites_shape ?d = project favourites_shape (favourites_to_document v)"
    unfolding favourites_document_def using project_merge(1) [OF favourites_shape_flat] by blast
  have "parse_favourites ?d = (v, None)"
    using parse_favourites_stored [OF assms(1)] favourites_project(1) p by metis
  moreover have "newer_version_fault 1 (favourites_to_document v) = None"
    by (simp add: newer_version_fault_def favourites_keys)
  then have "newer_version_fault 1 ?d = None" using favourites_project(2) p by metis
  ultimately show ?thesis
    using assms(2,3) by (simp add: read_favourites_def read_object_def decode_content_def)
qed

lemma read_favourites_wf: "read_favourites n = Inr r \<Longrightarrow> wf_favourites (r_value r)"
  using readable_wf
  by (auto simp: read_favourites_def parse_favourites_def Let_def wf_favourites_def [of "[]"]
      split: prod.splits option.splits json.splits)

interpretation favourite: exact_store favourites_ops wf_favourites "\<lambda>_. True"
proof unfold_locales
  show True ..
  show "op_read favourites_ops n = Inr r \<Longrightarrow> wf_favourites (r_value r)" for n r
    by (simp add: read_favourites_wf)
  show "\<exists>r. op_read favourites_ops Absent = Inr r \<and> r_fault r = None \<and> \<not> r_newer r"
    by (simp add: read_favourites_def read_object_def)
  show "\<exists>r. op_read favourites_ops (Regular bytes (Decoded (JObj d))) = Inr r \<and> r_fault r = None \<and>
      \<not> r_newer r \<and> r_value r = v"
    if "wf_favourites v" "op_document favourites_ops v u = Inr d" "bytes \<le> op_max favourites_ops"
      "json_encodable (JObj d)" for v u d bytes
    using read_favourites_written [of v bytes u] that by auto
qed

end
