(* ===== verification/Favourite_Guarantees.thy ===== *)
theory Favourite_Guarantees
  imports Favourites
begin

text \<open>
  The properties of the favourites: several wallpapers are starred together or not at all, and a
  toggle flips one and is undone by the next. Both run on what the file holds, and the file then
  reads as what the store holds.
\<close>

section \<open>What the changes do\<close>

definition sound_star :: "(favourites, 'r) change \<Rightarrow> bool" where
  "sound_star change \<longleftrightarrow> favourite.preserves change \<and> favourite.honest change"

lemma sound_starI:
  assumes "\<And>v x b v'. wf_favourites v \<Longrightarrow> change v = Inr (x, b, v') \<Longrightarrow> wf_favourites v'"
    and "\<And>v x v'. change v = Inr (x, False, v') \<Longrightarrow> v' = v"
  shows "sound_star change"
  using assms unfolding sound_star_def favourite.preserves_def favourite.honest_def by blast

lemma with_starred_wf: "wf_favourites v \<Longrightarrow> wallpaper_path p \<Longrightarrow> wf_favourites (with_starred p v)"
  by (auto simp: wf_favourites_def with_starred_def dest: in_set_takeD)

lemma without_star_wf: "wf_favourites v \<Longrightarrow> wf_favourites (without_star p v)"
  by (auto simp: wf_favourites_def without_star_def intro: order_trans [OF length_filter_le])

lemma without_star_eq: "without_star p v = filter (\<lambda>q. q \<noteq> p) v"
  unfolding without_star_def by (auto intro!: filter_True [symmetric])

lemma with_starred_room:
  "p \<notin> set v \<Longrightarrow> length v < MAX_FAVOURITES \<Longrightarrow> with_starred p v = v @ [p]"
  by (simp add: with_starred_def)

lemma foldl_with_starred:
  "distinct (v @ new) \<Longrightarrow> length v + length new \<le> MAX_FAVOURITES \<Longrightarrow>
     foldl (\<lambda>entries p. with_starred p entries) v new = v @ new"
proof (induction new arbitrary: v)
  case (Cons p new)
  then have "with_starred p v = v @ [p]" by (intro with_starred_room) simp_all
  with Cons show ?case by simp
qed simp

lemma first_of_each_props [simp]: "distinct (first_of_each ps)" "set (first_of_each ps) = set ps"
  by (simp_all add: first_of_each_def)

lemma add_many_ok:
  assumes "distinct wanted" "distinct v" "add_many_change wanted v = Inr (n, b, v')"
  shows "v' = v @ filter (\<lambda>p. p \<notin> set v) wanted"
    and "n = length (filter (\<lambda>p. p \<notin> set v) wanted)" and "b = (n \<noteq> 0)"
    and "length v' \<le> MAX_FAVOURITES"
proof -
  let ?new = "filter (\<lambda>p. p \<notin> set v) wanted"
  have room: "length v + length ?new \<le> MAX_FAVOURITES"
    using assms(3) by (auto simp: add_many_change_def Let_def split: if_splits)
  have "distinct (v @ ?new)" using assms(1,2) by auto
  from foldl_with_starred [OF this room] show v': "v' = v @ ?new"
    using assms(3) by (auto simp: add_many_change_def Let_def split: if_splits)
  with room show "length v' \<le> MAX_FAVOURITES" by simp
  show n: "n = length ?new" using v' assms(3) by (auto simp: add_many_change_def Let_def split: if_splits)
  show "b = (n \<noteq> 0)" using assms(3) unfolding n by (auto simp: add_many_change_def Let_def split: if_splits)
qed

lemma add_many_sound:
  assumes "\<forall>p\<in>set ps. wallpaper_path p"
  shows "sound_star (add_many_change (first_of_each ps))"
proof (rule sound_starI)
  fix v n b v' assume v: "wf_favourites v" and ok: "add_many_change (first_of_each ps) v = Inr (n, b, v')"
  have "distinct v" using v by (simp add: wf_favourites_def)
  note eff = add_many_ok [OF first_of_each_props(1) this ok]
  show "wf_favourites v'" using v assms eff(4) unfolding wf_favourites_def eff(1) by auto
qed (auto simp: add_many_change_def Let_def split: if_splits)

lemma toggle_sound: "wallpaper_path p \<Longrightarrow> sound_star (toggle_change p)"
  by (rule sound_starI) (auto simp: toggle_change_def Let_def with_starred_wf without_star_wf)

section \<open>Through the file\<close>

definition file_holds_favourites :: "world \<Rightarrow> favourites \<Rightarrow> bool" where
  "file_holds_favourites w v \<longleftrightarrow> (case read_favourites (w_node w) of
     Inl _ \<Rightarrow> False | Inr r \<Rightarrow> r_fault r = None \<and> r_value r = v)"

lemma mutate_favourites_reading:
  assumes "mutate_favourites env refuse change st w = (Inr x, st1, w1)"
    and "read_favourites (w_node w) = Inr r" and "st_loaded st"
  obtains b where "change (r_value r) = Inr (x, b, st_value st1)" "wf_favourites (r_value r)"
  using favourite.transact_rebases [OF assms(1) [unfolded mutate_favourites_def]] assms(2,3)
    read_favourites_wf [OF assms(2)] by auto

lemma mutate_favourites_wf:
  assumes "mutate_favourites env refuse change st w = (x, st1, w1)" and "sound_star change"
    and "wf_favourites (st_value st)"
  shows "wf_favourites (st_value st1)"
  using assms favourite.transact_wf unfolding mutate_favourites_def sound_star_def by blast

text \<open>An operation that refuses a damaged file, or whose answer says that something changed, leaves the
  store's list in the file.\<close>

lemma mutate_favourites_in_file:
  assumes m: "mutate_favourites env refuse change st w = (Inr x, st1, w1)" and s: "sound_star change"
    and "st_loaded st" and "wf_favourites (st_value st)"
    and told: "refuse \<or> (\<forall>v v'. change v \<noteq> Inr (x, False, v'))"
  shows "file_holds_favourites w1 (st_value st1)"
proof -
  note t = m [unfolded mutate_favourites_def]
  have pres: "favourite.preserves change" and honest: "favourite.honest change"
    using s by (simp_all add: sound_star_def)
  from t show ?thesis
  proof (cases rule: transact_cases)
    case (unchanged r y v)
    have r: "read_favourites (w_node w) = Inr r" using unchanged(5) by simp
    have "change (r_value r) = Inr (y, False, v)" using unchanged(8) \<open>st_loaded st\<close> by simp
    then have "v = r_value r" using honest read_favourites_wf [OF r] unfolding favourite.honest_def by blast
    moreover have "r_fault r = None" using unchanged(1,7,8) told by auto
    ultimately show ?thesis using r unchanged(2,3) by (simp add: file_holds_favourites_def)
  next
    case (saved r y v)
    from persist_ok [OF saved(9)] have d: "rendered_size (JObj (favourites_document v (r_unknown r))) \<le> MAX_FAVOURITES_BYTES"
      "json_encodable (JObj (favourites_document v (r_unknown r)))"
      "w_node w1 = Regular (rendered_size (JObj (favourites_document v (r_unknown r))))
         (Decoded (JObj (favourites_document v (r_unknown r))))"
      by auto
    have "wf_favourites v" using favourite.transact_wf [OF t pres assms(4)] saved(2) by simp
    from read_favourites_written [OF this d(1,2)] d(3) saved(2)
    show ?thesis by (auto simp: file_holds_favourites_def)
  qed simp_all
qed

text \<open>C32: Wallpapers chosen together are starred together or not at all: when they fit under the cap of
  10,000, each new one is appended once, in the order chosen, the result counts them and the file
  then reads as that list; when they do not fit, nothing is written and nothing changes in memory.\<close>

theorem starred_together:
  assumes "\<forall>p\<in>set paths. wallpaper_path p" and "st_loaded st" and "wf_favourites (st_value st)"
    and "read_favourites (w_node w) = Inr r" and "new = filter (\<lambda>p. p \<notin> set (r_value r)) (first_of_each paths)"
    and "star_many env paths st w = (res, st1, w1)"
  shows "(length (r_value r) + length new \<le> MAX_FAVOURITES \<and> res = Inr n \<longrightarrow>
       st_value st1 = r_value r @ new \<and> n = length new \<and> (n \<noteq> 0 \<longrightarrow> file_holds_favourites w1 (r_value r @ new))) \<and>
    (MAX_FAVOURITES < length (r_value r) + length new \<longrightarrow>
       (\<exists>e. res = Inl e) \<and> st_value st1 = st_value st \<and> w1 = w)"
proof (rule conjI [OF impI impI], goal_cases)
  case 1
  then have m: "mutate_favourites env False (add_many_change (first_of_each paths)) st w = (Inr n, st1, w1)"
    using assms(6) unfolding star_many_def by simp
  from mutate_favourites_reading [OF m assms(4,2)] obtain b
    where ch: "add_many_change (first_of_each paths) (r_value r) = Inr (n, b, st_value st1)"
    and wf: "wf_favourites (r_value r)" .
  have "distinct (r_value r)" using wf by (simp add: wf_favourites_def)
  note eff = add_many_ok [OF first_of_each_props(1) this ch, folded assms(5)]
  have "\<forall>v v'. add_many_change (first_of_each paths) v \<noteq> Inr (n, False, v')" if "n \<noteq> 0"
    using that by (auto simp: add_many_change_def Let_def split: if_splits)
  with mutate_favourites_in_file [OF m add_many_sound [OF assms(1)] assms(2,3)]
  have "n \<noteq> 0 \<longrightarrow> file_holds_favourites w1 (st_value st1)" by blast
  with eff show ?case by simp
next
  case 2
  then have full: "add_many_change (first_of_each paths) (r_value r) = Inl (Err Full)"
    by (simp add: add_many_change_def Let_def assms(5) [symmetric])
  from assms(6) [unfolded star_many_def mutate_favourites_def] show ?case
  proof (cases rule: transact_cases)
    case (not_saved r' e x v)
    then show ?thesis using full assms(2,4) by simp
  next
    case (unchanged r' x v)
    then show ?thesis using full assms(2,4) by simp
  next
    case (saved r' x v)
    then show ?thesis using full assms(2,4) by simp
  qed simp
qed

lemma toggle_reading:
  assumes "toggle env p st w = (Inr b, st1, w1)" and "read_favourites (w_node w) = Inr r" and "st_loaded st"
  shows "b = (p \<notin> set (r_value r))"
    and "st_value st1 = (if b then with_starred p (r_value r) else without_star p (r_value r))"
proof -
  from mutate_favourites_reading [OF assms(1) [unfolded toggle_def] assms(2,3)]
  obtain c where "toggle_change p (r_value r) = Inr (b, c, st_value st1)" .
  then show "b = (p \<notin> set (r_value r))"
    and "st_value st1 = (if b then with_starred p (r_value r) else without_star p (r_value r))"
    unfolding toggle_change_def Let_def by auto
qed

lemma toggle_loaded: "toggle env p st w = (Inr b, st1, w1) \<Longrightarrow> st_loaded st \<Longrightarrow> st_loaded st1"
  unfolding toggle_def mutate_favourites_def by (rule favourite.transact_loaded)

text \<open>A toggle answers what the wallpaper was not, flips it where there is room for one more, keeps
  every other favourite in its place, and a second toggle, by any process, undoes it: a wallpaper
  unstarred and starred again goes to the end. At the cap of 10,000 the answer still says starred, and
  the list stays as it was.\<close>

theorem toggle_flips:
  assumes "wallpaper_path p" and "st_loaded st" and "wf_favourites (st_value st)"
    and "read_favourites (w_node w) = Inr r" and "toggle env p st w = (Inr b, st1, w1)"
  shows "b = (p \<notin> set (r_value r)) \<and>
    (p \<in> set (st_value st1) \<longleftrightarrow> b \<and> length (r_value r) < MAX_FAVOURITES) \<and>
    filter (\<lambda>q. q \<noteq> p) (st_value st1) = filter (\<lambda>q. q \<noteq> p) (r_value r) \<and>
    file_holds_favourites w1 (st_value st1) \<and>
    (length (r_value r) < MAX_FAVOURITES \<longrightarrow> st_loaded other \<longrightarrow> toggle env2 p other w1 = (Inr b2, st2, w2) \<longrightarrow>
       b2 = (\<not> b) \<and> st_value st2 = (if b then r_value r else filter (\<lambda>q. q \<noteq> p) (r_value r) @ [p]))"
proof -
  note eff = toggle_reading [OF assms(5,4,2)]
  have wf: "wf_favourites (r_value r)" by (rule read_favourites_wf [OF assms(4)])
  have len: "length (r_value r) \<le> MAX_FAVOURITES" using wf by (simp add: wf_favourites_def)
  have v: "st_value st1 = (if b then (if length (r_value r) < MAX_FAVOURITES then r_value r @ [p] else r_value r)
      else filter (\<lambda>q. q \<noteq> p) (r_value r))"
    using eff len by (auto simp: with_starred_def without_star_eq)
  have "file_holds_favourites w1 (st_value st1)"
    using mutate_favourites_in_file [OF assms(5) [unfolded toggle_def] toggle_sound [OF assms(1)] assms(2,3)]
    by simp
  moreover have "b2 = (\<not> b) \<and> st_value st2 = (if b then r_value r else filter (\<lambda>q. q \<noteq> p) (r_value r) @ [p])"
    if room: "length (r_value r) < MAX_FAVOURITES" and o: "st_loaded other"
      and again: "toggle env2 p other w1 = (Inr b2, st2, w2)"
  proof -
    obtain r1 where r1: "read_favourites (w_node w1) = Inr r1" "r_value r1 = st_value st1"
      using \<open>file_holds_favourites w1 (st_value st1)\<close>
      by (auto simp: file_holds_favourites_def split: sum.splits)
    note eff2 = toggle_reading [OF again r1(1) o, unfolded r1(2)]
    have "length (filter (\<lambda>q. q \<noteq> p) (r_value r)) < MAX_FAVOURITES"
      using room by (rule le_less_trans [OF length_filter_le])
    with eff2 eff(1) v room show ?thesis
      by (auto simp: with_starred_def without_star_eq filter_id_conv)
  qed
  ultimately show ?thesis using eff(1) v by (auto simp: filter_id_conv)
qed

section \<open>A sample\<close>

definition starred_world :: world where
  "starred_world = holding (favourites_to_document [lit ''/w/a.jpg'', lit ''/w/b.mp4''])"

definition starred_store :: "favourites store" where
  "starred_store = \<lparr>st_value = [], st_fault = None, st_kind = None, st_loaded = True\<rparr>"

lemma starred_sample:
  "st_loaded starred_store" "wf_favourites (st_value starred_store)"
  "wallpaper_path (lit ''/w/b.mp4'')" "wallpaper_path (lit ''/w/c.png'')"
  "lit ''/w/b.mp4'' = path_text (lit ''/w//./b.mp4/'')"
  by code_simp+

lemma starred_world_reads:
  obtains r where "read_favourites (w_node starred_world) = Inr r"
    "r_value r = [lit ''/w/a.jpg'', lit ''/w/b.mp4'']"
proof -
  have "case read_favourites (w_node starred_world) of Inl _ \<Rightarrow> False
      | Inr r \<Rightarrow> r_value r = [lit ''/w/a.jpg'', lit ''/w/b.mp4'']"
    by code_simp
  then show ?thesis using that by (auto split: sum.splits)
qed

theorem starred_together_witness:
  "\<exists>st1 w1. star_many calm [lit ''/w/b.mp4'', lit ''/w/c.png'', lit ''/w/c.png''] starred_store starred_world
       = (Inr 1, st1, w1) \<and>
     st_value st1 = [lit ''/w/a.jpg'', lit ''/w/b.mp4'', lit ''/w/c.png''] \<and>
     file_holds_favourites w1 (st_value st1)"
proof -
  let ?ps = "[lit ''/w/b.mp4'', lit ''/w/c.png'', lit ''/w/c.png'']"
  let ?old = "[lit ''/w/a.jpg'', lit ''/w/b.mp4'']"
  obtain r where r: "read_favourites (w_node starred_world) = Inr r" "r_value r = ?old"
    by (rule starred_world_reads)
  have "case star_many calm ?ps starred_store starred_world of (Inl _, _) \<Rightarrow> False | (Inr n, _) \<Rightarrow> n = 1"
    by code_simp
  then obtain st1 w1 where run: "star_many calm ?ps starred_store starred_world = (Inr 1, st1, w1)"
    by (auto split: sum.splits prod.splits)
  have ok: "\<forall>p\<in>set ?ps. wallpaper_path p" using starred_sample by simp
  have new: "[lit ''/w/c.png''] = filter (\<lambda>p. p \<notin> set ?old) (first_of_each ?ps)" by code_simp
  have "length ?old + length [lit ''/w/c.png''] \<le> MAX_FAVOURITES" by (simp add: MAX_FAVOURITES_def)
  then have "st_value st1 = ?old @ [lit ''/w/c.png''] \<and> file_holds_favourites w1 (?old @ [lit ''/w/c.png''])"
    using starred_together [OF ok starred_sample(1,2) r(1) new [folded r(2)] run, where n = 1]
    unfolding r(2) by simp
  with run show ?thesis by auto
qed

theorem toggle_flips_witness:
  "\<exists>st1 w1 st2 w2. toggle calm (lit ''/w/a.jpg'') starred_store starred_world = (Inr False, st1, w1) \<and>
     st_value st1 = [lit ''/w/b.mp4''] \<and>
     toggle calm (lit ''/w/a.jpg'') starred_store w1 = (Inr True, st2, w2) \<and>
     st_value st2 = [lit ''/w/b.mp4'', lit ''/w/a.jpg'']"
proof -
  let ?old = "[lit ''/w/a.jpg'', lit ''/w/b.mp4'']"
  let ?run = "toggle calm (lit ''/w/a.jpg'') starred_store starred_world"
  obtain r where r: "read_favourites (w_node starred_world) = Inr r" "r_value r = ?old"
    by (rule starred_world_reads)
  have "case ?run of (x, st1, w1) \<Rightarrow> x = Inr False \<and> st_value st1 = [lit ''/w/b.mp4''] \<and>
      fst (toggle calm (lit ''/w/a.jpg'') starred_store w1) = Inr True"
    by code_simp
  then obtain st1 w1 where run: "?run = (Inr False, st1, w1)" and v1: "st_value st1 = [lit ''/w/b.mp4'']"
    and "fst (toggle calm (lit ''/w/a.jpg'') starred_store w1) = Inr True"
    by (auto split: prod.splits)
  then obtain st2 w2 where again: "toggle calm (lit ''/w/a.jpg'') starred_store w1 = (Inr True, st2, w2)"
    by (metis prod.collapse)
  have p: "wallpaper_path (lit ''/w/a.jpg'')" by code_simp
  have "length (r_value r) < MAX_FAVOURITES" by (simp add: r(2) MAX_FAVOURITES_def)
  then have "st_value st2 = filter (\<lambda>q. q \<noteq> lit ''/w/a.jpg'') ?old @ [lit ''/w/a.jpg'']"
    using toggle_flips [OF p starred_sample(1,2) r(1) run, where other = starred_store and ?env2.0 = calm
        and ?b2.0 = True and ?st2.0 = st2 and ?w2.0 = w2] starred_sample(1) again unfolding r(2) if_False
    by metis
  with run v1 again show ?thesis by simp
qed

end
