(* ===== verification/Media.thy ===== *)
theory Media
  imports Paths Json Playlist_Cursor
begin

text \<open>
  \<open>library/model.py\<close>: a wallpaper as the scan found it and the library of them, with what
  \<open>library/workshop.py\<close> says of a Wallpaper Engine item, and \<open>dials.py\<close>: the renderer settings a
  wallpaper may have of its own. A path is its text (theory \<open>Paths\<close>).
\<close>

section \<open>Wallpapers\<close>

datatype kind = Still | Video | Scene

definition moves :: "kind \<Rightarrow> bool" where
  "moves k \<longleftrightarrow> k \<noteq> Still"

definition kind_value :: "kind \<Rightarrow> pystr" where
  "kind_value k = (case k of Still \<Rightarrow> lit ''still'' | Video \<Rightarrow> lit ''video'' | Scene \<Rightarrow> lit ''scene'')"

record library_item = media_item +
  item_kind :: kind
  item_scene :: pystr
  item_title :: pystr
  item_paired_still :: "pystr option"
  item_scene_base :: pystr
  item_scene_properties :: "(pystr \<times> pystr) list"
  item_web_page :: bool
  item_unplayable :: bool
  item_unplayable_reason :: pystr

text \<open>\<open>PurePosixPath.name\<close> and \<open>stem\<close> (Python 3.14: the part before the last dot, unless that is all
  dots).\<close>

definition path_name :: "pystr \<Rightarrow> pystr" where
  "path_name p = (if path_parts p = [] then [] else last (path_parts p))"

definition path_stem :: "pystr \<Rightarrow> pystr" where
  "path_stem p =
     (let name = path_name p; stem = rev (tl (dropWhile (\<lambda>c. c \<noteq> 46) (rev name)))
      in if 46 \<notin> set name then name else if list_all (\<lambda>c. c = 46) stem then name else stem)"

definition item_name :: "library_item \<Rightarrow> pystr" where
  "item_name item = (if item_title item \<noteq> [] then item_title item else path_stem (item_path item))"

definition web_off :: "library_item \<Rightarrow> bool \<Rightarrow> bool" where
  "web_off item allowed \<longleftrightarrow> item_web_page item \<and> \<not> item_unplayable item \<and> \<not> allowed"

text \<open>Whether \<open>why_not_played\<close> says why; its words are left out.\<close>

definition never_played :: "library_item \<Rightarrow> bool \<Rightarrow> bool" where
  "never_played item allow_web \<longleftrightarrow> item_unplayable item \<or> web_off item allow_web"

definition is_workshop_id :: "pystr \<Rightarrow> bool" where
  "is_workshop_id s \<longleftrightarrow> 1 \<le> length s \<and> length s \<le> 20 \<and> list_all (\<lambda>c. 48 \<le> c \<and> c \<le> 57) s"

definition MAX_PROPERTIES :: nat where "MAX_PROPERTIES = 512"
definition MAX_TEXT_BYTES :: nat where "MAX_TEXT_BYTES = 256"

text \<open>\<open>PROPERTY_NAME\<close>.\<close>

definition property_name :: "pystr \<Rightarrow> bool" where
  "property_name s \<longleftrightarrow>
     (case s of
        [] \<Rightarrow> False
      | c # cs \<Rightarrow>
          (let word = (\<lambda>c. (65 \<le> c \<and> c \<le> 90) \<or> (97 \<le> c \<and> c \<le> 122) \<or> (48 \<le> c \<and> c \<le> 57) \<or> c = 95)
           in word c \<and> length cs \<le> 63 \<and> list_all (\<lambda>c. word c \<or> c = 45) cs))"

text \<open>Unicode's category \<open>Cc\<close> is exactly the two control ranges.\<close>

definition valid_text :: "pystr \<Rightarrow> bool" where
  "valid_text value \<longleftrightarrow>
     encodable value \<and> utf8_len value \<le> MAX_TEXT_BYTES \<and> \<not> list_ex cp_control value"

definition valid_property_value :: "pystr \<Rightarrow> bool" where
  "valid_property_value value \<longleftrightarrow> valid_text value"

section \<open>The library\<close>

datatype unseen_kind = Unreadable_Place | Scan_Limit | Root_Not_Usable | Not_A_Wallpaper

definition could_not_look :: "unseen_kind \<Rightarrow> bool" where
  "could_not_look k \<longleftrightarrow> k = Unreadable_Place \<or> k = Scan_Limit"

record unseen =
  unseen_path :: pystr
  unseen_kind :: unseen_kind

record media_library =
  library_items :: "library_item list"
  library_unseen :: "unseen list"
  library_inventory :: "library_item list"

section \<open>Dials\<close>

text \<open>
  A value is a JSON scalar. A float is known by its \<open>repr\<close>, read here as a decimal: mantissa and
  exponent. The bounds are kept in hundredths; all of them are floats exactly, so comparing the
  shortest decimal that rounds to a float with a bound compares the float.
\<close>

datatype dial_kind = Choice_Dial | Int_Dial | Float_Dial | Bool_Dial

record dial =
  dial_renderer :: pystr
  dial_key :: pystr
  dial_kind :: dial_kind
  dial_choices :: "json list"
  dial_minimum :: int
  dial_maximum :: int
  dial_per_wallpaper :: bool
  dial_default :: json
  dial_setting :: pystr
  dial_released :: bool

definition is_digit :: "nat \<Rightarrow> bool" where
  "is_digit c \<longleftrightarrow> 48 \<le> c \<and> c \<le> 57"

definition digits_value :: "pystr \<Rightarrow> int" where
  "digits_value ds = foldl (\<lambda>n c. 10 * n + int (c - 48)) 0 ds"

definition decimal_repr :: "pystr \<Rightarrow> int \<times> int" where
  "decimal_repr r =
     (let negative = (take 1 r = [45]); s = (if negative then tl r else r);
          whole = takeWhile is_digit s; rest = dropWhile is_digit s;
          fraction = (if take 1 rest = [46] then takeWhile is_digit (tl rest) else []);
          tail = (if take 1 rest = [46] then dropWhile is_digit (tl rest) else rest);
          power = (if take 2 tail = [101, 45] then - digits_value (drop 2 tail)
                   else if take 2 tail = [101, 43] then digits_value (drop 2 tail) else 0);
          m = digits_value (whole @ fraction)
      in (if negative then - m else m, power - int (length fraction)))"

definition float_between :: "int \<Rightarrow> int \<Rightarrow> pystr \<Rightarrow> bool" where
  "float_between low high r =
     (let (m, e) = decimal_repr r
      in if 0 \<le> e then low \<le> 100 * m * 10 ^ nat e \<and> 100 * m * 10 ^ nat e \<le> high
         else low * 10 ^ nat (- e) \<le> 100 * m \<and> 100 * m \<le> high * 10 ^ nat (- e))"

definition dial_valid :: "dial \<Rightarrow> json \<Rightarrow> bool" where
  "dial_valid d value =
     (case dial_kind d of
        Bool_Dial \<Rightarrow> is_bool value
      | Choice_Dial \<Rightarrow> value \<in> set (dial_choices d)
      | Int_Dial \<Rightarrow>
          (case value of JInt i \<Rightarrow> dial_minimum d \<le> 100 * i \<and> 100 * i \<le> dial_maximum d | _ \<Rightarrow> False)
      | Float_Dial \<Rightarrow>
          (case value of JFloat r t \<Rightarrow> float_between (dial_minimum d) (dial_maximum d) r | _ \<Rightarrow> False))"

text \<open>\<open>float(value)\<close> of an integer in bounds.\<close>

definition dial_coerce :: "dial \<Rightarrow> json \<Rightarrow> json option" where
  "dial_coerce d value =
     (let value = (case (dial_kind d, value) of
                     (Float_Dial, JInt i) \<Rightarrow>
                       (if dial_minimum d \<le> 100 * i \<and> 100 * i \<le> dial_maximum d
                        then JFloat (show_int i @ [46, 48]) i else value)
                   | _ \<Rightarrow> value)
      in if dial_valid d value then Some value else None)"

definition choice_dial :: "string \<Rightarrow> string \<Rightarrow> json \<Rightarrow> json list \<Rightarrow> bool \<Rightarrow> bool \<Rightarrow> dial" where
  "choice_dial renderer key usual choices own released =
     \<lparr>dial_renderer = lit renderer, dial_key = lit key, dial_kind = Choice_Dial, dial_choices = choices,
      dial_minimum = 0, dial_maximum = 0, dial_per_wallpaper = own, dial_default = usual,
      dial_setting = lit (renderer @ ''_'' @ key), dial_released = released\<rparr>"

definition number_dial ::
  "string \<Rightarrow> string \<Rightarrow> dial_kind \<Rightarrow> json \<Rightarrow> int \<Rightarrow> int \<Rightarrow> bool \<Rightarrow> dial"
where
  "number_dial renderer key k usual low high released =
     \<lparr>dial_renderer = lit renderer, dial_key = lit key, dial_kind = k, dial_choices = [],
      dial_minimum = low, dial_maximum = high, dial_per_wallpaper = True, dial_default = usual,
      dial_setting = lit (renderer @ ''_'' @ key), dial_released = released\<rparr>"

definition bool_dial :: "string \<Rightarrow> string \<Rightarrow> bool \<Rightarrow> bool \<Rightarrow> bool \<Rightarrow> dial" where
  "bool_dial renderer key usual own released =
     \<lparr>dial_renderer = lit renderer, dial_key = lit key, dial_kind = Bool_Dial, dial_choices = [],
      dial_minimum = 0, dial_maximum = 0, dial_per_wallpaper = own, dial_default = JBool usual,
      dial_setting = lit (renderer @ ''_'' @ key), dial_released = released\<rparr>"

definition equalizer :: "string \<Rightarrow> dial" where
  "equalizer key = number_dial ''video'' key Int_Dial (JInt 0) (- 10000) 10000 False"

definition texts :: "string list \<Rightarrow> json list" where
  "texts ss = map (\<lambda>s. JStr (lit s)) ss"

text \<open>Every dial's setting is its renderer and key, joined by \<open>_\<close>.\<close>

definition DIALS :: "dial list" where
  "DIALS =
     [choice_dial ''video'' ''fit'' (JStr (lit ''fill'')) (texts [''fill'', ''fit'', ''stretch'']) True False,
      number_dial ''video'' ''speed'' Float_Dial (JFloat (lit ''1.0'') 1) 25 400 False,
      equalizer ''brightness'', equalizer ''contrast'', equalizer ''saturation'', equalizer ''gamma'',
      choice_dial ''video'' ''rotate'' (JInt 0) [JInt 0, JInt 90, JInt 180, JInt 270] True False,
      bool_dial ''video'' ''deband'' False True False,
      choice_dial ''video'' ''scale'' (JStr [])
        (texts [[], ''bilinear'', ''spline36'', ''lanczos'', ''ewa_lanczos'', ''mitchell'']) False False,
      choice_dial ''video'' ''hidden_trigger'' (JStr []) (texts [[], ''full'', ''max'']) False False,
      number_dial ''scene'' ''fps'' Int_Dial (JInt 30) 100 24000 True,
      choice_dial ''scene'' ''scaling'' (JStr []) (texts [[], ''stretch'', ''fit'', ''fill'']) True True,
      choice_dial ''scene'' ''clamp'' (JStr []) (texts [[], ''clamp'', ''border'', ''repeat'']) True True,
      bool_dial ''scene'' ''muted'' True True True,
      number_dial ''scene'' ''volume'' Int_Dial (JInt 50) 0 10000 True,
      bool_dial ''scene'' ''audio_processing'' True True False,
      bool_dial ''scene'' ''particles'' True True False,
      bool_dial ''scene'' ''mouse'' True True False,
      bool_dial ''scene'' ''parallax'' True True False,
      bool_dial ''scene'' ''pause_when_covered'' True False True,
      bool_dial ''scene'' ''pause_only_active'' False False False,
      bool_dial ''scene'' ''automute'' True False False]"

text \<open>\<open>NEWER_GLOBAL\<close>: the dials with a global default beyond the three older scene settings.\<close>

definition DIAL_SETTINGS :: "dial list" where
  "DIAL_SETTINGS =
     filter (\<lambda>d. dial_setting d \<noteq> [] \<and>
       dial_setting d \<notin> {lit ''scene_fps'', lit ''scene_scaling'', lit ''scene_clamp''}) DIALS"

text \<open>
  \<open>f"{value:.2f}"\<close> of a positive float: its \<open>repr\<close> names the double nearest to it (the nearest
  one with an even mantissa on a tie), which rounds, half to even, to hundredths.
\<close>

definition round_half_even :: "nat \<Rightarrow> nat \<Rightarrow> nat" where
  "round_half_even p q =
     (let d = p div q; r = p mod q
      in if q < 2 * r \<or> (q = 2 * r \<and> odd d) then Suc d else d)"

definition two_places :: "pystr \<Rightarrow> pystr" where
  "two_places r =
     (let (m, e) = decimal_repr r;
          p = (if 0 \<le> e then nat m * 10 ^ nat e else nat m);
          q = (if 0 \<le> e then 1 else 10 ^ nat (- e));
          k = (case find (\<lambda>k. 2 ^ 52 * q \<le> p * 2 ^ k) [0..<1075] of Some k \<Rightarrow> k | None \<Rightarrow> 1074);
          h = round_half_even (100 * round_half_even (p * 2 ^ k) q) (2 ^ k)
      in show_nat (h div 100) @ 46 # pad2 (int (h mod 100)))"

text \<open>\<open>toml_value\<close>.\<close>

definition toml_value :: "json \<Rightarrow> pystr" where
  "toml_value v =
     (case v of
        JBool b \<Rightarrow> if b then lit ''true'' else lit ''false''
      | JInt i \<Rightarrow> show_int i
      | JFloat r t \<Rightarrow> two_places r
      | JStr s \<Rightarrow> 34 # s @ [34]
      | _ \<Rightarrow> [])"

text \<open>
  Python's \<open>==\<close> on the scalars of a document: \<open>True\<close> is 1, \<open>-0.0\<close> is 0, and an integer is the float
  of exactly its value. From 1e16 on a \<open>repr\<close> names the double nearest to it (\<open>1e+23\<close> is not 10 ^ 23);
  below, the \<open>repr\<close> of an integral float is exact.
\<close>

fun bit_length :: "nat \<Rightarrow> nat" where
  "bit_length n = (if n = 0 then 0 else Suc (bit_length (n div 2)))"

declare bit_length.simps [simp del]

definition nearest_double :: "nat \<Rightarrow> nat" where
  "nearest_double n = (let k = bit_length n - 53 in round_half_even n (2 ^ k) * 2 ^ k)"

definition float_is :: "pystr \<Rightarrow> int \<Rightarrow> bool" where
  "float_is r i =
     (let (m, e) = decimal_repr r
      in if 0 \<le> e then sgn m * int (nearest_double (nat \<bar>m\<bar> * 10 ^ nat e)) = i else m = i * 10 ^ nat (- e))"

definition int_like :: "json \<Rightarrow> int option" where
  "int_like v = (case v of JBool b \<Rightarrow> Some (if b then 1 else 0) | JInt i \<Rightarrow> Some i | _ \<Rightarrow> None)"

definition same_value :: "json \<Rightarrow> json \<Rightarrow> bool" where
  "same_value a b =
     (case (int_like a, int_like b) of
        (Some i, Some j) \<Rightarrow> i = j
      | (Some i, None) \<Rightarrow> (case b of JFloat r t \<Rightarrow> float_is r i | _ \<Rightarrow> False)
      | (None, Some j) \<Rightarrow> (case a of JFloat r t \<Rightarrow> float_is r j | _ \<Rightarrow> False)
      | (None, None) \<Rightarrow>
          (case (a, b) of
             (JFloat r t, JFloat r' t') \<Rightarrow> r = r' \<or> (fst (decimal_repr r) = 0 \<and> fst (decimal_repr r') = 0)
           | _ \<Rightarrow> a = b))"

lemma same_value_samples:
  "same_value (JInt 50) (JFloat (lit ''50.0'') 50)" "same_value (JBool True) (JInt 1)"
  "same_value (JFloat (lit ''-0.0'') 0) (JFloat (lit ''0.0'') 0)" "\<not> same_value (JStr (lit ''1'')) (JInt 1)"
  by code_simp+

lemma same_value_refl [simp]: "same_value v v"
  by (cases v) (simp_all add: same_value_def int_like_def)

definition find_dial :: "pystr \<Rightarrow> pystr \<Rightarrow> dial option" where
  "find_dial renderer key = find (\<lambda>d. dial_renderer d = renderer \<and> dial_key d = key) DIALS"

definition per_wallpaper :: "pystr \<Rightarrow> dial list" where
  "per_wallpaper renderer = filter (\<lambda>d. dial_renderer d = renderer \<and> dial_per_wallpaper d) DIALS"

definition dial_keys :: "pystr \<Rightarrow> pystr list" where
  "dial_keys renderer = map dial_key (per_wallpaper renderer)"

definition overrides :: "pystr \<Rightarrow> (pystr \<times> json) list \<Rightarrow> (pystr \<times> json) list" where
  "overrides renderer raw =
     List.map_filter (\<lambda>d.
       case map_of raw (dial_key d) of
         None \<Rightarrow> None
       | Some v \<Rightarrow> map_option (\<lambda>v. (dial_key d, v)) (dial_coerce d v)) (per_wallpaper renderer)"

section \<open>What the compiler may rely on\<close>

lemma dial_keys_distinct: "distinct (dial_keys (lit ''video''))" "distinct (dial_keys (lit ''scene''))"
  by code_simp+

lemma coerce_valid: "dial_coerce d v = Some w \<Longrightarrow> dial_valid d w"
  by (auto simp: dial_coerce_def Let_def split: if_splits)

lemma overrides_sound:
  "(k, v) \<in> set (overrides renderer raw) \<Longrightarrow>
     \<exists>d\<in>set (per_wallpaper renderer). dial_key d = k \<and> dial_valid d v"
  by (force simp: overrides_def List.map_filter_def coerce_valid split: option.splits)

end
