(* ===== verification/Pairings.thy ===== *)
theory Pairings
  imports Media Store_Transaction "HOL-Library.List_Lexorder"
begin

text \<open>
  \<open>library/pairings.py\<close>: what a person chose for a wallpaper (its still, colours, mode and renderer
  settings) and what the runtime found about it, keyed by medium and source; the \<open>pairings.json\<close>
  document; and the bundle an item resolves to from the accepted scan. \<open>Medium\<close> has the values of
  \<open>Kind\<close> and is one here. The operations are in \<open>Pairing_Store\<close>.
\<close>

definition MAX_PAIRINGS :: nat where "MAX_PAIRINGS = 20000"
definition MAX_PAIRINGS_BYTES :: nat where "MAX_PAIRINGS_BYTES = 8 * 1024 * 1024"
definition MAX_HEALTH_REASON :: nat where "MAX_HEALTH_REASON = 512"
definition MAX_HEALTH_SOURCE :: nat where "MAX_HEALTH_SOURCE = 64"

section \<open>Identities\<close>

record media_id =
  id_medium :: kind
  id_source :: pystr

definition media_id_of :: "library_item \<Rightarrow> media_id" where
  "media_id_of item =
     \<lparr>id_medium = item_kind item,
      id_source = (if item_kind item = Scene \<and> item_scene item \<noteq> [] then item_scene item
                   else item_path item)\<rparr>"

definition identity_key :: "media_id \<Rightarrow> pystr" where
  "identity_key i = kind_value (id_medium i) @ 58 # id_source i"

definition medium_of_value :: "pystr \<Rightarrow> kind option" where
  "medium_of_value v = find (\<lambda>k. kind_value k = v) [Still, Video, Scene]"

definition parse_identity :: "pystr \<Rightarrow> media_id option" where
  "parse_identity key =
     (let medium = takeWhile (\<lambda>c. c \<noteq> 58) key; source = tl (dropWhile (\<lambda>c. c \<noteq> 58) key)
      in if 58 \<notin> set key \<or> source = [] then None
         else map_option (\<lambda>m. \<lparr>id_medium = m, id_source = source\<rparr>) (medium_of_value medium))"

section \<open>Health\<close>

datatype health = Healthy | Borked pystr pystr

definition is_borked :: "health \<Rightarrow> bool" where
  "is_borked h \<longleftrightarrow> h \<noteq> Healthy"

text \<open>Cut at \<open>maximum\<close> bytes of UTF-8, never inside a character.\<close>

fun cut_utf8 :: "nat \<Rightarrow> pystr \<Rightarrow> pystr" where
  "cut_utf8 maximum [] = []"
| "cut_utf8 maximum (c # cs) =
     (if cp_utf8_len c \<le> maximum then c # cut_utf8 (maximum - cp_utf8_len c) cs else [])"

definition health_text :: "pystr \<Rightarrow> nat \<Rightarrow> pystr" where
  "health_text value maximum = cut_utf8 maximum (collapse value)"

definition borked :: "pystr \<Rightarrow> pystr \<Rightarrow> health" where
  "borked reason source =
     (let clean = health_text reason MAX_HEALTH_REASON; origin = health_text source MAX_HEALTH_SOURCE
      in Borked (if clean = [] then lit ''Runtime could not apply this wallpaper'' else clean)
           (if origin = [] then lit ''runtime'' else origin))"

section \<open>Colours\<close>

datatype palette_mode = Keep_Mode | Dark | Light | Auto

definition mode_value :: "palette_mode \<Rightarrow> pystr" where
  "mode_value m = (case m of Keep_Mode \<Rightarrow> lit ''keep'' | Dark \<Rightarrow> lit ''dark''
     | Light \<Rightarrow> lit ''light'' | Auto \<Rightarrow> lit ''auto'')"

definition mode_of_value :: "pystr \<Rightarrow> palette_mode option" where
  "mode_of_value v = find (\<lambda>m. mode_value m = v) [Keep_Mode, Dark, Light, Auto]"

definition ADAPTIVE :: pystr where "ADAPTIVE = lit ''adaptive''"
definition KEEP_PALETTE :: pystr where "KEEP_PALETTE = lit ''keep''"

record palette_policy =
  pol_kind :: pystr
  pol_name :: pystr
  pol_mode :: palette_mode

definition default_palette :: palette_policy where
  "default_palette = \<lparr>pol_kind = ADAPTIVE, pol_name = [], pol_mode = Keep_Mode\<rparr>"

definition encode_palette :: "palette_policy \<Rightarrow> pystr" where
  "encode_palette p = (if pol_name p \<noteq> [] then pol_kind p @ 58 # pol_name p else pol_kind p)"

definition decode_palette :: "json option \<Rightarrow> json option \<Rightarrow> palette_policy" where
  "decode_palette raw mode =
     (let (k, n) =
            (case raw of
               Some (JStr s) \<Rightarrow>
                 (let head = strip (takeWhile (\<lambda>c. c \<noteq> 58) s);
                      tail = strip (tl (dropWhile (\<lambda>c. c \<noteq> 58) s))
                  in if strip s \<noteq> [] \<and> head \<noteq> [] then (head, tail) else (ADAPTIVE, []))
             | _ \<Rightarrow> (ADAPTIVE, []));
          m = (case mode of
                 Some (JStr v) \<Rightarrow> (case mode_of_value v of Some m \<Rightarrow> m | None \<Rightarrow> Keep_Mode)
               | _ \<Rightarrow> Keep_Mode)
      in \<lparr>pol_kind = k, pol_name = n, pol_mode = m\<rparr>)"

section \<open>A wallpaper's own renderer settings\<close>

record renderer_overrides =
  own_video :: "(pystr \<times> json) list"
  own_scene :: "(pystr \<times> json) list"
  own_properties :: "(pystr \<times> pystr) list"

definition no_overrides :: renderer_overrides where
  "no_overrides = \<lparr>own_video = [], own_scene = [], own_properties = []\<rparr>"

definition any_overrides :: "renderer_overrides \<Rightarrow> bool" where
  "any_overrides o' \<longleftrightarrow> own_video o' \<noteq> [] \<or> own_scene o' \<noteq> [] \<or> own_properties o' \<noteq> []"

definition scalar :: "json \<Rightarrow> bool" where
  "scalar v = (case v of JBool b \<Rightarrow> True | JInt i \<Rightarrow> True | JStr s \<Rightarrow> True | JFloat r t \<Rightarrow> True | _ \<Rightarrow> False)"

definition stored_dials :: "renderer_overrides \<Rightarrow> pystr \<Rightarrow> (pystr \<times> json) list" where
  "stored_dials o' renderer =
     (if renderer = lit ''video'' then own_video o'
      else if renderer = lit ''scene'' then own_scene o' else [])"

definition applied_dials :: "renderer_overrides \<Rightarrow> pystr \<Rightarrow> (pystr \<times> json) list" where
  "applied_dials o' renderer = overrides renderer (stored_dials o' renderer)"

definition own_dial :: "renderer_overrides \<Rightarrow> pystr \<Rightarrow> pystr \<Rightarrow> json option" where
  "own_dial o' renderer key = map_of (applied_dials o' renderer) key"

text \<open>\<open>sorted(kept, key=lambda pair: order.index(pair[0]))\<close>.\<close>

definition in_dial_order :: "pystr \<Rightarrow> (pystr \<times> json) list \<Rightarrow> (pystr \<times> json) list" where
  "in_dial_order renderer table =
     sort_key (\<lambda>p. the (find_index (\<lambda>k. k = fst p) (dial_keys renderer))) table"

definition with_dial :: "pystr \<Rightarrow> pystr \<Rightarrow> json option \<Rightarrow> renderer_overrides \<Rightarrow> renderer_overrides result" where
  "with_dial renderer key value o' =
     (case find_dial renderer key of
        None \<Rightarrow> Inl ValueErr
      | Some d \<Rightarrow>
          (if \<not> dial_per_wallpaper d then Inl ValueErr
           else
             let kept = filter (\<lambda>(name, stored). name \<noteq> key) (stored_dials o' renderer);
                 put = (\<lambda>pairs. let table = in_dial_order renderer pairs
                        in if renderer = lit ''video'' then o'\<lparr>own_video := table\<rparr>
                           else o'\<lparr>own_scene := table\<rparr>)
             in case value of
                  None \<Rightarrow> Inr (put kept)
                | Some v \<Rightarrow>
                    (case dial_coerce d v of
                       None \<Rightarrow> Inl ValueErr
                     | Some checked \<Rightarrow> Inr (put (kept @ [(key, checked)])))))"

definition own_property :: "renderer_overrides \<Rightarrow> pystr \<Rightarrow> pystr option" where
  "own_property o' name = map_of (own_properties o') name"

definition with_property :: "pystr \<Rightarrow> pystr option \<Rightarrow> renderer_overrides \<Rightarrow> renderer_overrides result" where
  "with_property name value o' =
     (if \<not> property_name name then Inl ValueErr
      else
        let kept = filter (\<lambda>(key, stored). key \<noteq> name) (own_properties o');
            put = (\<lambda>pairs. if MAX_PROPERTIES < length pairs then Inl ValueErr
                           else Inr (o'\<lparr>own_properties := sort_key fst pairs\<rparr>))
        in case value of
             None \<Rightarrow> put kept
           | Some v \<Rightarrow>
               (if \<not> valid_property_value v \<or> 10 \<in> set v then Inl ValueErr
                else put (kept @ [(name, v)])))"

definition encode_renderer :: "renderer_overrides \<Rightarrow> dict" where
  "encode_renderer o' =
     (if own_video o' = [] then [] else [(lit ''video'', JObj (own_video o'))]) @
     (if own_scene o' = [] then [] else [(lit ''scene'', JObj (own_scene o'))]) @
     (if own_properties o' = [] then []
      else [(lit ''properties'', JObj (map (\<lambda>(k, v). (k, JStr v)) (own_properties o')))])"

definition decode_table :: "pystr \<Rightarrow> json option \<Rightarrow> (pystr \<times> json) list" where
  "decode_table renderer raw =
     (case raw of
        Some (JObj table) \<Rightarrow>
          List.map_filter (\<lambda>key.
            case map_of table key of
              Some v \<Rightarrow> (if scalar v then Some (key, v) else None)
            | None \<Rightarrow> None) (dial_keys renderer)
      | _ \<Rightarrow> [])"

text \<open>The loop over the listed properties; a document repeats no key.\<close>

fun decode_properties :: "(pystr \<times> pystr) list \<Rightarrow> dict \<Rightarrow> (pystr \<times> pystr) list" where
  "decode_properties found [] = found"
| "decode_properties found ((name, value) # rest) =
     (if MAX_PROPERTIES \<le> length found then found
      else case value of
        JStr v \<Rightarrow>
          (if property_name name \<and> valid_property_value v
           then decode_properties (AList.update name v found) rest
           else decode_properties found rest)
      | _ \<Rightarrow> decode_properties found rest)"

definition decode_renderer :: "json option \<Rightarrow> renderer_overrides" where
  "decode_renderer raw =
     (case raw of
        Some (JObj d) \<Rightarrow>
          \<lparr>own_video = decode_table (lit ''video'') (map_of d (lit ''video'')),
           own_scene = decode_table (lit ''scene'') (map_of d (lit ''scene'')),
           own_properties = sort_key fst
             (case map_of d (lit ''properties'') of
                Some (JObj listed) \<Rightarrow> decode_properties [] listed | _ \<Rightarrow> [])\<rparr>
      | _ \<Rightarrow> no_overrides)"

section \<open>A pairing and its record\<close>

record pairing =
  pr_identity :: media_id
  pr_still :: "pystr option"
  pr_motion :: "pystr option"
  pr_palette :: palette_policy
  pr_customized :: bool
  pr_override_missing :: bool
  pr_health :: health
  pr_renderer :: renderer_overrides

text \<open>\<open>Pairing(identity=...)\<close>: every other field at its default.\<close>

definition blank_pairing :: "media_id \<Rightarrow> pairing" where
  "blank_pairing i =
     \<lparr>pr_identity = i, pr_still = None, pr_motion = None, pr_palette = default_palette,
      pr_customized = False, pr_override_missing = False, pr_health = Healthy,
      pr_renderer = no_overrides\<rparr>"

type_synonym pairing_records = "(pystr \<times> pairing) list"

definition pairing_to_json :: "pairing \<Rightarrow> dict" where
  "pairing_to_json p =
     [(lit ''identity'', JStr (identity_key (pr_identity p)))] @
     (if pr_customized p
      then [(lit ''palette'', JStr (encode_palette (pr_palette p)))] @
           (if pol_mode (pr_palette p) \<noteq> Keep_Mode
            then [(lit ''mode'', JStr (mode_value (pol_mode (pr_palette p))))] else []) @
           (case pr_still p of None \<Rightarrow> [] | Some s \<Rightarrow> [(lit ''still'', JStr s)])
      else []) @
     (case pr_health p of
        Healthy \<Rightarrow> []
      | Borked reason source \<Rightarrow>
          [(lit ''health'', JObj [(lit ''state'', JStr (lit ''borked'')), (lit ''reason'', JStr reason),
                                  (lit ''source'', JStr source)])]) @
     (if any_overrides (pr_renderer p)
      then [(lit ''renderer'', JObj (encode_renderer (pr_renderer p)))] else [])"

definition pairing_kept :: "pairing \<Rightarrow> bool" where
  "pairing_kept p \<longleftrightarrow> pr_customized p \<or> is_borked (pr_health p) \<or> any_overrides (pr_renderer p)"

definition stored_still :: "json option \<Rightarrow> pystr option" where
  "stored_still v =
     (case v of
        Some (JStr s) \<Rightarrow> (if strip s \<noteq> [] \<and> is_absolute (path_text s) then Some (path_text s) else None)
      | _ \<Rightarrow> None)"

definition stored_health :: "json option \<Rightarrow> health" where
  "stored_health v =
     (case v of
        Some (JObj h) \<Rightarrow>
          (if map_of h (lit ''state'') = Some (JStr (lit ''borked''))
           then (case (map_of h (lit ''reason''), map_of h (lit ''source'')) of
                   (Some (JStr reason), Some (JStr source)) \<Rightarrow> borked reason source
                 | _ \<Rightarrow> Healthy)
           else Healthy)
      | _ \<Rightarrow> Healthy)"

definition pairing_of_dict :: "dict \<Rightarrow> pairing option" where
  "pairing_of_dict raw =
     (case map_of raw (lit ''identity'') of
        Some (JStr key) \<Rightarrow>
          map_option (\<lambda>i.
            \<lparr>pr_identity = i, pr_still = stored_still (map_of raw (lit ''still'')), pr_motion = None,
             pr_palette = decode_palette (map_of raw (lit ''palette'')) (map_of raw (lit ''mode'')),
             pr_customized = (\<exists>k\<in>{lit ''still'', lit ''palette'', lit ''mode''}. map_of raw k \<noteq> None),
             pr_override_missing = False,
             pr_health = stored_health (map_of raw (lit ''health'')),
             pr_renderer = decode_renderer (map_of raw (lit ''renderer''))\<rparr>) (parse_identity key)
      | _ \<Rightarrow> None)"

definition pairing_of_json :: "json \<Rightarrow> pairing option" where
  "pairing_of_json raw = (case raw of JObj d \<Rightarrow> pairing_of_dict d | _ \<Rightarrow> None)"

section \<open>The document\<close>

definition pairings_shape :: shape where
  "pairings_shape =
     Shape [lit ''version''] None False
       [(lit ''pairings'',
         Shape [lit ''identity'', lit ''still'', lit ''palette'', lit ''mode''] (Some (lit ''identity'')) False []
           [(lit ''health'', Shape [lit ''state'', lit ''reason'', lit ''source''] None False [] [] []),
            (lit ''renderer'',
             Shape [lit ''properties''] None False []
               [(lit ''video'', Shape (dial_keys (lit ''video'')) None False [] [] []),
                (lit ''scene'', Shape (dial_keys (lit ''scene'')) None False [] [] [])]
               [lit ''video'', lit ''scene''])]
           [lit ''renderer''])]
       [] []"

text \<open>How many fields of a usable record are malformed.\<close>

definition malformed_fields :: "dict \<Rightarrow> nat" where
  "malformed_fields raw =
     length (filter (\<lambda>bad. bad)
       [(case map_of raw (lit ''still'') of None \<Rightarrow> False
         | Some (JStr s) \<Rightarrow> strip s = [] \<or> \<not> is_absolute (path_text s) | Some _ \<Rightarrow> True),
        (case map_of raw (lit ''mode'') of None \<Rightarrow> False
         | Some (JStr m) \<Rightarrow> mode_of_value m = None | Some _ \<Rightarrow> True),
        (case map_of raw (lit ''palette'') of None \<Rightarrow> False
         | Some (JStr p) \<Rightarrow> strip p = [] | Some _ \<Rightarrow> True),
        (case map_of raw (lit ''health'') of None \<Rightarrow> False
         | Some (JObj h) \<Rightarrow>
             map_of h (lit ''state'') \<noteq> Some (JStr (lit ''borked'')) \<or>
             (case map_of h (lit ''reason'') of Some (JStr _) \<Rightarrow> False | _ \<Rightarrow> True) \<or>
             (case map_of h (lit ''source'') of Some (JStr _) \<Rightarrow> False | _ \<Rightarrow> True)
         | Some _ \<Rightarrow> True),
        (case map_of raw (lit ''renderer'') of None \<Rightarrow> False | Some v \<Rightarrow> \<not> is_dict v)])"

text \<open>The loop: what is found so far, and the malformed and duplicate counts.\<close>

fun parse_pairing_list ::
  "pairing_records \<Rightarrow> nat \<Rightarrow> nat \<Rightarrow> json list \<Rightarrow> pairing_records \<times> nat \<times> nat"
where
  "parse_pairing_list found malformed duplicate [] = (found, malformed, duplicate)"
| "parse_pairing_list found malformed duplicate (raw # rest) =
     (case (raw, pairing_of_json raw) of
        (JObj d, Some p) \<Rightarrow>
          (let key = identity_key (pr_identity p)
           in parse_pairing_list (AList.update key p found) (malformed + malformed_fields d)
                (if map_of found key = None then duplicate else Suc duplicate) rest)
      | _ \<Rightarrow> parse_pairing_list found (Suc malformed) duplicate rest)"

definition parse_pairings :: "dict \<Rightarrow> pairing_records \<times> fault option" where
  "parse_pairings payload =
     (let versions = (case map_of payload (lit ''version'') of
                        Some (JInt v) \<Rightarrow> (if v = 2 \<or> v = 1 then [] else version_fault 2 payload)
                      | _ \<Rightarrow> version_fault 2 payload)
      in case map_of payload (lit ''pairings'') of
           Some (JArr stored) \<Rightarrow>
             (let (found, malformed, duplicate) = parse_pairing_list [] 0 0 (take MAX_PAIRINGS stored)
              in (found, joined_faults (versions @
                   (if MAX_PAIRINGS < length stored then [TooMany] else []) @
                   (if malformed = 0 then [] else [MalformedRecords malformed]) @
                   (if duplicate = 0 then [] else [DuplicateRecords duplicate]))))
         | _ \<Rightarrow> ([], Some (ContentFault [NoRecords])))"

definition read_pairings :: "node \<Rightarrow> pairing_records reading result" where
  "read_pairings n =
     (case read_object MAX_PAIRINGS_BYTES n of
        (None, fault) \<Rightarrow>
          Inr \<lparr>r_value = [], r_fault = fault, r_newer = False, r_unknown = nothing_unknown,
               r_version = None\<rparr>
      | (Some payload, _) \<Rightarrow>
          (let (found, fault) = parse_pairings payload;
               unknown = capture_unknown pairings_shape payload
           in case newer_version_fault 2 payload of
                Some newer \<Rightarrow>
                  Inr \<lparr>r_value = found, r_fault = Some newer, r_newer = True, r_unknown = unknown,
                       r_version = None\<rparr>
              | None \<Rightarrow>
                  Inr \<lparr>r_value = found, r_fault = fault, r_newer = False, r_unknown = unknown,
                       r_version = None\<rparr>))"

definition plain_pairings :: "pairing_records \<Rightarrow> dict" where
  "plain_pairings d =
     [(lit ''version'', JInt 2),
      (lit ''pairings'', JArr (map (\<lambda>(k, p). JObj (pairing_to_json p)) (sort_key fst d)))]"

definition pairings_document :: "pairing_records \<Rightarrow> unknown \<Rightarrow> dict" where
  "pairings_document d u = merge_unknown u pairings_shape (plain_pairings d)"

definition pairings_ops :: "pairing_records store_ops" where
  "pairings_ops = \<lparr>op_read = read_pairings, op_document = (\<lambda>v u. Inr (pairings_document v u)),
     op_max = MAX_PAIRINGS_BYTES, op_early = False, op_missing = [], op_catches_unicode = False\<rparr>"

section \<open>The bundle an item resolves to\<close>

text \<open>\<open>synthesize\<close> and \<open>resolve\<close>: \<open>found\<close> is the still the conventions of \<open>library/pairing.py\<close> find on
  disk for a moving item, \<open>present\<close> whether a file is there.\<close>

definition synthesize :: "pystr option \<Rightarrow> library_item \<Rightarrow> pairing" where
  "synthesize found item =
     (let bundle = blank_pairing (media_id_of item)
      in if \<not> moves (item_kind item) then bundle\<lparr>pr_still := Some (item_path item)\<rparr>
         else bundle\<lparr>pr_still := found, pr_motion := Some (item_path item)\<rparr>)"

definition saved_over :: "pairing \<Rightarrow> bool \<Rightarrow> pairing \<Rightarrow> pairing" where
  "saved_over base missing saved =
     base\<lparr>pr_still := (case pr_still saved of
                           None \<Rightarrow> pr_still base
                         | Some chosen \<Rightarrow> if missing then pr_still base else Some chosen),
             pr_palette := pr_palette saved, pr_customized := pr_customized saved,
             pr_override_missing := missing, pr_health := pr_health saved,
             pr_renderer := pr_renderer saved\<rparr>"

definition resolve_pairing ::
  "(pystr \<Rightarrow> bool) \<Rightarrow> pystr option \<Rightarrow> pairing_records \<Rightarrow> library_item \<Rightarrow> pairing"
where
  "resolve_pairing present found saves item =
     (let base = synthesize found item
      in case map_of saves (identity_key (pr_identity base)) of
           None \<Rightarrow> base
         | Some saved \<Rightarrow>
             saved_over base
               (case pr_still saved of None \<Rightarrow> False | Some chosen \<Rightarrow> \<not> present chosen) saved)"

definition indexed_stills :: "media_library \<Rightarrow> pystr set" where
  "indexed_stills lib =
     item_path ` set (filter (\<lambda>i. item_kind i = Still) (library_items lib @ library_inventory lib))"

definition resolve_accepted :: "pairing_records \<Rightarrow> media_library \<Rightarrow> library_item \<Rightarrow> pairing" where
  "resolve_accepted saves lib item =
     (let base = (blank_pairing (media_id_of item))
            \<lparr>pr_still := (if moves (item_kind item) then item_paired_still item else Some (item_path item)),
             pr_motion := (if moves (item_kind item) then Some (item_path item) else None)\<rparr>
      in case map_of saves (identity_key (media_id_of item)) of
           None \<Rightarrow> base
         | Some saved \<Rightarrow>
             saved_over base
               (case pr_still saved of
                  None \<Rightarrow> False
                | Some chosen \<Rightarrow> Some chosen \<noteq> item_paired_still item \<and> chosen \<notin> indexed_stills lib)
               saved)"

definition chosen_stills :: "pairing_records \<Rightarrow> (pystr \<times> pystr) list" where
  "chosen_stills saves =
     sort_key fst (List.map_filter (\<lambda>(k, p). map_option (Pair k) (pr_still p)) saves)"

end
