(* ===== verification/Pairing_Store.thy ===== *)
theory Pairing_Store
  imports Pairings
begin

text \<open>
  The operations of \<open>pairings.Store\<close>. Its transaction is its own: it always works on what the file
  holds, the health sync refuses any fault, and an operation sees which records carry fields this
  build does not model.
\<close>

section \<open>The transaction\<close>

type_synonym carried = "(pystr \<times> unknown) list"

type_synonym 'r pairing_change = "carried \<Rightarrow> (pairing_records, 'r) change"

type_synonym 'r pairing_op =
  "pairing_records store \<Rightarrow> world \<Rightarrow> 'r result \<times> pairing_records store \<times> world"

definition carried_of :: "unknown \<Rightarrow> carried" where
  "carried_of u = (case map_of (u_records u) (lit ''pairings'') of None \<Rightarrow> [] | Some c \<Rightarrow> c)"

text \<open>A \<open>PairingError\<close> of the write puts the fault back; any other exception leaves it cleared.\<close>

definition mutate_pairings :: "env \<Rightarrow> bool \<Rightarrow> bool \<Rightarrow> 'r pairing_change \<Rightarrow> 'r pairing_op" where
  "mutate_pairings env refuse_fault refuse_unreadable operation st w =
     (if \<not> e_lock env \<or> \<not> e_observe env then (Inl (Err LocalIO), st, w)
      else case read_pairings (w_node w) of
        Inl e \<Rightarrow> (Inl e, st, w)
      | Inr r \<Rightarrow>
          (let fault = r_fault r
           in if r_newer r
              then (Inl (Err NewerVersion), st\<lparr>st_fault := fault, st_kind := reading_fault_kind r\<rparr>, w)
              else if fault \<noteq> None \<and> refuse_fault then (Inl (Err InvalidState), st, w)
              else if fault \<noteq> None \<and> (refuse_unreadable \<or> read_failed fault)
                then (Inl (Err Unreadable), st, w)
              else case operation (carried_of (r_unknown r)) (r_value r) of
                Inl e \<Rightarrow> (Inl e, st, w)
              | Inr (res, changed, v) \<Rightarrow>
                  (if \<not> changed
                   then (Inr res, \<lparr>st_value = v, st_fault = fault, st_kind = fault_kind_of fault False,
                                   st_loaded = True\<rparr>, w)
                   else case persist pairings_ops env fault v (r_unknown r) w of
                     (Inl (Err e), w1) \<Rightarrow>
                       (Inl (Err e),
                        if fault = None then st
                        else st\<lparr>st_fault := fault, st_kind := reading_fault_kind r\<rparr>, w1)
                   | (Inl e, w1) \<Rightarrow>
                       (Inl e, st\<lparr>st_fault := None,
                                  st_kind := if fault = None then st_kind st else None\<rparr>, w1)
                   | (Inr _, w1) \<Rightarrow>
                       (Inr res, \<lparr>st_value = v, st_fault = None, st_kind = None, st_loaded = True\<rparr>, w1))))"

text \<open>\<open>_worth_keeping\<close>: it holds a choice, or fields this build does not model that the write puts back.\<close>

definition worth_keeping :: "carried \<Rightarrow> pairing \<Rightarrow> bool" where
  "worth_keeping carried p \<longleftrightarrow>
     pairing_kept p \<or>
     (case map_of carried (identity_key (pr_identity p)) of
        None \<Rightarrow> False
      | Some u \<Rightarrow> u_fields u \<noteq> [] \<or> lit ''renderer'' \<in> fst ` set (u_objects u) \<or>
          (lit ''health'' \<in> fst ` set (u_objects u) \<and> is_borked (pr_health p)))"

section \<open>Choices\<close>

definition recorded :: "media_id \<Rightarrow> pairing_records \<Rightarrow> pairing" where
  "recorded i d = (case map_of d (identity_key i) of Some p \<Rightarrow> p | None \<Rightarrow> blank_pairing i)"

text \<open>What \<open>choose_still\<close>, \<open>choose_palette\<close> and \<open>choose_mode\<close> record: a customized record with the
  still and palette given, and the health and renderer settings it had.\<close>

definition choose_record ::
  "media_id \<Rightarrow> (pairing \<Rightarrow> pystr option) \<Rightarrow> (pairing \<Rightarrow> palette_policy) \<Rightarrow> pairing pairing_change"
where
  "choose_record i still palette carried d =
     (let existing = recorded i d;
          p = (blank_pairing i)\<lparr>pr_still := still existing, pr_palette := palette existing,
                pr_customized := True, pr_health := pr_health existing,
                pr_renderer := pr_renderer existing\<rparr>
      in Inr (p, map_of d (identity_key i) \<noteq> Some p, AList.update (identity_key i) p d))"

definition choose_still :: "env \<Rightarrow> library_item \<Rightarrow> pystr option \<Rightarrow> pairing pairing_op" where
  "choose_still env item still =
     mutate_pairings env False False (choose_record (media_id_of item) (\<lambda>_. still) pr_palette)"

text \<open>The mode already recorded stays with \<open>keep_mode\<close>, where there is a record.\<close>

definition choose_palette :: "env \<Rightarrow> library_item \<Rightarrow> palette_policy \<Rightarrow> bool \<Rightarrow> pairing pairing_op" where
  "choose_palette env item palette keep_mode =
     mutate_pairings env False False (\<lambda>carried d.
       choose_record (media_id_of item) pr_still
         (\<lambda>existing. if keep_mode \<and> map_of d (identity_key (media_id_of item)) \<noteq> None
                     then palette\<lparr>pol_mode := pol_mode (pr_palette existing)\<rparr> else palette) carried d)"

definition choose_mode :: "env \<Rightarrow> library_item \<Rightarrow> palette_mode \<Rightarrow> pairing pairing_op" where
  "choose_mode env item mode =
     mutate_pairings env False False
       (choose_record (media_id_of item) pr_still (\<lambda>existing. (pr_palette existing)\<lparr>pol_mode := mode\<rparr>))"

section \<open>Health\<close>

type_synonym finding = "library_item \<times> pystr \<times> pystr"

text \<open>\<open>_borked_requests\<close>: of two findings of one identity the last wins, in the place of the first.
  Text with a lone surrogate cannot be encoded.\<close>

definition borked_requests :: "finding list \<Rightarrow> (pystr \<times> media_id \<times> health) list result" where
  "borked_requests findings =
     (if list_ex (\<lambda>(item, reason, source). \<not> encodable (collapse reason) \<or> \<not> encodable (collapse source)) findings
      then Inl ValueErr
      else Inr (foldl (\<lambda>d (item, reason, source).
             AList.update (identity_key (media_id_of item)) (media_id_of item, borked reason source) d)
           [] findings))"

fun apply_borked :: "(pystr \<times> media_id \<times> health) list \<Rightarrow> pairing_records \<Rightarrow> nat \<times> pairing_records" where
  "apply_borked [] d = (0, d)"
| "apply_borked ((key, i, h) # rest) d =
     (case map_of d key of
        Some p \<Rightarrow>
          (if pr_health p = h then apply_borked rest d
           else map_prod Suc id (apply_borked rest (AList.update key (p\<lparr>pr_health := h\<rparr>) d)))
      | None \<Rightarrow>
          map_prod Suc id
            (apply_borked rest (AList.update key ((blank_pairing i)\<lparr>pr_health := h\<rparr>) d)))"

definition mark_borked_many :: "env \<Rightarrow> finding list \<Rightarrow> nat pairing_op" where
  "mark_borked_many env findings st w =
     (case borked_requests findings of
        Inl e \<Rightarrow> (Inl e, st, w)
      | Inr requested \<Rightarrow>
          (if requested = [] then (Inr 0, st, w)
           else mutate_pairings env True False (\<lambda>carried d.
             let (changed, v) = apply_borked requested d in Inr (changed, 0 < changed, v)) st w))"

definition mark_borked :: "env \<Rightarrow> library_item \<Rightarrow> pystr \<Rightarrow> pystr \<Rightarrow> bool pairing_op" where
  "mark_borked env item reason source st w =
     (let (x, st1, w1) = mark_borked_many env [(item, reason, source)] st w
      in (map_sum id (\<lambda>n. n \<noteq> 0) x, st1, w1))"

text \<open>\<open>==\<close> of two records compares the dials' values as Python compares scalars: a volume of \<open>50.0\<close> is 50.
  Two dicts are equal whatever their order.\<close>

definition same_table :: "(pystr \<times> json) list \<Rightarrow> (pystr \<times> json) list \<Rightarrow> bool" where
  "same_table a b = list_all2 (\<lambda>(k, v) (l, w). k = l \<and> same_value v w) a b"

definition same_renderer :: "renderer_overrides \<Rightarrow> renderer_overrides \<Rightarrow> bool" where
  "same_renderer a b \<longleftrightarrow>
     same_table (own_video a) (own_video b) \<and> same_table (own_scene a) (own_scene b) \<and>
     own_properties a = own_properties b"

definition same_pairing :: "pairing \<Rightarrow> pairing \<Rightarrow> bool" where
  "same_pairing p q \<longleftrightarrow>
     same_renderer (pr_renderer p) (pr_renderer q) \<and> p\<lparr>pr_renderer := pr_renderer q\<rparr> = q"

definition same_records :: "pairing_records \<Rightarrow> pairing_records \<Rightarrow> bool" where
  "same_records a b \<longleftrightarrow>
     (\<forall>k\<in>set (map fst a @ map fst b). rel_option same_pairing (map_of a k) (map_of b k))"

lemma same_table_refl [simp]: "same_table t t"
  unfolding same_table_def by (rule list_all2_refl) auto

lemma same_pairing_refl [simp]: "same_pairing p p"
  by (simp add: same_pairing_def same_renderer_def)

definition mark_borked_many_if_unchanged ::
  "env \<Rightarrow> finding list \<Rightarrow> pairing_records \<Rightarrow> (nat \<times> bool) pairing_op"
where
  "mark_borked_many_if_unchanged env findings expected st w =
     (case borked_requests findings of
        Inl e \<Rightarrow> (Inl e, st, w)
      | Inr requested \<Rightarrow>
          (if requested = [] then (Inr (0, True), st, w)
           else mutate_pairings env True False (\<lambda>carried d.
             if \<not> same_records d expected then Inr ((0, False), False, d)
             else let (changed, v) = apply_borked requested d
                  in Inr ((changed, True), 0 < changed, v)) st w))"

text \<open>\<open>records[key] = record\<close> where it is worth keeping, \<open>del records[key]\<close> otherwise.\<close>

definition keep_or_drop :: "carried \<Rightarrow> media_id \<Rightarrow> pairing \<Rightarrow> pairing_records \<Rightarrow> pairing_records" where
  "keep_or_drop carried i p d =
     (if worth_keeping carried p then AList.update (identity_key i) p d
      else AList.delete (identity_key i) d)"

definition clear_borked :: "env \<Rightarrow> library_item \<Rightarrow> bool pairing_op" where
  "clear_borked env item =
     mutate_pairings env False True (\<lambda>carried d.
       case map_of d (identity_key (media_id_of item)) of
         None \<Rightarrow> Inr (False, False, d)
       | Some p \<Rightarrow>
           (if \<not> is_borked (pr_health p) then Inr (False, False, d)
            else Inr (True, True, keep_or_drop carried (media_id_of item) (p\<lparr>pr_health := Healthy\<rparr>) d)))"

section \<open>Resetting and renderer settings\<close>

definition reset_pairing :: "env \<Rightarrow> library_item \<Rightarrow> bool pairing_op" where
  "reset_pairing env item =
     mutate_pairings env False True (\<lambda>carried d.
       case map_of d (identity_key (media_id_of item)) of
         None \<Rightarrow> Inr (False, False, d)
       | Some p \<Rightarrow>
           Inr (True, True, keep_or_drop carried (media_id_of item)
             ((blank_pairing (media_id_of item))
                \<lparr>pr_health := pr_health p, pr_renderer := pr_renderer p\<rparr>) d))"

definition edit_renderer ::
  "env \<Rightarrow> library_item \<Rightarrow> (renderer_overrides \<Rightarrow> renderer_overrides result) \<Rightarrow> (pairing \<times> bool) pairing_op"
where
  "edit_renderer env item edit =
     mutate_pairings env False False (\<lambda>carried d.
       let existing = recorded (media_id_of item) d
       in case edit (pr_renderer existing) of
            Inl e \<Rightarrow> Inl e
          | Inr own \<Rightarrow>
              (let p = existing\<lparr>pr_renderer := own\<rparr>
               in if same_pairing p existing then Inr ((p, False), False, d)
                  else Inr ((p, True), True, keep_or_drop carried (media_id_of item) p d)))"

definition first_of :: "('a \<times> 'b) pairing_op \<Rightarrow> 'a pairing_op" where
  "first_of f st w = (let (x, st1, w1) = f st w in (map_sum id fst x, st1, w1))"

definition second_of :: "('a \<times> 'b) pairing_op \<Rightarrow> 'b pairing_op" where
  "second_of f st w = (let (x, st1, w1) = f st w in (map_sum id snd x, st1, w1))"

definition set_dial :: "env \<Rightarrow> library_item \<Rightarrow> pystr \<Rightarrow> pystr \<Rightarrow> json option \<Rightarrow> pairing pairing_op" where
  "set_dial env item renderer key value st w =
     (let wanted = (if item_kind item = Video then lit ''video''
                    else if item_kind item = Scene then lit ''scene'' else [])
      in if renderer \<noteq> wanted then (Inl ValueErr, st, w)
         else case with_dial renderer key value no_overrides of
           Inl e \<Rightarrow> (Inl e, st, w)
         | Inr _ \<Rightarrow> first_of (edit_renderer env item (with_dial renderer key value)) st w)"

definition set_property :: "env \<Rightarrow> library_item \<Rightarrow> pystr \<Rightarrow> pystr option \<Rightarrow> pairing pairing_op" where
  "set_property env item name value st w =
     (if item_kind item \<noteq> Scene \<or> item_web_page item then (Inl ValueErr, st, w)
      else case with_property name value no_overrides of
        Inl e \<Rightarrow> (Inl e, st, w)
      | Inr _ \<Rightarrow> first_of (edit_renderer env item (with_property name value)) st w)"

definition reset_renderer :: "env \<Rightarrow> library_item \<Rightarrow> bool pairing_op" where
  "reset_renderer env item = second_of (edit_renderer env item (\<lambda>_. Inr no_overrides))"

section \<open>Forgetting\<close>

definition forget_identity :: "env \<Rightarrow> media_id \<Rightarrow> bool pairing_op" where
  "forget_identity env i =
     mutate_pairings env False True (\<lambda>carried d.
       if map_of d (identity_key i) = None then Inr (False, False, d)
       else Inr (True, True, AList.delete (identity_key i) d))"

definition still_key :: "pystr \<Rightarrow> pystr" where
  "still_key path = identity_key \<lparr>id_medium = Still, id_source = path\<rparr>"

text \<open>\<open>replace(existing, still=None)\<close> for every record whose still is among \<open>gone\<close>.\<close>

definition scrub_stills :: "pystr set \<Rightarrow> pairing_records \<Rightarrow> pairing_records" where
  "scrub_stills gone d =
     map (\<lambda>(k, p). (k, if (case pr_still p of None \<Rightarrow> False | Some s \<Rightarrow> s \<in> gone)
                       then p\<lparr>pr_still := None\<rparr> else p)) d"

definition chose_one_of :: "pystr set \<Rightarrow> pairing_records \<Rightarrow> bool" where
  "chose_one_of gone d = list_ex (\<lambda>(k, p). case pr_still p of None \<Rightarrow> False | Some s \<Rightarrow> s \<in> gone) d"

text \<open>The records under \<open>keys\<close> go, and the stills among \<open>gone\<close> with them; whether anything changed.\<close>

definition forget_records :: "pystr list \<Rightarrow> pystr set \<Rightarrow> (pairing_records, bool) change" where
  "forget_records keys gone d =
     (let left = filter (\<lambda>(k, p). k \<notin> set keys) d;
          changed = (left \<noteq> d \<or> chose_one_of gone left)
      in Inr (changed, changed, scrub_stills gone left))"

definition forget_item_keys :: "library_item \<Rightarrow> pystr list \<Rightarrow> pystr list" where
  "forget_item_keys item removed =
     identity_key (media_id_of item) # map still_key (item_path item # removed)"

definition forget_item :: "env \<Rightarrow> library_item \<Rightarrow> pystr list \<Rightarrow> bool pairing_op" where
  "forget_item env item removed =
     mutate_pairings env False True (\<lambda>carried.
       forget_records (forget_item_keys item removed) (insert (item_path item) (set removed)))"

definition adopt_worker_forget_item ::
  "library_item \<Rightarrow> pystr list \<Rightarrow> pairing_records store \<Rightarrow> bool \<times> pairing_records store"
where
  "adopt_worker_forget_item item removed st =
     (case forget_records (forget_item_keys item removed) (insert (item_path item) (set removed))
             (st_value st) of
        Inr (changed, _, v) \<Rightarrow>
          (changed, \<lparr>st_value = v, st_fault = None, st_kind = None, st_loaded = True\<rparr>)
      | Inl _ \<Rightarrow> (False, st))"

definition forget_pairing_path :: "env \<Rightarrow> pystr \<Rightarrow> bool pairing_op" where
  "forget_pairing_path env path =
     mutate_pairings env False True (\<lambda>carried.
       forget_records (map (\<lambda>m. identity_key \<lparr>id_medium = m, id_source = path\<rparr>) [Still, Video, Scene])
         {path})"

section \<open>Opening and asking\<close>

definition open_pairings :: "world \<Rightarrow> pairing_records store result" where
  "open_pairings w = open_store pairings_ops w"

definition worker_copy_pairings ::
  "bool \<Rightarrow> pairing_records store \<Rightarrow> world \<Rightarrow> pairing_records store result"
where
  "worker_copy_pairings rebase st w = worker_copy pairings_ops rebase st w"

definition save_pairings :: "env \<Rightarrow> pairing_records \<Rightarrow> unknown \<Rightarrow> world \<Rightarrow> unit result \<times> world" where
  "save_pairings env v u w = save_document pairings_ops env v u w"

definition pairing_health :: "pairing_records \<Rightarrow> media_id \<Rightarrow> health" where
  "pairing_health d i = (case map_of d (identity_key i) of Some p \<Rightarrow> pr_health p | None \<Rightarrow> Healthy)"

definition is_customized :: "pairing_records \<Rightarrow> media_id \<Rightarrow> bool" where
  "is_customized d i = (case map_of d (identity_key i) of Some p \<Rightarrow> pr_customized p | None \<Rightarrow> False)"

end
