(* ===== verification/Pairing_Codec.thy ===== *)
theory Pairing_Codec
  imports Pairing_Store
begin

text \<open>
  A pairing record reads back: the invariant of a record and of the map, the round trips of
  identities, palettes, health and renderer settings, and that the reader returns well-formed
  records. A health text cut in the middle may end in a space, which the reader drops: what reads
  back is the record with its health texts tidied (\<open>retidy\<close>).
\<close>

section \<open>Identities and palettes\<close>

lemma kind_value_no_colon: "58 \<notin> set (kind_value k)"
  by (cases k) (auto simp: kind_value_def lit_def)

lemma medium_of_kind_value [simp]: "medium_of_value (kind_value k) = Some k"
  by (cases k) (simp_all add: medium_of_value_def kind_value_def)

lemma medium_of_value_Some: "medium_of_value v = Some k \<Longrightarrow> kind_value k = v"
  unfolding medium_of_value_def find_Some_iff by auto

lemma takeWhile_colon: "c \<notin> set a \<Longrightarrow> takeWhile (\<lambda>x. x \<noteq> c) (a @ c # b) = a"
  by (induction a) auto

lemma dropWhile_colon: "c \<notin> set a \<Longrightarrow> dropWhile (\<lambda>x. x \<noteq> c) (a @ c # b) = c # b"
  by (induction a) auto

lemma parse_identity_key [simp]:
  "id_source i \<noteq> [] \<Longrightarrow> parse_identity (identity_key i) = Some i"
  by (cases i) (simp add: parse_identity_def identity_key_def takeWhile_colon dropWhile_colon
      kind_value_no_colon Let_def)

lemma parse_identity_Some:
  assumes "parse_identity key = Some i"
  shows "identity_key i = key \<and> id_source i \<noteq> []"
proof -
  have "58 \<in> set key" using assms by (auto simp: parse_identity_def Let_def split: if_splits)
  then obtain a b where key: "key = a @ 58 # b" "58 \<notin> set a" by (meson split_list_first)
  with assms have "b \<noteq> [] \<and> medium_of_value a = Some (id_medium i) \<and> id_source i = b"
    by (auto simp: parse_identity_def Let_def takeWhile_colon dropWhile_colon split: if_splits)
  with key medium_of_value_Some show ?thesis by (auto simp: identity_key_def)
qed

lemma identity_key_inj:
  "id_source i \<noteq> [] \<Longrightarrow> id_source j \<noteq> [] \<Longrightarrow> identity_key i = identity_key j \<Longrightarrow> i = j"
  by (metis option.inject parse_identity_key)

lemma mode_of_mode_value [simp]: "mode_of_value (mode_value m) = Some m"
  by (cases m) (simp_all add: mode_of_value_def mode_value_def)

definition wf_palette :: "palette_policy \<Rightarrow> bool" where
  "wf_palette p \<longleftrightarrow> pol_kind p \<noteq> [] \<and> strip (pol_kind p) = pol_kind p \<and> 58 \<notin> set (pol_kind p) \<and>
     strip (pol_name p) = pol_name p"

lemma default_palette_wf [simp]: "wf_palette default_palette"
  by code_simp

lemma set_strip_takeWhile: "58 \<notin> set (strip (takeWhile (\<lambda>c. c \<noteq> 58) s))"
  using set_strip set_takeWhileD by fastforce

lemma decode_palette_wf: "wf_palette (decode_palette raw mode)"
proof -
  have "wf_palette \<lparr>pol_kind = ADAPTIVE, pol_name = [], pol_mode = m\<rparr>" for m
    using default_palette_wf by (simp add: wf_palette_def default_palette_def)
  then show ?thesis
    by (auto simp: decode_palette_def Let_def wf_palette_def set_strip_takeWhile
        split: option.splits json.splits)
qed

lemma strip_append_nonspace:
  assumes "strip a = a" "a \<noteq> []"
  shows "strip (a @ b) \<noteq> []"
proof -
  obtain x xs where a: "a = x # xs" using assms(2) by (cases a) auto
  with assms(1) have "\<not> cp_isspace x" by (simp add: strip_id_iff)
  then have "x \<in> set (dropWhile cp_isspace (rev (x # xs @ b)))"
    by (simp add: dropWhile_append)
  with a \<open>\<not> cp_isspace x\<close> show ?thesis by (auto simp: strip_def dropWhile_eq_Nil_conv)
qed

lemma encode_palette_cases:
  assumes "wf_palette p"
  shows "strip (encode_palette p) \<noteq> []"
    and "takeWhile (\<lambda>c. c \<noteq> 58) (encode_palette p) = pol_kind p"
    and "tl (dropWhile (\<lambda>c. c \<noteq> 58) (encode_palette p)) = pol_name p"
proof -
  have k: "58 \<notin> set (pol_kind p)" "strip (pol_kind p) = pol_kind p" "pol_kind p \<noteq> []"
    using assms by (simp_all add: wf_palette_def)
  then have whole: "takeWhile (\<lambda>c. c \<noteq> 58) (pol_kind p) = pol_kind p" "dropWhile (\<lambda>c. c \<noteq> 58) (pol_kind p) = []"
    by (auto simp: takeWhile_eq_all_conv dropWhile_eq_Nil_conv)
  show "strip (encode_palette p) \<noteq> []"
    using strip_append_nonspace [OF k(2,3)] k(2,3) by (simp add: encode_palette_def)
  show "takeWhile (\<lambda>c. c \<noteq> 58) (encode_palette p) = pol_kind p"
    and "tl (dropWhile (\<lambda>c. c \<noteq> 58) (encode_palette p)) = pol_name p"
    using k(1) by (simp_all add: encode_palette_def takeWhile_colon dropWhile_colon whole)
qed

lemma decode_encode_palette:
  assumes "wf_palette p"
  shows "decode_palette (Some (JStr (encode_palette p)))
      (if pol_mode p \<noteq> Keep_Mode then Some (JStr (mode_value (pol_mode p))) else None) = p"
  using encode_palette_cases [OF assms] assms
  by (cases p) (simp add: decode_palette_def wf_palette_def Let_def)

section \<open>Health texts\<close>

definition retidy_health :: "health \<Rightarrow> health" where
  "retidy_health h = (case h of Healthy \<Rightarrow> Healthy | Borked reason source \<Rightarrow> borked reason source)"

text \<open>A text the reader leaves alone.\<close>

definition tidy_health :: "health \<Rightarrow> bool" where
  "tidy_health h \<longleftrightarrow> retidy_health h = h"

lemma cut_utf8_fits: "utf8_len (cut_utf8 n s) \<le> n"
  by (induction n s rule: cut_utf8.induct) (auto simp: utf8_len_def)

lemma cut_utf8_id: "utf8_len s \<le> n \<Longrightarrow> cut_utf8 n s = s"
  by (induction n s rule: cut_utf8.induct) (auto simp: utf8_len_def)

lemma cut_utf8_prefix: "\<exists>t. s = cut_utf8 n s @ t"
  by (induction n s rule: cut_utf8.induct) auto

section \<open>Renderer settings\<close>

definition wf_table :: "pystr \<Rightarrow> (pystr \<times> json) list \<Rightarrow> bool" where
  "wf_table renderer t \<longleftrightarrow> decode_table renderer (Some (JObj t)) = t"

abbreviation good_property :: "pystr \<times> pystr \<Rightarrow> bool" where
  "good_property kv \<equiv> property_name (fst kv) \<and> valid_property_value (snd kv)"

definition good_properties :: "(pystr \<times> pystr) list \<Rightarrow> bool" where
  "good_properties ps \<longleftrightarrow>
     distinct (map fst ps) \<and> length ps \<le> MAX_PROPERTIES \<and> list_all good_property ps"

definition wf_overrides :: "renderer_overrides \<Rightarrow> bool" where
  "wf_overrides o' \<longleftrightarrow> wf_table (lit ''video'') (own_video o') \<and> wf_table (lit ''scene'') (own_scene o') \<and>
     good_properties (own_properties o') \<and> sort_key fst (own_properties o') = own_properties o'"

lemma no_overrides_wf [simp]: "wf_overrides no_overrides"
  by code_simp

lemma update_fresh: "k \<notin> fst ` set ps \<Longrightarrow> AList.update k v ps = ps @ [(k, v)]"
  by (induction ps) auto

lemma length_update: "length (AList.update k v ps) \<le> Suc (length ps)"
  by (induction ps) auto

lemma set_update_subset: "set (AList.update k v ps) \<subseteq> insert (k, v) (set ps)"
  by (induction ps) auto

lemma good_properties_update:
  assumes "good_properties ps" "length ps < MAX_PROPERTIES" "good_property (k, v)"
  shows "good_properties (AList.update k v ps)"
proof -
  have "length (AList.update k v ps) \<le> MAX_PROPERTIES"
    using length_update [of k v ps] assms(2) by linarith
  moreover have "list_all good_property (AList.update k v ps)"
    using set_update_subset [of k v ps] assms unfolding good_properties_def list_all_iff by blast
  ultimately show ?thesis using assms(1) by (simp add: good_properties_def distinct_update)
qed

lemma decode_properties_wf: "good_properties found \<Longrightarrow> good_properties (decode_properties found ps)"
proof (induction found ps rule: decode_properties.induct)
  case (2 found name v rest)
  then show ?case
    using good_properties_update [of found name] by (cases v) (simp_all add: not_le)
qed simp

lemma decode_properties_stored:
  "good_properties (found @ ps) \<Longrightarrow>
     decode_properties found (map (\<lambda>(k, v). (k, JStr v)) ps) = found @ ps"
proof (induction ps arbitrary: found)
  case (Cons kv ps)
  obtain k v where kv: "kv = (k, v)" by (cases kv)
  have fresh: "k \<notin> fst ` set found" and good: "property_name k" "valid_property_value v"
    and room: "\<not> MAX_PROPERTIES \<le> length found"
    using Cons.prems by (auto simp: good_properties_def kv)
  have "AList.update k v found = found @ [kv]"
    using fresh by (simp add: kv update_fresh)
  with Cons.IH [of "found @ [kv]"] Cons.prems good room show ?case by (simp add: kv)
qed simp

text \<open>Picking some keys out of a table, and picking them again.\<close>

definition picked :: "('k \<Rightarrow> 'v option) \<Rightarrow> 'k list \<Rightarrow> ('k \<times> 'v) list" where
  "picked m ks = List.map_filter (\<lambda>k. map_option (Pair k) (m k)) ks"

lemma map_of_picked: "map_of (picked m ks) k = (if k \<in> set ks then m k else None)"
proof (induction ks)
  case (Cons j ks)
  then show ?case by (cases "m j") (auto simp: picked_def List.map_filter_simps)
qed (simp add: picked_def List.map_filter_simps)

lemma picked_cong: "(\<And>k. k \<in> set ks \<Longrightarrow> m k = m' k) \<Longrightarrow> picked m ks = picked m' ks"
proof (induction ks)
  case (Cons k ks)
  then show ?case by (cases "m' k") (simp_all add: picked_def List.map_filter_simps)
qed (simp add: picked_def List.map_filter_simps)

lemma decode_table_picked:
  "decode_table renderer (Some (JObj table)) =
     picked (\<lambda>k. case map_of table k of Some v \<Rightarrow> if scalar v then Some v else None | None \<Rightarrow> None)
       (dial_keys renderer)"
proof -
  have "(\<lambda>key. case map_of table key of Some v \<Rightarrow> if scalar v then Some (key, v) else None | None \<Rightarrow> None)
      = (\<lambda>k. map_option (Pair k)
          (case map_of table k of Some v \<Rightarrow> if scalar v then Some v else None | None \<Rightarrow> None))"
    by (rule ext) (simp split: option.split)
  then show ?thesis by (simp add: decode_table_def picked_def)
qed

lemma decode_table_wf: "wf_table renderer (decode_table renderer raw)"
proof (cases "\<exists>table. raw = Some (JObj table)")
  case True
  then obtain table where raw: "raw = Some (JObj table)" by blast
  show ?thesis
    unfolding wf_table_def raw decode_table_picked
    by (rule picked_cong) (simp add: map_of_picked split: option.split)
next
  case False
  then have "decode_table renderer raw = []" by (auto simp: decode_table_def split: option.splits json.splits)
  moreover have "decode_table renderer (Some (JObj [])) = []"
    by (induction "dial_keys renderer") (simp_all add: decode_table_def List.map_filter_def)
  ultimately show ?thesis by (simp add: wf_table_def)
qed

lemma wf_table_Nil [simp]: "decode_table renderer (Some (JObj [])) = []" "decode_table renderer None = []"
  by (simp_all add: decode_table_def List.map_filter_def)

lemma distinct_keys_sort: "distinct (map fst (sort_key fst d)) = distinct (map fst d)"
  by (metis distinct_map distinct_sort set_sort)

lemma good_properties_sort: "good_properties (sort_key fst ps) = good_properties ps"
  by (simp add: good_properties_def list_all_iff distinct_keys_sort)

lemma decode_renderer_wf: "wf_overrides (decode_renderer raw)"
proof (cases "\<exists>d. raw = Some (JObj d)")
  case True
  then obtain d where raw: "raw = Some (JObj d)" by blast
  have "good_properties
      (case map_of d (lit ''properties'') of Some (JObj listed) \<Rightarrow> decode_properties [] listed | _ \<Rightarrow> [])"
    using decode_properties_wf [of "[]"] by (simp add: good_properties_def split: option.split json.split)
  then show ?thesis
    by (simp add: raw decode_renderer_def wf_overrides_def decode_table_wf good_properties_sort
        sort_key_id_if_sorted)
next
  case False
  then have "decode_renderer raw = no_overrides"
    by (cases raw) (auto simp: decode_renderer_def split: json.split)
  then show ?thesis by simp
qed

lemma encode_renderer_keys:
  "map_of (encode_renderer o') (lit ''video'') =
     (if own_video o' = [] then None else Some (JObj (own_video o')))"
  "map_of (encode_renderer o') (lit ''scene'') =
     (if own_scene o' = [] then None else Some (JObj (own_scene o')))"
  "map_of (encode_renderer o') (lit ''properties'') =
     (if own_properties o' = [] then None
      else Some (JObj (map (\<lambda>(k, v). (k, JStr v)) (own_properties o'))))"
  by (simp_all add: encode_renderer_def)

lemma decode_encode_renderer:
  assumes "wf_overrides o'"
  shows "decode_renderer (Some (JObj (encode_renderer o'))) = o'"
proof -
  have "decode_table (lit ''video'') (map_of (encode_renderer o') (lit ''video'')) = own_video o'"
    "decode_table (lit ''scene'') (map_of (encode_renderer o') (lit ''scene'')) = own_scene o'"
    using assms by (simp_all add: wf_overrides_def wf_table_def encode_renderer_keys)
  moreover have "sort_key fst (case map_of (encode_renderer o') (lit ''properties'') of
      Some (JObj listed) \<Rightarrow> decode_properties [] listed | _ \<Rightarrow> []) = own_properties o'"
    using assms decode_properties_stored [of "[]" "own_properties o'"]
    by (simp add: wf_overrides_def encode_renderer_keys)
  ultimately show ?thesis by (simp add: decode_renderer_def)
qed

section \<open>Records\<close>

definition wf_pairing :: "pairing \<Rightarrow> bool" where
  "wf_pairing p \<longleftrightarrow> id_source (pr_identity p) \<noteq> [] \<and> pr_motion p = None \<and> \<not> pr_override_missing p \<and>
     (case pr_still p of None \<Rightarrow> True | Some s \<Rightarrow> is_absolute s \<and> path_text s = s) \<and>
     wf_palette (pr_palette p) \<and>
     (pr_customized p \<or> pr_still p = None \<and> pr_palette p = default_palette) \<and>
     wf_overrides (pr_renderer p)"

definition retidy :: "pairing \<Rightarrow> pairing" where
  "retidy p = p\<lparr>pr_health := retidy_health (pr_health p)\<rparr>"

lemma stored_still_wf: "case stored_still v of None \<Rightarrow> True | Some s \<Rightarrow> is_absolute s \<and> path_text s = s"
  by (cases "stored_still v") (auto simp: stored_still_def split: option.splits json.splits if_splits)

lemma no_stored_choice: "stored_still None = None" "decode_palette None None = default_palette"
  by (simp_all add: stored_still_def decode_palette_def default_palette_def)

lemma pairing_of_dict_wf:
  assumes "pairing_of_dict d = Some p"
  shows "wf_pairing p"
proof -
  obtain key i where "map_of d (lit ''identity'') = Some (JStr key)" and i: "parse_identity key = Some i"
    and p: "p = \<lparr>pr_identity = i, pr_still = stored_still (map_of d (lit ''still'')), pr_motion = None,
       pr_palette = decode_palette (map_of d (lit ''palette'')) (map_of d (lit ''mode'')),
       pr_customized = (\<exists>k\<in>{lit ''still'', lit ''palette'', lit ''mode''}. map_of d k \<noteq> None),
       pr_override_missing = False, pr_health = stored_health (map_of d (lit ''health'')),
       pr_renderer = decode_renderer (map_of d (lit ''renderer''))\<rparr>"
    using assms unfolding pairing_of_dict_def
    by (cases "map_of d (lit ''identity'')") (auto split: json.splits)
  have "id_source i \<noteq> []" using parse_identity_Some [OF i] by simp
  moreover have "pr_customized p \<or> pr_still p = None \<and> pr_palette p = default_palette"
    by (cases "map_of d (lit ''still'')"; cases "map_of d (lit ''palette'')"; cases "map_of d (lit ''mode'')")
      (simp_all add: p no_stored_choice)
  ultimately show ?thesis
    using stored_still_wf decode_palette_wf decode_renderer_wf by (simp add: wf_pairing_def p)
qed

lemma pairing_json_keys:
  "map_of (pairing_to_json p) (lit ''identity'') = Some (JStr (identity_key (pr_identity p)))"
  "map_of (pairing_to_json p) (lit ''palette'') =
     (if pr_customized p then Some (JStr (encode_palette (pr_palette p))) else None)"
  "map_of (pairing_to_json p) (lit ''mode'') =
     (if pr_customized p \<and> pol_mode (pr_palette p) \<noteq> Keep_Mode
      then Some (JStr (mode_value (pol_mode (pr_palette p)))) else None)"
  "map_of (pairing_to_json p) (lit ''still'') =
     (if pr_customized p then map_option JStr (pr_still p) else None)"
  "map_of (pairing_to_json p) (lit ''health'') =
     (case pr_health p of Healthy \<Rightarrow> None
      | Borked reason source \<Rightarrow>
          Some (JObj [(lit ''state'', JStr (lit ''borked'')), (lit ''reason'', JStr reason),
                      (lit ''source'', JStr source)]))"
  "map_of (pairing_to_json p) (lit ''renderer'') =
     (if any_overrides (pr_renderer p) then Some (JObj (encode_renderer (pr_renderer p))) else None)"
  by (simp_all add: pairing_to_json_def split: option.split health.split)

lemma no_overrides_iff: "\<not> any_overrides o' \<longleftrightarrow> o' = no_overrides"
  by (cases o') (auto simp: any_overrides_def no_overrides_def)

lemma pairing_reads_back:
  assumes "wf_pairing p"
  shows "pairing_of_dict (pairing_to_json p) = Some (retidy p)" and "malformed_fields (pairing_to_json p) = 0"
proof -
  have still: "stored_still (map_of (pairing_to_json p) (lit ''still'')) = pr_still p"
    using assms unfolding pairing_json_keys
    by (auto simp: wf_pairing_def stored_still_def absolute_strip split: option.splits)
  have palette: "decode_palette (map_of (pairing_to_json p) (lit ''palette''))
      (map_of (pairing_to_json p) (lit ''mode'')) = pr_palette p"
  proof (cases "pr_customized p")
    case True
    then show ?thesis
      using decode_encode_palette [of "pr_palette p"] assms unfolding pairing_json_keys
      by (simp add: wf_pairing_def)
  next
    case False
    then show ?thesis using assms unfolding pairing_json_keys
      by (simp add: wf_pairing_def decode_palette_def default_palette_def)
  qed
  have health: "stored_health (map_of (pairing_to_json p) (lit ''health'')) = retidy_health (pr_health p)"
    unfolding pairing_json_keys
    by (simp add: stored_health_def retidy_health_def split: health.split)
  have renderer: "decode_renderer (map_of (pairing_to_json p) (lit ''renderer'')) = pr_renderer p"
    using assms decode_encode_renderer [of "pr_renderer p"] no_overrides_iff [of "pr_renderer p"]
    unfolding pairing_json_keys by (auto simp: wf_pairing_def decode_renderer_def)
  have custom: "(\<exists>k\<in>{lit ''still'', lit ''palette'', lit ''mode''}. map_of (pairing_to_json p) k \<noteq> None) \<longleftrightarrow>
      pr_customized p"
    unfolding bex_simps(5) pairing_json_keys by auto
  show "pairing_of_dict (pairing_to_json p) = Some (retidy p)"
    unfolding pairing_of_dict_def still palette health renderer custom pairing_json_keys(1)
    using assms by (cases p) (simp add: wf_pairing_def retidy_def)
  show "malformed_fields (pairing_to_json p) = 0"
    using encode_palette_cases(1) [of "pr_palette p"] assms
    unfolding malformed_fields_def pairing_json_keys
    by (auto simp: wf_pairing_def absolute_strip split: option.split health.split)
qed

section \<open>The map of records\<close>

definition wf_records :: "pairing_records \<Rightarrow> bool" where
  "wf_records d \<longleftrightarrow> distinct (map fst d) \<and>
     (\<forall>(k, p)\<in>set d. k = identity_key (pr_identity p) \<and> wf_pairing p)"

lemma wf_records_lookup:
  "wf_records d \<Longrightarrow> map_of d k = Some p \<Longrightarrow> k = identity_key (pr_identity p) \<and> wf_pairing p"
  by (auto simp: wf_records_def dest: map_of_SomeD)

lemma wf_records_update:
  "wf_records d \<Longrightarrow> wf_pairing p \<Longrightarrow> k = identity_key (pr_identity p) \<Longrightarrow> wf_records (AList.update k p d)"
proof -
  assume a: "wf_records d" "wf_pairing p" "k = identity_key (pr_identity p)"
  have "set (AList.update k p d) \<subseteq> insert (k, p) (set d)" by (induction d) auto
  with a show ?thesis by (auto simp: wf_records_def distinct_update)
qed

lemma wf_records_filter: "wf_records d \<Longrightarrow> wf_records (filter P d)"
  by (auto simp: wf_records_def distinct_map_filter)

lemma wf_records_delete: "wf_records d \<Longrightarrow> wf_records (AList.delete k d)"
  by (simp add: AList.delete_eq wf_records_filter)

lemma parse_pairing_list_wf:
  "parse_pairing_list found m n xs = (d, m', n') \<Longrightarrow> wf_records found \<Longrightarrow> wf_records d"
proof (induction found m n xs rule: parse_pairing_list.induct)
  case (2 found m n raw rest)
  show ?case
  proof (cases "\<exists>x p. raw = JObj x \<and> pairing_of_json raw = Some p")
    case True
    then obtain x p where x: "raw = JObj x" "pairing_of_json raw = Some p" by blast
    then have "wf_pairing p" using pairing_of_dict_wf by (simp add: pairing_of_json_def)
    with 2 x show ?thesis by (simp add: Let_def wf_records_update)
  next
    case False
    with 2 show ?thesis by (auto simp: pairing_of_json_def split: json.splits option.splits)
  qed
qed simp

lemma parse_pairings_wf: "parse_pairings d = (v, f) \<Longrightarrow> wf_records v"
  using parse_pairing_list_wf [of "[]"]
  by (auto simp: parse_pairings_def Let_def wf_records_def [of "[]"]
      split: option.splits json.splits prod.splits)

lemma read_pairings_wf: "read_pairings n = Inr r \<Longrightarrow> wf_records (r_value r)"
  by (auto simp: read_pairings_def Let_def wf_records_def [of "[]"]
      dest: parse_pairings_wf split: prod.splits option.splits)

lemma read_pairings_Inr: "\<exists>r. read_pairings n = Inr r"
  by (auto simp: read_pairings_def Let_def split: prod.split option.split)

lemma parse_pairing_list_stored:
  "wf_records (found @ d) \<Longrightarrow>
     parse_pairing_list (map (map_prod id retidy) found) m n (map (\<lambda>(k, p). JObj (pairing_to_json p)) d) =
       (map (map_prod id retidy) (found @ d), m, n)"
proof (induction d arbitrary: found)
  case (Cons kp d)
  obtain k p where kp: "kp = (k, p)" by (cases kp)
  have k: "k = identity_key (pr_identity p)" "wf_pairing p" "k \<notin> fst ` set found"
    using Cons.prems kp by (auto simp: wf_records_def)
  have new: "AList.update k (retidy p) (map (map_prod id retidy) found) =
      map (map_prod id retidy) (found @ [kp])"
    using k(3) kp by (induction found) auto
  have absent: "map_of (map (map_prod id retidy) found) k = None"
    using k(3) by (simp add: map_of_eq_None_iff image_comp)
  have "identity_key (pr_identity (retidy p)) = k" using k(1) by (simp add: retidy_def)
  then have "parse_pairing_list (map (map_prod id retidy) found) m n
        (map (\<lambda>(k, p). JObj (pairing_to_json p)) (kp # d)) =
      parse_pairing_list (map (map_prod id retidy) (found @ [kp])) m n
        (map (\<lambda>(k, p). JObj (pairing_to_json p)) d)"
    using pairing_reads_back [OF k(2)] absent by (simp add: kp pairing_of_json_def new [unfolded kp])
  then show ?case using Cons.IH [of "found @ [kp]"] Cons.prems by (simp only: append_assoc append.simps)
qed simp

lemma wf_records_sort: "wf_records d \<Longrightarrow> wf_records (sort_key fst d)"
  by (simp add: wf_records_def distinct_keys_sort)

lemma parse_plain_pairings:
  assumes "wf_records d" "length d \<le> MAX_PAIRINGS"
  shows "parse_pairings (plain_pairings d) = (map (map_prod id retidy) (sort_key fst d), None)"
proof -
  have "parse_pairing_list [] 0 0 (map (\<lambda>(k, p). JObj (pairing_to_json p)) (sort_key fst d)) =
      (map (map_prod id retidy) (sort_key fst d), 0, 0)"
    using parse_pairing_list_stored [of "[]" "sort_key fst d" 0 0] wf_records_sort [OF assms(1)] by simp
  then show ?thesis using assms(2)
    by (simp add: parse_pairings_def plain_pairings_def version_fault_def joined_faults_def)
qed

end
