(* ===== verification/Pairing_Changes.thy ===== *)
theory Pairing_Changes
  imports Pairing_Codec
begin

text \<open>
  What each change of \<open>pairings.Store\<close> does to the records, that it keeps them well formed, and how
  the store's transaction ends.
\<close>

section \<open>Dial tables\<close>

text \<open>A stored table: known keys, once each, in dial order, with scalar values.\<close>

definition dial_position :: "pystr \<Rightarrow> pystr \<Rightarrow> nat" where
  "dial_position renderer key = the (find_index (\<lambda>k. k = key) (dial_keys renderer))"

lemma dial_position_inj:
  assumes "distinct (dial_keys renderer)"
  shows "inj_on (dial_position renderer) (set (dial_keys renderer))"
proof (rule inj_onI)
  fix a b assume "a \<in> set (dial_keys renderer)" "b \<in> set (dial_keys renderer)"
    and eq: "dial_position renderer a = dial_position renderer b"
  then obtain i j where "i < length (dial_keys renderer)" "a = dial_keys renderer ! i"
    "j < length (dial_keys renderer)" "b = dial_keys renderer ! j" by (auto simp: in_set_conv_nth)
  with eq find_index_nth [OF assms] show "a = b" by (simp add: dial_position_def)
qed

lemma dial_positions_sorted:
  assumes "distinct (dial_keys renderer)"
  shows "map (dial_position renderer) (dial_keys renderer) = [0..<length (dial_keys renderer)]"
  by (rule nth_equalityI) (simp_all add: dial_position_def find_index_nth [OF assms])

text \<open>Two tables with the same keys in dial order, each key once, list their keys alike.\<close>

lemma sorted_keys_unique:
  assumes "inj_on f A" "set xs \<subseteq> A" "set ys = set xs" "distinct xs" "distinct ys"
    and "sorted (map f xs)" "sorted (map f ys)"
  shows "xs = ys"
proof -
  have inj: "inj_on f (set xs)" "inj_on f (set ys)" "inj_on f (set xs \<union> set ys)"
    using inj_on_subset [OF assms(1,2)] unfolding assms(3) by simp_all
  have "distinct (map f xs)" "distinct (map f ys)"
    using inj(1,2) assms(4,5) by (simp_all only: distinct_map)
  moreover have "set (map f xs) = set (map f ys)" by (simp only: set_map assms(3))
  ultimately have "map f xs = map f ys"
    using assms(6,7) sorted_distinct_set_unique by blast
  then show ?thesis using inj(3) by (rule map_inj_on)
qed

lemma map_fst_picked: "map fst (picked m ks) = filter (\<lambda>k. m k \<noteq> None) ks"
proof (induction ks)
  case (Cons k ks)
  then show ?case by (cases "m k") (simp_all add: picked_def List.map_filter_simps)
qed (simp add: picked_def List.map_filter_simps)

lemma alist_by_keys: "distinct (map fst xs) \<Longrightarrow> xs = map (\<lambda>k. (k, the (map_of xs k))) (map fst xs)"
proof (rule nth_equalityI)
  fix i assume d: "distinct (map fst xs)" and i: "i < length xs"
  then have "map_of xs (fst (xs ! i)) = Some (snd (xs ! i))" by simp
  with i show "xs ! i = map (\<lambda>k. (k, the (map_of xs k))) (map fst xs) ! i" by simp
qed simp

lemma alist_eqI:
  assumes "map fst xs = map fst ys" "distinct (map fst xs)" "map_of xs = map_of ys"
  shows "xs = ys"
  using alist_by_keys [of xs] alist_by_keys [of ys] assms by metis

lemma wf_table_iff:
  assumes d: "distinct (dial_keys renderer)"
  shows "wf_table renderer t \<longleftrightarrow> distinct (map fst t) \<and> fst ` set t \<subseteq> set (dial_keys renderer) \<and>
    sorted (map (dial_position renderer) (map fst t)) \<and> (\<forall>(k, v)\<in>set t. scalar v)"
proof -
  let ?m = "\<lambda>k. case map_of t k of Some v \<Rightarrow> if scalar v then Some v else None | None \<Rightarrow> None"
  let ?p = "picked ?m (dial_keys renderer)"
  have p: "decode_table renderer (Some (JObj t)) = ?p" by (rule decode_table_picked)
  have keys: "map fst ?p = filter (\<lambda>k. ?m k \<noteq> None) (dial_keys renderer)" by (rule map_fst_picked)
  have sorted: "sorted (map (dial_position renderer) (filter P (dial_keys renderer)))" for P
    by (rule sorted_filter) (simp add: dial_positions_sorted [OF d])
  show ?thesis
  proof
    assume "wf_table renderer t"
    then have t: "t = ?p" by (simp add: wf_table_def p)
    have fst_t: "map fst t = filter (\<lambda>k. ?m k \<noteq> None) (dial_keys renderer)"
      by (rule trans [OF arg_cong [OF t, of "map fst"] keys])
    have "distinct (map fst t)" unfolding fst_t using d by simp
    moreover have "fst ` set t \<subseteq> set (dial_keys renderer)"
      unfolding list.set_map [symmetric] fst_t by auto
    moreover have "sorted (map (dial_position renderer) (map fst t))" unfolding fst_t by (rule sorted)
    moreover have "scalar v" if "(k, v) \<in> set t" for k v
    proof -
      have found: "map_of t k = Some v" using that \<open>distinct (map fst t)\<close> by simp
      have "map_of t k = (if k \<in> set (dial_keys renderer) then ?m k else None)"
        by (rule trans [OF fun_cong [OF arg_cong [OF t, of map_of]] map_of_picked])
      then show ?thesis unfolding found by (cases "scalar v") (simp_all split: if_splits)
    qed
    ultimately show "distinct (map fst t) \<and> fst ` set t \<subseteq> set (dial_keys renderer) \<and>
      sorted (map (dial_position renderer) (map fst t)) \<and> (\<forall>(k, v)\<in>set t. scalar v)" by blast
  next
    assume t: "distinct (map fst t) \<and> fst ` set t \<subseteq> set (dial_keys renderer) \<and>
      sorted (map (dial_position renderer) (map fst t)) \<and> (\<forall>(k, v)\<in>set t. scalar v)"
    then have m: "?m k = map_of t k" for k by (auto split: option.split dest: map_of_SomeD)
    have "set (map fst ?p) = set (map fst t)"
      unfolding keys unfolding m using t by (auto simp: map_of_eq_None_iff)
    moreover have "set (map fst ?p) \<subseteq> set (dial_keys renderer)" "distinct (map fst ?p)"
      "sorted (map (dial_position renderer) (map fst ?p))"
      unfolding keys using d sorted by auto
    ultimately have "map fst ?p = map fst t"
      using sorted_keys_unique [OF dial_position_inj [OF d], of "map fst ?p" "map fst t"] t by simp
    moreover have "map_of t k = None" if "k \<notin> set (dial_keys renderer)" for k
      using t that unfolding map_of_eq_None_iff by blast
    then have "map_of ?p = map_of t"
      unfolding m by (auto simp: map_of_picked fun_eq_iff)
    ultimately have "?p = t" using t alist_eqI by metis
    then show "wf_table renderer t" by (simp add: wf_table_def p)
  qed
qed

lemma known_dials:
  "list_all (\<lambda>d. dial_renderer d = lit ''video'' \<or> dial_renderer d = lit ''scene'') DIALS"
  "list_all (\<lambda>d. list_all scalar (dial_choices d)) DIALS"
  by code_simp+

lemma dial_keys_once: "distinct (dial_keys renderer)"
proof (cases "renderer = lit ''video'' \<or> renderer = lit ''scene''")
  case True
  then show ?thesis using dial_keys_distinct by auto
next
  case False
  then have "per_wallpaper renderer = []"
    using known_dials(1) by (auto simp: per_wallpaper_def list_all_iff filter_empty_conv)
  then show ?thesis by (simp add: dial_keys_def)
qed

lemmas wf_table = wf_table_iff [OF dial_keys_once]

lemma coerced_scalar:
  assumes "find_dial renderer key = Some d" "dial_coerce d v = Some w"
  shows "scalar w"
proof -
  have "d \<in> set DIALS" using assms(1) by (auto simp: find_dial_def find_Some_iff)
  then have "list_all scalar (dial_choices d)" using known_dials(2) by (simp add: list_all_iff)
  with coerce_valid [OF assms(2)] show ?thesis
    by (auto simp: dial_valid_def scalar_def list_all_iff is_bool_def
        split: dial_kind.splits json.splits)
qed

lemma found_dial_key: "find_dial renderer key = Some d \<Longrightarrow> dial_per_wallpaper d \<Longrightarrow> key \<in> set (dial_keys renderer)"
  unfolding find_dial_def find_Some_iff dial_keys_def per_wallpaper_def by (auto simp: in_set_conv_nth)

lemma in_dial_order_wf:
  assumes "distinct (map fst t)" "fst ` set t \<subseteq> set (dial_keys renderer)" "\<forall>(k, v)\<in>set t. scalar v"
  shows "wf_table renderer (in_dial_order renderer t)"
proof -
  have "distinct (map fst (in_dial_order renderer t))"
    unfolding in_dial_order_def using assms(1) by (metis distinct_map distinct_sort set_sort)
  moreover have "sorted (map (dial_position renderer) (map fst (in_dial_order renderer t)))"
    using sorted_sort_key [of "\<lambda>p. dial_position renderer (fst p)" t]
    by (simp add: in_dial_order_def dial_position_def comp_def)
  ultimately show ?thesis using assms(2,3) unfolding wf_table by (simp add: in_dial_order_def)
qed

lemma kept_dials:
  assumes "wf_table renderer t"
  shows "distinct (map fst (filter (\<lambda>(n, s). n \<noteq> key) t))"
    and "fst ` set (filter (\<lambda>(n, s). n \<noteq> key) t) \<subseteq> set (dial_keys renderer) - {key}"
    and "\<forall>(k, v)\<in>set (filter (\<lambda>(n, s). n \<noteq> key) t). scalar v"
  using assms unfolding wf_table by (auto simp: distinct_map_filter)

lemma with_dial_wf:
  assumes o': "wf_overrides o'" and ok: "with_dial renderer key v o' = Inr out"
  shows "wf_overrides out"
proof -
  let ?t = "stored_dials o' renderer"
  let ?kept = "filter (\<lambda>(name, stored). name \<noteq> key) ?t"
  obtain d where d: "find_dial renderer key = Some d" and own: "dial_per_wallpaper d"
    using ok by (auto simp: with_dial_def split: option.splits if_splits)
  have key: "key \<in> set (dial_keys renderer)" by (rule found_dial_key [OF d own])
  have renderer: "renderer = lit ''video'' \<or> renderer = lit ''scene''"
    using known_dials(1) d by (auto simp: find_dial_def find_Some_iff list_all_iff)
  then have "wf_table renderer ?t"
    using o' by (auto simp: stored_dials_def wf_overrides_def)
  note kept = kept_dials [OF this, of key]
  have "\<exists>pairs. wf_table renderer (in_dial_order renderer pairs) \<and>
      out = (if renderer = lit ''video'' then o'\<lparr>own_video := in_dial_order renderer pairs\<rparr>
             else o'\<lparr>own_scene := in_dial_order renderer pairs\<rparr>)"
  proof (cases v)
    case None
    have "wf_table renderer (in_dial_order renderer ?kept)" using kept by (intro in_dial_order_wf) auto
    with ok d own None show ?thesis by (intro exI [of _ ?kept]) (simp add: with_dial_def Let_def)
  next
    case (Some raw)
    then obtain checked where c: "dial_coerce d raw = Some checked"
      using ok d own by (auto simp: with_dial_def Let_def split: option.splits)
    have "wf_table renderer (in_dial_order renderer (?kept @ [(key, checked)]))"
      using kept key coerced_scalar [OF d c] by (intro in_dial_order_wf) auto
    with ok d own Some c show ?thesis
      by (intro exI [of _ "?kept @ [(key, checked)]"]) (simp add: with_dial_def Let_def)
  qed
  then obtain pairs where wf: "wf_table renderer (in_dial_order renderer pairs)"
    and out: "out = (if renderer = lit ''video'' then o'\<lparr>own_video := in_dial_order renderer pairs\<rparr>
      else o'\<lparr>own_scene := in_dial_order renderer pairs\<rparr>)" by blast
  have other: "renderer = lit ''scene''" if "renderer \<noteq> lit ''video''" using renderer that by blast
  show ?thesis
  proof (cases "renderer = lit ''video''")
    case True
    with o' wf out show ?thesis by (simp add: wf_overrides_def)
  next
    case False
    with o' wf out other show ?thesis by (simp add: wf_overrides_def)
  qed
qed

lemma with_property_wf:
  assumes o': "wf_overrides o'" and ok: "with_property name v o' = Inr out"
  shows "wf_overrides out"
proof -
  let ?kept = "filter (\<lambda>(key, stored). key \<noteq> name) (own_properties o')"
  have good: "good_properties (own_properties o')" using o' by (simp add: wf_overrides_def)
  have put: "wf_overrides (o'\<lparr>own_properties := sort_key fst pairs\<rparr>)" if "good_properties pairs" for pairs
    using o' that by (simp add: wf_overrides_def good_properties_sort sort_key_id_if_sorted)
  have kept: "distinct (map fst ?kept)" "list_all good_property ?kept" "name \<notin> fst ` set ?kept"
    using good by (auto simp: good_properties_def distinct_map_filter list_all_iff)
  show ?thesis
  proof (cases v)
    case None
    with ok kept show ?thesis
      by (auto simp: with_property_def Let_def good_properties_def intro!: put split: if_splits)
  next
    case (Some w)
    with ok kept show ?thesis
      by (auto simp: with_property_def Let_def good_properties_def intro!: put split: if_splits)
  qed
qed

section \<open>Records\<close>

definition keeps_records :: "'r pairing_change \<Rightarrow> bool" where
  "keeps_records change \<longleftrightarrow>
     (\<forall>c d x b v. wf_records d \<longrightarrow> change c d = Inr (x, b, v) \<longrightarrow> wf_records v)"

lemma keeps_recordsI:
  "(\<And>c d x b v. wf_records d \<Longrightarrow> change c d = Inr (x, b, v) \<Longrightarrow> wf_records v) \<Longrightarrow> keeps_records change"
  unfolding keeps_records_def by blast

definition usable_item :: "library_item \<Rightarrow> bool" where
  "usable_item item \<longleftrightarrow> item_path item \<noteq> []"

lemma usable_identity: "usable_item item \<Longrightarrow> id_source (media_id_of item) \<noteq> []"
  by (simp add: usable_item_def media_id_of_def)

lemma blank_wf [simp]: "wf_pairing (blank_pairing i) \<longleftrightarrow> id_source i \<noteq> []"
  by (simp add: wf_pairing_def blank_pairing_def)

lemma wf_pairing_health [simp]: "wf_pairing (p\<lparr>pr_health := h\<rparr>) = wf_pairing p"
  by (simp add: wf_pairing_def)

lemma identity_health [simp]: "pr_identity (p\<lparr>pr_health := h\<rparr>) = pr_identity p"
  by simp

lemma blank_identity [simp]: "pr_identity (blank_pairing i) = i"
  by (simp add: blank_pairing_def)

lemma recorded_wf:
  assumes "wf_records d" "id_source i \<noteq> []"
  shows "wf_pairing (recorded i d)" and "pr_identity (recorded i d) = i"
proof -
  have "wf_pairing (recorded i d) \<and> pr_identity (recorded i d) = i"
  proof (cases "map_of d (identity_key i)")
    case (Some p)
    from wf_records_lookup [OF assms(1) this]
    have "identity_key i = identity_key (pr_identity p)" "wf_pairing p" by auto
    moreover from this(2) have "id_source (pr_identity p) \<noteq> []" by (simp add: wf_pairing_def)
    ultimately have "pr_identity p = i" using identity_key_inj [OF assms(2)] by metis
    with Some \<open>wf_pairing p\<close> show ?thesis by (simp add: recorded_def)
  qed (use assms in \<open>simp add: recorded_def\<close>)
  then show "wf_pairing (recorded i d)" and "pr_identity (recorded i d) = i" by simp_all
qed

lemma keep_or_drop_wf:
  "wf_records d \<Longrightarrow> wf_pairing p \<Longrightarrow> pr_identity p = i \<Longrightarrow> wf_records (keep_or_drop c i p d)"
  by (simp add: keep_or_drop_def wf_records_update wf_records_delete)

lemma choose_record_keeps:
  assumes "id_source i \<noteq> []"
    and "\<And>p. wf_pairing p \<Longrightarrow> case still p of None \<Rightarrow> True | Some s \<Rightarrow> is_absolute s \<and> path_text s = s"
    and "\<And>p. wf_pairing p \<Longrightarrow> wf_palette (palette p)"
  shows "keeps_records (choose_record i still palette)"
proof (rule keeps_recordsI)
  fix c d x b v assume d: "wf_records d" and ok: "choose_record i still palette c d = Inr (x, b, v)"
  have p: "wf_pairing (recorded i d)" by (rule recorded_wf [OF d assms(1)])
  let ?p = "(blank_pairing i)\<lparr>pr_still := still (recorded i d), pr_palette := palette (recorded i d),
    pr_customized := True, pr_health := pr_health (recorded i d), pr_renderer := pr_renderer (recorded i d)\<rparr>"
  have "wf_pairing ?p"
    using p assms(1) assms(2,3) [OF p] by (simp add: wf_pairing_def blank_pairing_def)
  moreover have "v = AList.update (identity_key i) ?p d"
    using ok unfolding choose_record_def Let_def sum.inject prod.inject by (elim conjE) (rule sym)
  moreover have "pr_identity ?p = i" by (simp add: blank_pairing_def)
  ultimately show "wf_records v" using d by (simp add: wf_records_update)
qed

lemma apply_borked_wf:
  "apply_borked requested d = (n, v) \<Longrightarrow> wf_records d \<Longrightarrow>
     \<forall>(key, i, h)\<in>set requested. key = identity_key i \<and> id_source i \<noteq> [] \<Longrightarrow> wf_records v"
proof (induction requested d arbitrary: n v rule: apply_borked.induct)
  case (2 key i h rest d)
  show ?case
  proof (cases "map_of d key")
    case None
    have "wf_records (AList.update key ((blank_pairing i)\<lparr>pr_health := h\<rparr>) d)"
      using 2(5,6) by (intro wf_records_update) auto
    with 2 None show ?thesis by (cases "apply_borked rest (AList.update key ((blank_pairing i)\<lparr>pr_health := h\<rparr>) d)") auto
  next
    case (Some p)
    note wf = wf_records_lookup [OF 2(5) Some]
    then have "wf_records (AList.update key (p\<lparr>pr_health := h\<rparr>) d)"
      using 2(5) by (intro wf_records_update) simp_all
    with 2 Some show ?thesis
      by (cases "apply_borked rest (AList.update key (p\<lparr>pr_health := h\<rparr>) d)") (auto split: if_splits)
  qed
qed simp

text \<open>The requests by identity, in the order first found.\<close>

abbreviation request_keys :: "(pystr \<times> media_id \<times> health) list \<Rightarrow> bool" where
  "request_keys requested \<equiv> \<forall>(key, i, h)\<in>set requested. key = identity_key i \<and> id_source i \<noteq> []"

lemma request_fold_keys:
  "\<forall>(item, reason, source)\<in>set fs. usable_item item \<Longrightarrow> request_keys acc \<Longrightarrow>
     request_keys (foldl (\<lambda>d (item, reason, source).
       AList.update (identity_key (media_id_of item)) (media_id_of item, borked reason source) d) acc fs)"
proof (induction fs arbitrary: acc)
  case (Cons f fs)
  obtain item reason source where f: "f = (item, reason, source)" by (cases f)
  let ?acc = "AList.update (identity_key (media_id_of item)) (media_id_of item, borked reason source) acc"
  have "request_keys ?acc"
    using set_update_subset [of "identity_key (media_id_of item)" "(media_id_of item, borked reason source)" acc]
      Cons.prems usable_identity by (auto simp: f)
  with Cons.IH [of ?acc] Cons.prems(1) show ?case by (simp add: f)
qed simp

lemma borked_requests_keys:
  "borked_requests findings = Inr requested \<Longrightarrow>
     \<forall>(item, reason, source)\<in>set findings. usable_item item \<Longrightarrow> request_keys requested"
  using request_fold_keys [of findings "[]"] by (auto simp: borked_requests_def split: if_splits)

lemma scrub_stills_wf: "wf_records d \<Longrightarrow> wf_records (scrub_stills gone d)"
proof -
  assume d: "wf_records d"
  have keys: "map fst (scrub_stills gone d) = map fst d" by (induction d) (auto simp: scrub_stills_def)
  have none: "wf_pairing (q\<lparr>pr_still := None\<rparr>)" if "wf_pairing q" for q
    using that by (auto simp: wf_pairing_def)
  have "k = identity_key (pr_identity p) \<and> wf_pairing p" if "(k, p) \<in> set (scrub_stills gone d)" for k p
  proof -
    from that obtain q where "(k, q) \<in> set d" and p: "p = q \<or> p = q\<lparr>pr_still := None\<rparr>"
      by (auto simp: scrub_stills_def)
    then have "k = identity_key (pr_identity q)" "wf_pairing q" using d by (auto simp: wf_records_def)
    with p none show ?thesis by auto
  qed
  with d keys show ?thesis by (auto simp: wf_records_def)
qed

lemma forget_records_keeps: "keeps_records (\<lambda>c. forget_records keys gone)"
  by (rule keeps_recordsI) (auto simp: forget_records_def Let_def intro: scrub_stills_wf wf_records_filter)

section \<open>How the transaction ends\<close>

lemma mutate_pairings_ok:
  assumes "mutate_pairings env refuse_fault refuse_unreadable change st w = (Inr x, st1, w1)"
  obtains r b where "read_pairings (w_node w) = Inr r" "\<not> r_newer r"
    "r_fault r \<noteq> None \<longrightarrow> \<not> refuse_fault \<and> \<not> refuse_unreadable \<and> \<not> read_failed (r_fault r)"
    "change (carried_of (r_unknown r)) (r_value r) = Inr (x, b, st_value st1)" "st_loaded st1"
    "if b then persist pairings_ops env (r_fault r) (st_value st1) (r_unknown r) w = (Inr (), w1) \<and> st_fault st1 = None
     else w1 = w \<and> st_fault st1 = r_fault r"
  using assms by (auto simp: mutate_pairings_def Let_def split: if_splits sum.splits prod.splits exn.splits)

lemma mutate_pairings_error:
  assumes "mutate_pairings env refuse_fault refuse_unreadable change st w = (Inl e, st1, w1)"
  shows "st_value st1 = st_value st \<and> (w1 = w \<or> \<not> refuse_fault \<and> \<not> refuse_unreadable \<and>
    w_node w1 = Absent \<and> w_backups w1 = w_backups w @ [w_node w])"
proof -
  have "w1 = w \<or> fault \<noteq> None \<and> w_node w1 = Absent \<and> w_backups w1 = w_backups w @ [w_node w]"
    if "persist pairings_ops env fault v u w = (Inl e', w1)" for fault v u e'
    by (rule persist_error [OF that])
  with assms show ?thesis
    by (auto simp: mutate_pairings_def Let_def split: if_splits sum.splits prod.splits exn.splits)
qed

lemma mutate_pairings_wf:
  assumes "mutate_pairings env refuse_fault refuse_unreadable change st w = (x, st1, w1)"
    and "keeps_records change" and "wf_records (st_value st)"
  shows "wf_records (st_value st1)"
proof (cases x)
  case (Inl e)
  then show ?thesis using mutate_pairings_error assms(1,3) by metis
next
  case (Inr y)
  from mutate_pairings_ok [OF assms(1) [unfolded Inr]] obtain r b where
    "read_pairings (w_node w) = Inr r" "change (carried_of (r_unknown r)) (r_value r) = Inr (y, b, st_value st1)" .
  then show ?thesis using assms(2) read_pairings_wf unfolding keeps_records_def by blast
qed

end
