(* ===== verification/Pairing_Merge.thy ===== *)
theory Pairing_Merge
  imports Pairing_Changes
begin

text \<open>
  The unknown fields a pairings file carries are put back when it is written (\<open>merge_unknown\<close>), and the
  reader sees the same records with or without them: merging leaves every field the reader looks at, and
  the objects it adds hold nothing the reader knows.
\<close>

section \<open>What merging does to a document\<close>

definition merged :: "shape \<Rightarrow> dict \<Rightarrow> dict \<Rightarrow> bool" where
  "merged sh d d' \<longleftrightarrow> (\<lambda>a b. \<exists>u. b = merge_unknown u sh a)\<^sup>*\<^sup>* d d'"

definition merged_item :: "shape \<Rightarrow> json \<Rightarrow> json \<Rightarrow> bool" where
  "merged_item sh j j' \<longleftrightarrow> j' = j \<or> (\<exists>r r'. j = JObj r \<and> j' = JObj r' \<and> merged sh r r')"

lemma merged_refl [simp]: "merged sh d d"
  by (simp add: merged_def)

lemma merged_once [simp]: "merged sh d (merge_unknown u sh d)"
  unfolding merged_def by (rule r_into_rtranclp) blast

lemma merged_trans: "merged sh a b \<Longrightarrow> merged sh b c \<Longrightarrow> merged sh a c"
  by (simp add: merged_def)

lemma merged_induct [consumes 1, case_names refl step]:
  assumes "merged sh d d'" "P d" "\<And>u e. merged sh d e \<Longrightarrow> P e \<Longrightarrow> P (merge_unknown u sh e)"
  shows "P d'"
  using assms(1) unfolding merged_def
proof (induction rule: rtranclp_induct)
  case (step e e')
  then show ?case using assms(3) by (auto simp: merged_def)
qed (rule assms(2))

lemma merged_item_refl [simp]: "merged_item sh j j"
  by (simp add: merged_item_def)

lemma merged_item_trans: "merged_item sh a b \<Longrightarrow> merged_item sh b c \<Longrightarrow> merged_item sh a c"
  by (auto simp: merged_item_def intro: merged_trans)

lemma merge_record_merged: "merged_item child j (merge_record (\<lambda>u r. merge_unknown u child r) child by j)"
  by (auto simp: merge_record_def merged_item_def split: json.splits option.splits)

lemma merge_fields_modelled: "models sh k \<Longrightarrow> map_of (merge_fields sh fs d) k = map_of d k"
  by (simp add: map_of_merge_fields split: option.split)

lemma merge_objects_other: "map_of (objects sh) k = None \<Longrightarrow> map_of (merge_objects os sh d) k = map_of d k"
  by (induction os arbitrary: d) (auto split: option.splits json.splits)

lemma merge_records_other: "map_of (records sh) k = None \<Longrightarrow> map_of (merge_records rs sh d) k = map_of d k"
  by (induction rs arbitrary: d) (auto split: option.splits json.splits)

lemma modelled:
  "k \<in> set (known sh) \<Longrightarrow> models sh k" "map_of (records sh) k = Some c \<Longrightarrow> models sh k"
  "map_of (objects sh) k = Some c \<Longrightarrow> models sh k"
  by (force simp: models_def dest: map_of_SomeD)+

text \<open>A field the shape names is as it was.\<close>

lemma merge_known:
  assumes "k \<in> set (known sh)" "map_of (records sh) k = None" "map_of (objects sh) k = None"
  shows "map_of (merge_unknown u sh d) k = map_of d k"
  by (cases u) (simp add: merge_records_other merge_objects_other merge_fields_modelled modelled assms)

lemma merged_known:
  assumes "merged sh d d'" "k \<in> set (known sh)" "map_of (records sh) k = None" "map_of (objects sh) k = None"
  shows "map_of d' k = map_of d k"
  using assms(1) by (induction rule: merged_induct) (simp_all add: merge_known assms)

text \<open>A list of records is merged record by record.\<close>

lemma merge_records_list:
  assumes "map_of (records sh) k = Some child" "map_of d k = Some (JArr xs)"
  shows "\<exists>ys. map_of (merge_records rs sh d) k = Some (JArr ys) \<and> list_all2 (merged_item child) xs ys"
  using assms(2)
proof (induction rs arbitrary: d xs)
  case Nil
  then show ?case by (auto intro: list_all2_refl)
next
  case (Cons p rs)
  obtain name by_identity where p: "p = (name, by_identity)" by (cases p)
  let ?d = "case map_of (records sh) name of None \<Rightarrow> d
    | Some child \<Rightarrow> (case map_of d name of
         Some (JArr xs) \<Rightarrow>
           AList.update name (JArr (map (merge_record (\<lambda>u r. merge_unknown u child r) child by_identity) xs)) d
       | _ \<Rightarrow> d)"
  show ?case
  proof (cases "name = k")
    case True
    let ?ys = "map (merge_record (\<lambda>u r. merge_unknown u child r) child by_identity) xs"
    have each: "list_all2 (merged_item child) xs ?ys"
      by (simp add: list_all2_map2 list_all2_same merge_record_merged)
    obtain zs where "map_of (merge_records (p # rs) sh d) k = Some (JArr zs)" "list_all2 (merged_item child) ?ys zs"
      using Cons.IH [of "AList.update k (JArr ?ys) d" ?ys] p True assms(1) Cons.prems by auto
    moreover have "list_all2 (merged_item child) xs zs"
      by (rule list_all2_trans [OF _ each \<open>list_all2 (merged_item child) ?ys zs\<close>]) (rule merged_item_trans)
    ultimately show ?thesis by blast
  next
    case False
    then have "map_of ?d k = map_of d k" by (auto split: option.splits json.splits)
    with Cons.IH [of ?d xs] Cons.prems show ?thesis by (simp add: p)
  qed
qed

lemma merge_list:
  assumes "map_of (records sh) k = Some child" "map_of (objects sh) k = None" "map_of d k = Some (JArr xs)"
  shows "\<exists>ys. map_of (merge_unknown u sh d) k = Some (JArr ys) \<and> list_all2 (merged_item child) xs ys"
  using merge_records_list [OF assms(1)] assms
  by (cases u) (simp add: merge_objects_other merge_fields_modelled modelled)

text \<open>An object is merged, and one that is absent may be made of unknown fields alone.\<close>

definition merged_object :: "bool \<Rightarrow> shape \<Rightarrow> json option \<Rightarrow> json option \<Rightarrow> bool" where
  "merged_object keep sh v v' \<longleftrightarrow> v' = v \<or>
     (\<exists>ps ps'. (v = Some (JObj ps) \<or> keep \<and> v = None \<and> ps = []) \<and> v' = Some (JObj ps') \<and> merged sh ps ps')"

lemma merged_object_refl [simp]: "merged_object keep sh v v"
  by (simp add: merged_object_def)

lemma merged_object_trans: "merged_object keep sh a b \<Longrightarrow> merged_object keep sh b c \<Longrightarrow> merged_object keep sh a c"
  by (auto simp: merged_object_def intro: merged_trans)

definition object_or_none :: "json option \<Rightarrow> bool" where
  "object_or_none v = (case v of None \<Rightarrow> True | Some (JObj ps) \<Rightarrow> True | _ \<Rightarrow> False)"

lemma merged_object_or_none: "merged_object keep sh v v' \<Longrightarrow> object_or_none v \<Longrightarrow> object_or_none v'"
  by (auto simp: merged_object_def object_or_none_def)

lemma merge_objects_object:
  assumes "map_of (objects sh) k = Some child" "object_or_none (map_of d k)"
  shows "merged_object (k \<in> set (kept sh)) child (map_of d k) (map_of (merge_objects os sh d) k)"
  using assms(2)
proof (induction os arbitrary: d)
  case (Cons p os)
  obtain name nested where p: "p = (name, nested)" by (cases p)
  let ?d = "case map_of (objects sh) name of None \<Rightarrow> d
    | Some child \<Rightarrow> (case map_of d name of
         Some (JObj ps) \<Rightarrow> AList.update name (JObj (merge_unknown nested child ps)) d
       | None \<Rightarrow> (if name \<in> set (kept sh) then AList.update name (JObj (merge_unknown nested child [])) d else d)
       | Some JNull \<Rightarrow> (if name \<in> set (kept sh) then AList.update name (JObj (merge_unknown nested child [])) d else d)
       | Some _ \<Rightarrow> d)"
  have one: "merged_object (k \<in> set (kept sh)) child (map_of d k) (map_of ?d k)"
  proof (cases "name = k")
    case True
    with assms(1) Cons.prems show ?thesis
      by (auto simp: merged_object_def object_or_none_def split: option.splits json.splits)
  next
    case False
    then have "map_of ?d k = map_of d k" by (auto split: option.splits json.splits)
    then show ?thesis by simp
  qed
  from Cons.IH [OF merged_object_or_none [OF one Cons.prems]] merged_object_trans [OF one]
  show ?case by (simp add: p)
qed simp

lemma merge_object:
  assumes "map_of (objects sh) k = Some child" "map_of (records sh) k = None" "object_or_none (map_of d k)"
  shows "merged_object (k \<in> set (kept sh)) child (map_of d k) (map_of (merge_unknown u sh d) k)"
proof (cases u)
  case (Unknown fs rs os)
  have "map_of (merge_fields sh fs d) k = map_of d k" using merge_fields_modelled modelled(3) [OF assms(1)] by blast
  with merge_objects_object [OF assms(1), of "merge_fields sh fs d" os] assms(3)
  show ?thesis by (simp add: Unknown merge_records_other [OF assms(2)])
qed

lemma merged_objects:
  assumes "merged sh d d'" "map_of (objects sh) k = Some child" "map_of (records sh) k = None" "object_or_none (map_of d k)"
  shows "merged_object (k \<in> set (kept sh)) child (map_of d k) (map_of d' k)"
  using assms(1)
proof (induction rule: merged_induct)
  case (step u e)
  from merge_object [OF assms(2,3) merged_object_or_none [OF step(2) assms(4)]] step(2)
  show ?case using merged_object_trans by blast
qed simp

section \<open>The reader of pairings\<close>

definition record_shape :: shape where
  "record_shape = the (map_of (records pairings_shape) (lit ''pairings''))"

definition renderer_shape :: shape where
  "renderer_shape = the (map_of (objects record_shape) (lit ''renderer''))"

lemma shape_facts:
  "map_of (records pairings_shape) (lit ''pairings'') = Some record_shape"
  "map_of (objects pairings_shape) k = None" "map_of (records record_shape) k = None"
  "map_of (objects record_shape) (lit ''renderer'') = Some renderer_shape"
  "map_of (records renderer_shape) k = None"
  by (simp_all add: record_shape_def renderer_shape_def pairings_shape_def)

lemma map_filter_same: "(\<And>x. x \<in> set xs \<Longrightarrow> f x = g x) \<Longrightarrow> List.map_filter f xs = List.map_filter g xs"
  by (induction xs) (simp_all add: List.map_filter_simps split: option.split)

lemma table_merged:
  assumes "merged_object keep (Shape (dial_keys renderer) None False [] [] []) v v'"
  shows "decode_table renderer v' = decode_table renderer v"
proof -
  have "List.map_filter (\<lambda>key. case map_of ps' key of Some v \<Rightarrow> if scalar v then Some (key, v) else None | None \<Rightarrow> None)
        (dial_keys renderer) =
      List.map_filter (\<lambda>key. case map_of ps key of Some v \<Rightarrow> if scalar v then Some (key, v) else None | None \<Rightarrow> None)
        (dial_keys renderer)"
    if "merged (Shape (dial_keys renderer) None False [] [] []) ps ps'" for ps ps'
    by (rule map_filter_same) (simp_all add: merged_known [OF that])
  moreover have "List.map_filter (\<lambda>key. case map_of [] key of Some v \<Rightarrow> if scalar v then Some (key, v) else None | None \<Rightarrow> None) ks = []"
    for ks :: "pystr list" by (induction ks) (simp_all add: List.map_filter_simps)
  ultimately show ?thesis using assms by (fastforce simp: merged_object_def decode_table_def)
qed

definition plain_renderer :: "json option \<Rightarrow> bool" where
  "plain_renderer v \<longleftrightarrow> (case v of None \<Rightarrow> True
     | Some (JObj d) \<Rightarrow> object_or_none (map_of d (lit ''video'')) \<and> object_or_none (map_of d (lit ''scene''))
     | _ \<Rightarrow> False)"

lemma renderer_shape_facts:
  "map_of (objects renderer_shape) (lit ''video'') = Some (Shape (dial_keys (lit ''video'')) None False [] [] [])"
  "map_of (objects renderer_shape) (lit ''scene'') = Some (Shape (dial_keys (lit ''scene'')) None False [] [] [])"
  "lit ''properties'' \<in> set (known renderer_shape)" "map_of (objects renderer_shape) (lit ''properties'') = None"
  by (simp_all add: record_shape_def renderer_shape_def pairings_shape_def)

lemma renderer_merged_objects:
  assumes "merged renderer_shape d d'" "plain_renderer (Some (JObj d))"
  shows "decode_renderer (Some (JObj d')) = decode_renderer (Some (JObj d)) \<and> plain_renderer (Some (JObj d'))"
proof -
  have o: "object_or_none (map_of d (lit ''video''))" "object_or_none (map_of d (lit ''scene''))"
    using assms(2) by (simp_all add: plain_renderer_def)
  note video = merged_objects [OF assms(1) renderer_shape_facts(1) shape_facts(5) o(1)]
  note scene = merged_objects [OF assms(1) renderer_shape_facts(2) shape_facts(5) o(2)]
  have "map_of d' (lit ''properties'') = map_of d (lit ''properties'')"
    by (rule merged_known [OF assms(1) renderer_shape_facts(3) shape_facts(5) renderer_shape_facts(4)])
  then show ?thesis
    using merged_object_or_none [OF video o(1)] merged_object_or_none [OF scene o(2)]
    by (simp add: decode_renderer_def plain_renderer_def table_merged [OF video] table_merged [OF scene])
qed

lemma renderer_merged:
  assumes "merged_object keep renderer_shape v v'" "plain_renderer v"
  shows "decode_renderer v' = decode_renderer v \<and> plain_renderer v'"
proof -
  have "decode_renderer (Some (JObj [])) = no_overrides" by code_simp
  moreover have "decode_renderer None = no_overrides" by (simp add: decode_renderer_def)
  moreover have "plain_renderer (Some (JObj []))" by (simp add: plain_renderer_def object_or_none_def)
  ultimately show ?thesis
    using assms renderer_merged_objects by (fastforce simp: merged_object_def)
qed

text \<open>A stored record, with any unknown fields put back, is the same pairing and no more malformed.\<close>

definition plain_record :: "dict \<Rightarrow> bool" where
  "plain_record d \<longleftrightarrow> object_or_none (map_of d (lit ''health'')) \<and> plain_renderer (map_of d (lit ''renderer''))"

lemma record_shape_facts:
  "map_of (objects record_shape) (lit ''health'') = Some (Shape [lit ''state'', lit ''reason'', lit ''source''] None False [] [] [])"
  "lit ''health'' \<notin> set (kept record_shape)"
  "k \<in> {lit ''identity'', lit ''still'', lit ''palette'', lit ''mode''} \<Longrightarrow>
     k \<in> set (known record_shape) \<and> map_of (objects record_shape) k = None"
  by (auto simp: record_shape_def pairings_shape_def)

text \<open>What the reader asks of a health object, which is never made of unknown fields alone.\<close>

lemma health_merged:
  assumes "merged_object False (Shape [lit ''state'', lit ''reason'', lit ''source''] None False [] [] []) v v'"
  shows "v' = v \<or> (\<exists>h h'. v = Some (JObj h) \<and> v' = Some (JObj h') \<and>
    map_of h' (lit ''state'') = map_of h (lit ''state'') \<and> map_of h' (lit ''reason'') = map_of h (lit ''reason'') \<and>
    map_of h' (lit ''source'') = map_of h (lit ''source''))"
  using assms merged_known [where sh = "Shape [lit ''state'', lit ''reason'', lit ''source''] None False [] [] []"]
  by (auto simp: merged_object_def)

lemma record_merged:
  assumes "merged record_shape d d'" "plain_record d"
  shows "pairing_of_dict d' = pairing_of_dict d \<and> malformed_fields d' = malformed_fields d"
proof -
  have known: "map_of d' k = map_of d k" if "k \<in> {lit ''identity'', lit ''still'', lit ''palette'', lit ''mode''}" for k
    using merged_known [OF assms(1)] record_shape_facts(3) [OF that] shape_facts(3) by blast
  have at: "map_of d' (lit ''identity'') = map_of d (lit ''identity'')" "map_of d' (lit ''still'') = map_of d (lit ''still'')"
    "map_of d' (lit ''palette'') = map_of d (lit ''palette'')" "map_of d' (lit ''mode'') = map_of d (lit ''mode'')"
    by (rule known, simp)+
  have h: "object_or_none (map_of d (lit ''health''))" and r: "plain_renderer (map_of d (lit ''renderer''))"
    using assms(2) by (simp_all add: plain_record_def)
  have plain: "object_or_none (map_of d (lit ''renderer''))"
    using r by (auto simp: plain_renderer_def object_or_none_def split: option.splits json.splits)
  from merged_objects [OF assms(1) record_shape_facts(1) shape_facts(3) h] record_shape_facts(2)
  have health: "merged_object False (Shape [lit ''state'', lit ''reason'', lit ''source''] None False [] [] [])
      (map_of d (lit ''health'')) (map_of d' (lit ''health''))" by simp
  from merged_objects [OF assms(1) shape_facts(4,3) plain] r
  have renderer: "decode_renderer (map_of d' (lit ''renderer'')) = decode_renderer (map_of d (lit ''renderer''))"
    "plain_renderer (map_of d' (lit ''renderer''))" using renderer_merged by blast+
  have dicts: "(case v of None \<Rightarrow> False | Some x \<Rightarrow> \<not> is_dict x) = False" if "plain_renderer v" for v
    using that by (auto simp: plain_renderer_def is_dict_def split: option.splits json.splits)
  have same_health: "stored_health (map_of d' (lit ''health'')) = stored_health (map_of d (lit ''health''))"
    using health_merged [OF health]
  proof (elim disjE exE conjE)
    fix h h'
    assume "map_of d (lit ''health'') = Some (JObj h)" "map_of d' (lit ''health'') = Some (JObj h')"
      "map_of h' (lit ''state'') = map_of h (lit ''state'')" "map_of h' (lit ''reason'') = map_of h (lit ''reason'')"
      "map_of h' (lit ''source'') = map_of h (lit ''source'')"
    note same = this
    show ?thesis unfolding stored_health_def same option.case json.case ..
  qed simp
  have chosen: "(\<exists>k\<in>{lit ''still'', lit ''palette'', lit ''mode''}. map_of d' k \<noteq> None) =
      (\<exists>k\<in>{lit ''still'', lit ''palette'', lit ''mode''}. map_of d k \<noteq> None)" by (simp add: at)
  have "pairing_of_dict d' = pairing_of_dict d"
    unfolding pairing_of_dict_def at chosen same_health renderer(1) ..
  moreover have "malformed_fields d' = malformed_fields d"
    using health_merged [OF health] by (auto simp: malformed_fields_def at dicts [OF r] dicts [OF renderer(2)])
  ultimately show ?thesis by blast
qed

lemma records_merged:
  assumes "list_all2 (merged_item record_shape) xs ys" "\<forall>x\<in>set xs. \<exists>d. x = JObj d \<and> plain_record d"
  shows "parse_pairing_list found malformed duplicate ys = parse_pairing_list found malformed duplicate xs"
  using assms
proof (induction xs ys arbitrary: found malformed duplicate rule: list_all2_induct)
  case (Cons x xs y ys)
  from Cons.prems obtain d where d: "x = JObj d" "plain_record d" by auto
  from Cons.hyps(1) obtain d' where d': "y = JObj d'" "merged record_shape d d'"
    by (auto simp: merged_item_def d(1))
  from record_merged [OF d'(2) d(2)] Cons.IH Cons.prems show ?case
    by (simp add: d(1) d'(1) pairing_of_json_def Let_def split: option.split)
qed simp

lemma stored_record_plain: "plain_record (pairing_to_json p)"
proof -
  have "object_or_none (map_of (pairing_to_json p) (lit ''health''))"
    by (auto simp: object_or_none_def pairing_to_json_def split: health.split option.split)
  moreover have "map_of (pairing_to_json p) (lit ''renderer'') \<in> {None, Some (JObj (encode_renderer (pr_renderer p)))}"
    by (auto simp: pairing_to_json_def split: health.split option.split)
  moreover have "plain_renderer (Some (JObj (encode_renderer (pr_renderer p))))"
    by (simp add: plain_renderer_def object_or_none_def encode_renderer_def)
  moreover have "plain_renderer None" by (simp add: plain_renderer_def)
  ultimately show ?thesis by (auto simp: plain_record_def)
qed

text \<open>What is read of a saved file is what would be read without the unknown fields.\<close>

lemma pairings_read_merged:
  "parse_pairings (pairings_document d u) = parse_pairings (plain_pairings d)"
  "newer_version_fault 2 (pairings_document d u) = newer_version_fault 2 (plain_pairings d)"
proof -
  let ?xs = "map (\<lambda>(k, p). JObj (pairing_to_json p)) (sort_key fst d)"
  have stored: "map_of (plain_pairings d) (lit ''pairings'') = Some (JArr ?xs)" by (simp add: plain_pairings_def)
  from merge_list [OF shape_facts(1,2) this, of u] obtain ys
    where ys: "map_of (pairings_document d u) (lit ''pairings'') = Some (JArr ys)" "list_all2 (merged_item record_shape) ?xs ys"
    by (auto simp: pairings_document_def)
  have v: "map_of (pairings_document d u) (lit ''version'') = map_of (plain_pairings d) (lit ''version'')"
    unfolding pairings_document_def by (rule merge_known) (simp_all add: pairings_shape_def)
  have "parse_pairing_list found m n (take MAX_PAIRINGS ys) = parse_pairing_list found m n (take MAX_PAIRINGS ?xs)" for found m n
    by (rule records_merged) (use ys(2) stored_record_plain in \<open>auto intro: list_all2_takeI dest!: in_set_takeD\<close>)
  note same = this and len = list_all2_lengthD [OF ys(2)]
  show "parse_pairings (pairings_document d u) = parse_pairings (plain_pairings d)"
    unfolding parse_pairings_def version_fault_def v ys(1) stored option.case json.case same len ..
  show "newer_version_fault 2 (pairings_document d u) = newer_version_fault 2 (plain_pairings d)"
    by (simp add: newer_version_fault_def v)
qed

end
