(* ===== verification/Pairing_Guarantees.thy ===== *)
theory Pairing_Guarantees
  imports Pairing_Merge
begin

text \<open>
  The properties of the pairings: whatever sequence of operations ran, the records are well formed,
  and what is saved reads back; the health sync never writes over records it did not compare, nor
  over a file with a fault; a forgotten item is gone from its own record and from every other.
\<close>

section \<open>Every operation keeps the records well formed\<close>

type_synonym pairing_run = "pairing_records store \<Rightarrow> world \<Rightarrow> pairing_records store \<times> world"

definition ran_pairing :: "'r pairing_op \<Rightarrow> pairing_run" where
  "ran_pairing f st w = snd (f st w)"

definition pairing_safe :: "pairing_run \<Rightarrow> bool" where
  "pairing_safe f \<longleftrightarrow>
     (\<forall>st w. wf_records (st_value st) \<longrightarrow> wf_records (st_value (fst (f st w))))"

text \<open>A still is an absolute \<open>Path\<close>, a palette as the page or the reader builds one.\<close>

definition usable_still :: "pystr option \<Rightarrow> bool" where
  "usable_still s \<longleftrightarrow> (case s of None \<Rightarrow> True | Some p \<Rightarrow> is_absolute p \<and> path_text p = p)"

inductive pairing_operation :: "pairing_run \<Rightarrow> bool" where
  op_still: "usable_item item \<Longrightarrow> usable_still s \<Longrightarrow>
    pairing_operation (ran_pairing (choose_still env item s))"
| op_palette: "usable_item item \<Longrightarrow> wf_palette p \<Longrightarrow>
    pairing_operation (ran_pairing (choose_palette env item p keep))"
| op_mode: "usable_item item \<Longrightarrow> pairing_operation (ran_pairing (choose_mode env item m))"
| op_marked: "\<forall>(item, reason, source)\<in>set findings. usable_item item \<Longrightarrow>
    pairing_operation (ran_pairing (mark_borked_many env findings))"
| op_marked_one: "usable_item item \<Longrightarrow> pairing_operation (ran_pairing (mark_borked env item reason source))"
| op_synced: "\<forall>(item, reason, source)\<in>set findings. usable_item item \<Longrightarrow>
    pairing_operation (ran_pairing (mark_borked_many_if_unchanged env findings expected))"
| op_cleared: "usable_item item \<Longrightarrow> pairing_operation (ran_pairing (clear_borked env item))"
| op_reset: "usable_item item \<Longrightarrow> pairing_operation (ran_pairing (reset_pairing env item))"
| op_dial: "usable_item item \<Longrightarrow> pairing_operation (ran_pairing (set_dial env item renderer key v))"
| op_property: "usable_item item \<Longrightarrow> pairing_operation (ran_pairing (set_property env item name t))"
| op_reset_renderer: "usable_item item \<Longrightarrow> pairing_operation (ran_pairing (reset_renderer env item))"
| op_forget_identity: "pairing_operation (ran_pairing (forget_identity env i))"
| op_forget_item: "pairing_operation (ran_pairing (forget_item env item removed))"
| op_forget_path: "pairing_operation (ran_pairing (forget_pairing_path env path))"
| op_adopt: "pairing_operation (\<lambda>st w. (snd (adopt_worker_forget_item item removed st), w))"

lemma pairing_safe_mutate: "keeps_records change \<Longrightarrow> pairing_safe (ran_pairing (mutate_pairings env a b change))"
  unfolding pairing_safe_def ran_pairing_def by (metis mutate_pairings_wf prod.collapse)

lemma safe_guarded:
  "pairing_safe (ran_pairing f) \<Longrightarrow> pairing_safe (ran_pairing (\<lambda>st w. if c then (x, st, w) else f st w))"
  by (auto simp: pairing_safe_def ran_pairing_def)

lemma safe_result: "pairing_safe (ran_pairing f) \<Longrightarrow> pairing_safe (ran_pairing (first_of f))"
  "pairing_safe (ran_pairing g) \<Longrightarrow> pairing_safe (ran_pairing (second_of g))"
  by (simp_all add: pairing_safe_def ran_pairing_def first_of_def second_of_def split_beta)

lemma edit_renderer_safe:
  assumes "usable_item item" and "\<And>o' own. wf_overrides o' \<Longrightarrow> edit o' = Inr own \<Longrightarrow> wf_overrides own"
  shows "pairing_safe (ran_pairing (edit_renderer env item edit))"
  unfolding edit_renderer_def
proof (intro pairing_safe_mutate keeps_recordsI, goal_cases)
  case (1 c d x b v)
  let ?old = "recorded (media_id_of item) d"
  note old = recorded_wf [OF 1(1) usable_identity [OF assms(1)]]
  obtain own where own: "edit (pr_renderer ?old) = Inr own"
    using 1(2) by (auto simp: Let_def split: sum.splits)
  have "wf_overrides (pr_renderer ?old)" using old(1) by (simp add: wf_pairing_def)
  then have "wf_overrides own" using assms(2) own by blast
  then have "wf_pairing (?old\<lparr>pr_renderer := own\<rparr>)" using old(1) by (simp add: wf_pairing_def)
  with old(2) have "wf_records (keep_or_drop c (media_id_of item) (?old\<lparr>pr_renderer := own\<rparr>) d)"
    by (intro keep_or_drop_wf 1(1)) simp_all
  with 1 own show ?case by (auto simp: Let_def split: if_splits)
qed

lemma health_change_keeps:
  assumes "request_keys requested"
  shows "keeps_records (\<lambda>c d. let (n, v) = apply_borked requested d in Inr (f n, 0 < n, v))"
    and "keeps_records (\<lambda>c d. if P d then Inr (x, False, d)
      else let (n, v) = apply_borked requested d in Inr (f n, 0 < n, v))"
  using apply_borked_wf [OF _ _ assms]
  by (auto intro!: keeps_recordsI split: prod.splits if_splits)

lemma marked_safe:
  assumes "\<forall>(item, reason, source)\<in>set findings. usable_item item"
  shows "pairing_safe (ran_pairing (mark_borked_many env findings))"
    and "pairing_safe (ran_pairing (mark_borked_many_if_unchanged env findings expected))"
proof -
  have "pairing_safe (ran_pairing (mark_borked_many env findings)) \<and>
      pairing_safe (ran_pairing (mark_borked_many_if_unchanged env findings expected))"
  proof (cases "borked_requests findings")
    case (Inl e)
    then show ?thesis by (simp add: mark_borked_many_def mark_borked_many_if_unchanged_def pairing_safe_def ran_pairing_def)
  next
    case (Inr requested)
    note keys = borked_requests_keys [OF Inr assms]
    show ?thesis
      using health_change_keeps(1) [OF keys, of id] health_change_keeps(2) [OF keys, of _ _ "\<lambda>n. (n, True)"]
      unfolding mark_borked_many_def mark_borked_many_if_unchanged_def Inr sum.case
      by (auto intro!: safe_guarded pairing_safe_mutate)
  qed
  then show "pairing_safe (ran_pairing (mark_borked_many env findings))"
    and "pairing_safe (ran_pairing (mark_borked_many_if_unchanged env findings expected))" by simp_all
qed

lemma cleared_identity:
  "id_source i \<noteq> [] \<Longrightarrow> identity_key i = identity_key (pr_identity p) \<Longrightarrow> wf_pairing p \<Longrightarrow> pr_identity p = i"
  using identity_key_inj [of i "pr_identity p"] by (simp add: wf_pairing_def)

lemma pairing_operation_safe: "pairing_operation f \<Longrightarrow> pairing_safe f"
proof (induction rule: pairing_operation.induct)
  case (op_still item s env)
  then show ?case unfolding choose_still_def
    by (intro pairing_safe_mutate choose_record_keeps usable_identity) (auto simp: usable_still_def wf_pairing_def)
next
  case (op_palette item p env keep)
  have "keeps_records (\<lambda>c d. choose_record (media_id_of item) pr_still
      (\<lambda>q. if keep \<and> map_of d (identity_key (media_id_of item)) \<noteq> None
            then p\<lparr>pol_mode := pol_mode (pr_palette q)\<rparr> else p) c d)"
  proof (rule keeps_recordsI)
    fix c and d :: pairing_records and x b v
    let ?pal = "\<lambda>q. if keep \<and> map_of d (identity_key (media_id_of item)) \<noteq> None
            then p\<lparr>pol_mode := pol_mode (pr_palette q)\<rparr> else p"
    assume "wf_records d" "choose_record (media_id_of item) pr_still ?pal c d = Inr (x, b, v)"
    moreover have "keeps_records (choose_record (media_id_of item) pr_still ?pal)"
      using op_palette by (intro choose_record_keeps usable_identity) (auto simp: wf_pairing_def wf_palette_def)
    ultimately show "wf_records v" unfolding keeps_records_def by blast
  qed
  then show ?case unfolding choose_palette_def by (rule pairing_safe_mutate)
next
  case (op_mode item env m)
  then show ?case unfolding choose_mode_def
    by (intro pairing_safe_mutate choose_record_keeps usable_identity) (auto simp: wf_pairing_def wf_palette_def)
next
  case (op_marked findings env)
  then show ?case by (rule marked_safe)
next
  case (op_marked_one item env reason source)
  have "pairing_safe (ran_pairing (mark_borked_many env [(item, reason, source)]))"
    using op_marked_one by (intro marked_safe) simp
  then show ?case by (simp add: mark_borked_def pairing_safe_def ran_pairing_def split_beta)
next
  case (op_synced findings env expected)
  then show ?case by (rule marked_safe)
next
  case (op_cleared item env)
  show ?case unfolding clear_borked_def
  proof (intro pairing_safe_mutate keeps_recordsI, goal_cases)
    case (1 c d x b v)
    show ?case
    proof (cases "map_of d (identity_key (media_id_of item))")
      case None
      with 1 show ?thesis by simp
    next
      case (Some p)
      from wf_records_lookup [OF 1(1) Some] have "wf_pairing p" "pr_identity p = media_id_of item"
        using cleared_identity [OF usable_identity [OF op_cleared]] by auto
      then have "wf_records (keep_or_drop c (media_id_of item) (p\<lparr>pr_health := Healthy\<rparr>) d)"
        by (intro keep_or_drop_wf 1(1)) simp_all
      with 1 Some show ?thesis by (auto split: if_splits)
    qed
  qed
next
  case (op_reset item env)
  have blank: "wf_pairing ((blank_pairing (media_id_of item))\<lparr>pr_health := h, pr_renderer := o'\<rparr>)"
    if "wf_overrides o'" for h o'
    using that usable_identity [OF op_reset] by (simp add: wf_pairing_def blank_pairing_def)
  show ?case unfolding reset_pairing_def
  proof (intro pairing_safe_mutate keeps_recordsI, goal_cases)
    case (1 c d x b v)
    show ?case
    proof (cases "map_of d (identity_key (media_id_of item))")
      case None
      with 1 show ?thesis by simp
    next
      case (Some p)
      from wf_records_lookup [OF 1(1) Some] have "wf_overrides (pr_renderer p)" by (simp add: wf_pairing_def)
      then have "wf_records (keep_or_drop c (media_id_of item)
          ((blank_pairing (media_id_of item))\<lparr>pr_health := pr_health p, pr_renderer := pr_renderer p\<rparr>) d)"
        by (intro keep_or_drop_wf 1(1) blank) simp_all
      with 1 Some show ?thesis by simp
    qed
  qed
next
  case (op_dial item env renderer key v)
  then have "pairing_safe (ran_pairing (first_of (edit_renderer env item (with_dial renderer key v))))"
    using with_dial_wf by (intro safe_result edit_renderer_safe) blast+
  then show ?case
    by (auto simp: set_dial_def pairing_safe_def ran_pairing_def Let_def split: sum.splits)
next
  case (op_property item env name t)
  then have "pairing_safe (ran_pairing (first_of (edit_renderer env item (with_property name t))))"
    using with_property_wf by (intro safe_result edit_renderer_safe) blast+
  then show ?case
    by (auto simp: set_property_def pairing_safe_def ran_pairing_def split: sum.splits)
next
  case (op_reset_renderer item env)
  then show ?case unfolding reset_renderer_def by (intro safe_result edit_renderer_safe) auto
next
  case (op_forget_identity env i)
  show ?case unfolding forget_identity_def
    by (intro pairing_safe_mutate keeps_recordsI) (auto intro: wf_records_delete split: if_splits)
next
  case (op_forget_item env item removed)
  show ?case unfolding forget_item_def by (intro pairing_safe_mutate forget_records_keeps)
next
  case (op_forget_path env path)
  show ?case unfolding forget_pairing_path_def by (intro pairing_safe_mutate forget_records_keeps)
next
  case (op_adopt item removed)
  show ?case using forget_records_keeps
    by (auto simp: pairing_safe_def adopt_worker_forget_item_def keeps_records_def split: sum.splits)
qed

text \<open>Several processes with a store each, over one file anyone may write.\<close>

inductive pairing_system ::
  "(nat \<Rightarrow> pairing_records store) \<times> world \<Rightarrow> (nat \<Rightarrow> pairing_records store) \<times> world \<Rightarrow> bool"
where
  pairing_ran: "pairing_operation f \<Longrightarrow> f (sts p) w = (st1, w1) \<Longrightarrow>
    pairing_system (sts, w) (sts(p := st1), w1)"
| pairing_opened: "open_pairings w = Inr st \<Longrightarrow> pairing_system (sts, w) (sts(p := st), w)"
| pairing_copied: "worker_copy_pairings rebase (sts p) w = Inr st \<Longrightarrow> pairing_system (sts, w) (sts(q := st), w)"
| pairing_edited: "pairing_system (sts, w) (sts, w\<lparr>w_node := n\<rparr>)"

lemma open_pairings_wf: "open_store pairings_ops w = Inr st \<Longrightarrow> wf_records (st_value st)"
  using read_pairings_wf by (auto simp: open_store_def pairings_ops_def split: sum.splits)

lemma pairing_system_wf:
  "pairing_system s s' \<Longrightarrow> \<forall>p. wf_records (st_value (fst s p)) \<Longrightarrow> \<forall>p. wf_records (st_value (fst s' p))"
proof (induction rule: pairing_system.induct)
  case (pairing_ran f sts p w st1 w1)
  have "wf_records (st_value st1)"
    using pairing_operation_safe [OF pairing_ran(1)] pairing_ran(2,3) unfolding pairing_safe_def by (metis fst_conv)
  with pairing_ran(3) show ?case by simp
next
  case (pairing_opened w st sts p)
  then show ?case using open_pairings_wf by (simp add: open_pairings_def)
next
  case (pairing_copied rebase sts p w st q)
  then have "wf_records (st_value st)"
    using open_pairings_wf by (auto simp: worker_copy_pairings_def worker_copy_def split: if_splits)
  with pairing_copied.prems show ?case by simp
qed simp

lemma pairing_reachable_wf:
  "pairing_system\<^sup>*\<^sup>* s s' \<Longrightarrow> \<forall>p. wf_records (st_value (fst s p)) \<Longrightarrow> \<forall>p. wf_records (st_value (fst s' p))"
  by (induction rule: rtranclp_induct) (simp_all add: pairing_system_wf)

section \<open>What is saved reads back\<close>

lemma map_of_retidy: "map_of (map (map_prod id retidy) d) k = map_option retidy (map_of d k)"
  by (induction d) auto

lemma map_of_sort_key: "distinct (map fst d) \<Longrightarrow> map_of (sort_key fst d) = map_of d"
  by (rule ext) (metis distinct_keys_sort map_of_eq_Some_iff not_None_eq set_sort)

text \<open>Whatever unknown fields are put back.\<close>

lemma read_saved_pairings:
  assumes "wf_records d" "length d \<le> MAX_PAIRINGS"
    and "rendered_size (JObj (pairings_document d u)) \<le> MAX_PAIRINGS_BYTES" "json_encodable (JObj (pairings_document d u))"
  obtains r where
    "read_pairings (Regular (rendered_size (JObj (pairings_document d u))) (Decoded (JObj (pairings_document d u)))) = Inr r"
    "r_fault r = None" "\<not> r_newer r" "\<forall>k. map_of (r_value r) k = map_option retidy (map_of d k)"
proof -
  note read_object_written [OF assms(3,4)]
  moreover have "newer_version_fault 2 (pairings_document d u) = None"
    unfolding pairings_read_merged by (simp add: newer_version_fault_def plain_pairings_def)
  moreover have "distinct (map fst d)" using assms(1) by (simp add: wf_records_def)
  ultimately show ?thesis
    using that by (simp add: read_pairings_def pairings_read_merged parse_plain_pairings [OF assms(1,2)]
      map_of_retidy map_of_sort_key)
qed

lemma parsed_length:
  "parse_pairing_list found malformed duplicate xs = (d, m, n) \<Longrightarrow> length d \<le> length found + length xs"
proof (induction xs arbitrary: found malformed duplicate)
  case (Cons raw rest)
  have more: "length (AList.update k v ps) \<le> Suc (length ps)" for k v and ps :: pairing_records
    by (induction ps) auto
  show ?case
  proof (cases "pairing_of_json raw")
    case None
    then have "parse_pairing_list found (Suc malformed) duplicate rest = (d, m, n)"
      using Cons.prems by (cases raw) simp_all
    from Cons.IH [OF this] show ?thesis by simp
  next
    case (Some p)
    then obtain o' where "raw = JObj o'" by (auto simp: pairing_of_json_def split: json.splits)
    with Some Cons.prems Cons.IH more [of "identity_key (pr_identity p)" p found] show ?thesis
      by (fastforce simp: Let_def)
  qed
qed simp

lemma read_pairings_length: "read_pairings n = Inr r \<Longrightarrow> length (r_value r) \<le> MAX_PAIRINGS"
  by (auto simp: read_pairings_def parse_pairings_def Let_def split: prod.splits option.splits json.splits
      dest!: parsed_length)

text \<open>C33: In every state the system can reach, every record of every store stands under its own
  identity's key, once, with a source, a still that is an absolute normalized path or none, a palette the
  reader would build, renderer settings that are scalars under names of that renderer's own dials, once each
  and in dial order (their bounds are checked where they are used), and well-formed properties; and a
  record nobody customized has neither still nor palette of its own. A record need not say anything: the
  reader keeps one that holds no more than an identity.\<close>

theorem pairing_invariant:
  assumes "pairing_system\<^sup>*\<^sup>* (sts, w) (sts', w')" and "\<forall>p. wf_records (st_value (sts p))"
  shows "wf_records (st_value (sts' p))"
  using pairing_reachable_wf [OF assms(1)] assms(2) by simp

text \<open>C34: What any reachable store saves, within the record cap and whatever unknown fields are put back,
  reads back with no fault as the same records, up to the spaces the reader takes out of a health
  text.\<close>

theorem pairings_read_back:
  assumes "pairing_system\<^sup>*\<^sup>* (sts, w0) (sts', w)" and "\<forall>p. wf_records (st_value (sts p))"
    and "length (st_value (sts' p)) \<le> MAX_PAIRINGS"
    and "save_pairings env (st_value (sts' p)) u w = (Inr (), w1)"
  shows "\<exists>r. read_pairings (w_node w1) = Inr r \<and> r_fault r = None \<and> \<not> r_newer r \<and>
    (\<forall>k. map_of (r_value r) k = map_option retidy (map_of (st_value (sts' p)) k))"
proof -
  let ?d = "st_value (sts' p)" let ?doc = "JObj (pairings_document ?d u)"
  have wf: "wf_records ?d" using pairing_reachable_wf [OF assms(1)] assms(2) by simp
  from save_document_ok [OF assms(4) [unfolded save_pairings_def]]
  have "rendered_size ?doc \<le> MAX_PAIRINGS_BYTES" "json_encodable ?doc"
    and w1: "w_node w1 = Regular (rendered_size ?doc) (Decoded ?doc)" by (auto simp: pairings_ops_def)
  from read_saved_pairings [OF wf assms(3) this(1,2)] show ?thesis unfolding w1 by metis
qed

text \<open>The cut can leave a space at the end of a stored reason, which is not what reads back.\<close>

definition long_reason :: pystr where
  "long_reason = replicate 511 97 @ [32, 98]"

lemma cut_replicate:
  "cp_utf8_len c = 1 \<Longrightarrow> cut_utf8 (n + m) (replicate n c @ s) = replicate n c @ cut_utf8 m s"
  by (induction n) simp_all

lemma borked_text_untidy: "\<not> tidy_health (borked long_reason (lit ''runtime''))"
proof -
  let ?w = "replicate 511 97 :: pystr"
  have w: "is_word ?w" "is_word [98]" by (simp_all add: is_word_def no_space_def cp_isspace_def)
  have one: "cp_utf8_len 97 = 1" "cp_utf8_len 32 = 1" "cp_utf8_len 98 = 1" by code_simp+
  have "words long_reason = [?w, [98]]" "words (?w @ [32]) = [?w]"
    using words_word_append [OF w(1)] words_word_append(2) [OF w(2)]
    by (simp_all add: long_reason_def words.simps [of "[]"])
  then have texts: "collapse long_reason = ?w @ [32, 98]" "collapse (?w @ [32]) = ?w"
    by (simp_all add: collapse_def)
  have cuts: "cut_utf8 512 (?w @ [32, 98]) = ?w @ [32]" "cut_utf8 512 ?w = ?w"
    using cut_replicate [OF one(1), of 511 1 "[32, 98]"] cut_replicate [OF one(1), of 511 1 "[]"] one
    by simp_all
  have "health_text (lit ''runtime'') MAX_HEALTH_SOURCE = lit ''runtime''" by code_simp
  moreover have "health_text long_reason MAX_HEALTH_REASON = ?w @ [32]"
    "health_text (?w @ [32]) MAX_HEALTH_REASON = ?w"
    by (simp_all only: health_text_def MAX_HEALTH_REASON_def texts cuts)
  moreover have "lit ''runtime'' \<noteq> []" by code_simp
  ultimately show ?thesis by (simp add: tidy_health_def borked_def retidy_health_def)
qed

section \<open>The health sync\<close>

abbreviation with_health :: "pairing_records \<Rightarrow> pystr \<Rightarrow> media_id \<Rightarrow> health \<Rightarrow> pairing" where
  "with_health d k i h \<equiv>
     (case map_of d k of Some p \<Rightarrow> p | None \<Rightarrow> blank_pairing i)\<lparr>pr_health := h\<rparr>"

lemma apply_borked_effect:
  "distinct (map fst requested) \<Longrightarrow> apply_borked requested d = (n, v) \<Longrightarrow>
     map_of v k = (case map_of requested k of None \<Rightarrow> map_of d k | Some (i, h) \<Rightarrow> Some (with_health d k i h)) \<and>
     n = length (filter (\<lambda>(k, i, h). map_option pr_health (map_of d k) \<noteq> Some h) requested)"
proof (induction requested d arbitrary: n v rule: apply_borked.induct)
  case (2 key i h rest d)
  have fresh: "key \<notin> fst ` set rest" "distinct (map fst rest)" using 2(4) by auto
  then have none: "map_of rest key = None" by (simp add: map_of_eq_None_iff)
  show ?case
  proof (cases "map_option pr_health (map_of d key) = Some h")
    case True
    then obtain p where p: "map_of d key = Some p" "pr_health p = h" by auto
    have "p\<lparr>pr_health := h\<rparr> = p" using p(2) by (cases p) simp
    then show ?thesis using 2(2) [OF p fresh(2)] 2(5) p none by simp
  next
    case False
    let ?q = "with_health d key i h"
    obtain m where m: "apply_borked rest (AList.update key ?q d) = (m, v)" and n: "n = Suc m"
      using 2(5) False by (cases "apply_borked rest (AList.update key ?q d)") (auto split: option.splits if_splits)
    have other: "map_of (AList.update key ?q d) k = map_of d k" if "k \<in> fst ` set rest" for k
      using that fresh(1) by (auto simp: update_conv')
    have same: "filter (\<lambda>(k, i, h). map_option pr_health (map_of (AList.update key ?q d) k) \<noteq> Some h) rest =
        filter (\<lambda>(k, i, h). map_option pr_health (map_of d k) \<noteq> Some h) rest"
    proof (rule filter_cong [OF refl])
      fix x assume "x \<in> set rest"
      then have "fst x \<in> fst ` set rest" by simp
      from other [OF this]
      show "(case x of (k, i, h) \<Rightarrow> map_option pr_health (map_of (AList.update key ?q d) k) \<noteq> Some h) =
          (case x of (k, i, h) \<Rightarrow> map_option pr_health (map_of d k) \<noteq> Some h)"
        by (cases x) (simp only: prod.case fst_conv)
    qed
    have look: "map_of (AList.update key ?q d) k = (if k = key then Some ?q else map_of d k)"
      by (simp add: update_conv')
    have "map_of v k = (case map_of rest k of None \<Rightarrow> map_of (AList.update key ?q d) k
          | Some (i, h) \<Rightarrow> Some (with_health (AList.update key ?q d) k i h)) \<and>
        m = length (filter (\<lambda>(k, i, h). map_option pr_health (map_of (AList.update key ?q d) k) \<noteq> Some h) rest)"
    proof (cases "map_of d key")
      case None
      show ?thesis using m unfolding None option.case by (rule 2(1) [OF None fresh(2)])
    next
      case (Some p)
      with False have "pr_health p \<noteq> h" by simp
      then show ?thesis using m unfolding Some option.case by (rule 2(3) [OF Some _ fresh(2)])
    qed
    then have v: "map_of v k = (case map_of rest k of None \<Rightarrow> if k = key then Some ?q else map_of d k
          | Some (i, h) \<Rightarrow> Some (with_health (AList.update key ?q d) k i h))"
      and len: "m = length (filter (\<lambda>(k, i, h). map_option pr_health (map_of d k) \<noteq> Some h) rest)"
      unfolding same look by blast+
    have "n = length (filter (\<lambda>(k, i, h). map_option pr_health (map_of d k) \<noteq> Some h) ((key, i, h) # rest))"
      using False by (simp add: n len)
    moreover have "map_of v k = (case map_of ((key, i, h) # rest) k of None \<Rightarrow> map_of d k
        | Some (i, h) \<Rightarrow> Some (with_health d k i h))"
      using none unfolding v look by (cases "k = key") (simp_all split: option.split)
    ultimately show ?thesis by blast
  qed
qed simp

lemma borked_requests_distinct: "borked_requests findings = Inr requested \<Longrightarrow> distinct (map fst requested)"
proof -
  have "distinct (map fst (foldl (\<lambda>d (item, reason, source).
      AList.update (identity_key (media_id_of item)) (media_id_of item, borked reason source) d) acc fs))"
    if "distinct (map fst acc)" for acc :: "(pystr \<times> media_id \<times> health) list" and fs :: "finding list"
    using that by (induction fs arbitrary: acc) (auto simp: distinct_update)
  from this [of "[]"] show "borked_requests findings = Inr requested \<Longrightarrow> distinct (map fst requested)"
    by (auto simp: borked_requests_def split: if_splits)
qed

text \<open>C35: A conditional health sync writes only where the file, read with no fault under the lock,
  still holds the records it was given to compare, as Python compares them: then every wallpaper found has its health set and
  nothing else changed, and the count says how many were news. Otherwise, and whenever nothing is
  news, the file stays as it is; and so it does on every error.\<close>

theorem health_sync_conditional:
  assumes "borked_requests findings = Inr requested" and "requested \<noteq> []"
    and "read_pairings (w_node w) = Inr r"
    and "mark_borked_many_if_unchanged env findings expected st w = (res, st1, w1)"
  shows "(res = Inr (n, same) \<longrightarrow>
      r_fault r = None \<and> same = same_records (r_value r) expected \<and>
      (\<not> same \<longrightarrow> n = 0 \<and> st_value st1 = r_value r) \<and> (n = 0 \<longrightarrow> w1 = w) \<and>
      (same \<longrightarrow> n = length (filter (\<lambda>(k, i, h). map_option pr_health (map_of (r_value r) k) \<noteq> Some h) requested) \<and>
        (\<forall>k. map_of (st_value st1) k =
          (case map_of requested k of None \<Rightarrow> map_of (r_value r) k
           | Some (i, h) \<Rightarrow> Some (with_health (r_value r) k i h))))) \<and>
    (res = Inl e \<longrightarrow> w1 = w \<and> st_value st1 = st_value st)"
proof -
  define change :: "(nat \<times> bool) pairing_change" where
    "change = (\<lambda>carried d. if \<not> same_records d expected then Inr ((0, False), False, d)
       else let (changed, v) = apply_borked requested d in Inr ((changed, True), 0 < changed, v))"
  have run: "mutate_pairings env True False change st w = (res, st1, w1)"
    using assms(4) unfolding mark_borked_many_if_unchanged_def assms(1) sum.case if_not_P [OF assms(2)]
    by (simp only: change_def)
  show ?thesis
  proof (rule conjI [OF impI impI], goal_cases)
    case 1
    from mutate_pairings_ok [OF run [unfolded 1]] obtain r' b where r': "read_pairings (w_node w) = Inr r'"
      and clean: "r_fault r' = None"
      and ch: "change (carried_of (r_unknown r')) (r_value r') = Inr ((n, same), b, st_value st1)"
      and wr: "b \<or> w1 = w" by (metis (full_types))
    with assms(3) have r: "r' = r" by simp
    show ?case
    proof (cases "same_records (r_value r) expected")
      case False
      with ch wr clean show ?thesis by (simp add: r change_def)
    next
      case True
      obtain m v where a: "apply_borked requested (r_value r) = (m, v)"
        by (cases "apply_borked requested (r_value r)")
      with True ch have eq: "n = m" "same" "v = st_value st1" "b = (0 < m)" by (auto simp: r change_def)
      note eff = apply_borked_effect [OF borked_requests_distinct [OF assms(1)] a]
      have "\<forall>k. map_of (st_value st1) k = (case map_of requested k of None \<Rightarrow> map_of (r_value r) k
          | Some (i, h) \<Rightarrow> Some (with_health (r_value r) k i h))"
        using eff unfolding eq(3) by blast
      moreover have "n = length (filter (\<lambda>(k, i, h). map_option pr_health (map_of (r_value r) k) \<noteq> Some h) requested)"
        using eff unfolding eq(1) by blast
      ultimately show ?thesis using True clean wr eq(2,4) unfolding r eq(1) by blast
    qed
  next
    case 2
    from mutate_pairings_error [OF run [unfolded 2]] show ?case by simp
  qed
qed

section \<open>Forgetting\<close>

lemma persisted_pairings:
  assumes "wf_records d" "length d \<le> MAX_PAIRINGS" "persist pairings_ops env fault d u w = (Inr (), w1)"
  obtains r where "read_pairings (w_node w1) = Inr r" "r_fault r = None" "\<not> r_newer r"
    "\<forall>k. map_of (r_value r) k = map_option retidy (map_of d k)"
proof -
  let ?doc = "JObj (pairings_document d u)"
  from persist_ok [OF assms(3)] have fits: "rendered_size ?doc \<le> MAX_PAIRINGS_BYTES" "json_encodable ?doc"
    and w1: "w_node w1 = Regular (rendered_size ?doc) (Decoded ?doc)" by (auto simp: pairings_ops_def)
  show thesis by (rule read_saved_pairings [OF assms(1,2) fits]) (use that in \<open>simp add: w1\<close>)
qed

lemma map_of_scrub:
  "map_of (scrub_stills gone d) k =
     map_option (\<lambda>p. if \<exists>s\<in>gone. pr_still p = Some s then p\<lparr>pr_still := None\<rparr> else p) (map_of d k)"
  by (induction d) (auto simp: scrub_stills_def split: option.splits)

abbreviation without_still :: "pystr set \<Rightarrow> pairing \<Rightarrow> pairing" where
  "without_still gone p \<equiv> (if \<exists>s\<in>gone. pr_still p = Some s then p\<lparr>pr_still := None\<rparr> else p)"

lemma forget_records_effect:
  assumes "forget_records ks gone d = Inr (b, c, v)"
  shows "c = b" and "b \<longleftrightarrow> (\<exists>(k, p)\<in>set d. k \<in> set ks \<or> (\<exists>s\<in>gone. pr_still p = Some s))"
    and "\<not> b \<Longrightarrow> v = d" and "length v \<le> length d"
    and "map_of v k = (if k \<in> set ks then None else map_option (without_still gone) (map_of d k))"
proof -
  let ?left = "filter (\<lambda>(k, p). k \<notin> set ks) d"
  have eff: "v = scrub_stills gone ?left" "c = b" "b = (?left \<noteq> d \<or> chose_one_of gone ?left)"
    using assms by (auto simp: forget_records_def Let_def)
  have none: "chose_one_of gone x \<longleftrightarrow> (\<exists>(k, p)\<in>set x. \<exists>s\<in>gone. pr_still p = Some s)" for x
    by (fastforce simp: chose_one_of_def list_ex_iff split: option.splits)
  have all: "?left \<noteq> d \<longleftrightarrow> (\<exists>(k, p)\<in>set d. k \<in> set ks)" by (auto simp: filter_id_conv)
  show "c = b" by (rule eff(2))
  show "b \<longleftrightarrow> (\<exists>(k, p)\<in>set d. k \<in> set ks \<or> (\<exists>s\<in>gone. pr_still p = Some s))"
  proof (cases "?left = d")
    case True
    with all show ?thesis unfolding eff(3) none by fastforce
  next
    case False
    with all show ?thesis unfolding eff(3) by blast
  qed
  have "scrub_stills gone x = x" if "\<not> chose_one_of gone x" for x
  proof -
    have "\<forall>k p. (k, p) \<in> set x \<longrightarrow> (\<forall>s\<in>gone. pr_still p \<noteq> Some s)" using that unfolding none by blast
    then show ?thesis unfolding scrub_stills_def by (intro map_idI) (auto split: option.splits)
  qed
  then show "\<not> b \<Longrightarrow> v = d" using eff by auto
  show "length v \<le> length d" using length_filter_le [of "\<lambda>(k, p). k \<notin> set ks" d] by (simp add: eff(1) scrub_stills_def)
  show "map_of v k = (if k \<in> set ks then None else map_option (without_still gone) (map_of d k))"
    by (simp add: eff(1) map_of_scrub map_of_filter_keys)
qed

text \<open>What such a change leaves in the file once it is written.\<close>

lemma forgotten_written:
  assumes "wf_records v" "length v \<le> MAX_PAIRINGS" "persist pairings_ops env fault v u w = (Inr (), w1)"
    and v: "\<And>k. map_of v k = (if k \<in> keys then None else map_option (without_still gone) (map_of d k))"
  shows "\<exists>r. read_pairings (w_node w1) = Inr r \<and> r_fault r = None \<and> \<not> r_newer r \<and>
    (\<forall>k. map_of (r_value r) k = map_option retidy (map_of v k)) \<and> (\<forall>k\<in>keys. map_of (r_value r) k = None) \<and>
    (\<forall>k p. map_of (r_value r) k = Some p \<longrightarrow> (\<forall>s\<in>gone. pr_still p \<noteq> Some s))"
proof -
  from assms(1-3) obtain r where r: "read_pairings (w_node w1) = Inr r" "r_fault r = None" "\<not> r_newer r"
    "\<forall>k. map_of (r_value r) k = map_option retidy (map_of v k)" by (rule persisted_pairings)
  moreover have "map_of (r_value r) k = None" if "k \<in> keys" for k using that r(4) v by simp
  moreover have "pr_still p \<noteq> Some s" if s: "s \<in> gone" and p: "map_of (r_value r) k = Some p" for k p s
  proof -
    from p r(4) obtain q where q: "map_of v k = Some q" "p = retidy q" by force
    then obtain x where "without_still gone x = q" unfolding v
      by (cases "k \<in> keys"; cases "map_of d k") simp_all
    with s have "pr_still q \<noteq> Some s" by (auto split: if_splits)
    then show ?thesis by (simp add: q(2) retidy_def)
  qed
  ultimately show ?thesis by blast
qed

text \<open>C36: Forgetting an item takes its record, and those of the stills removed with it, out of the file
  it could read, and no other record chooses a removed still any more; every other choice stays. The
  answer says whether there was anything to forget, and with nothing the file is not written. The
  store of the page, mirroring the worker's answer, ends up with the same records. Where there was
  something, the file is written: it reads back with no fault as just those records (up to the spaces taken
  out of a health text), so none of the forgotten ones and no choice of a removed still is left in it.\<close>

theorem item_forgotten_everywhere:
  assumes "read_pairings (w_node w) = Inr r" and "forget_item env item removed st w = (Inr b, st1, w1)"
    and "keys = set (forget_item_keys item removed)" and "gone = insert (item_path item) (set removed)"
  shows "r_fault r = None \<and>
    (\<forall>k. map_of (st_value st1) k = (if k \<in> keys then None else
       map_option (\<lambda>p. if \<exists>s\<in>gone. pr_still p = Some s then p\<lparr>pr_still := None\<rparr> else p) (map_of (r_value r) k))) \<and>
    (b \<longleftrightarrow> (\<exists>(k, p)\<in>set (r_value r). k \<in> keys \<or> (\<exists>s\<in>gone. pr_still p = Some s))) \<and>
    (\<not> b \<longrightarrow> w1 = w \<and> st_value st1 = r_value r) \<and>
    (b \<longrightarrow> (\<exists>r1. read_pairings (w_node w1) = Inr r1 \<and> r_fault r1 = None \<and> \<not> r_newer r1 \<and>
       (\<forall>k. map_of (r_value r1) k = map_option retidy (map_of (st_value st1) k)) \<and>
       (\<forall>k\<in>keys. map_of (r_value r1) k = None) \<and>
       (\<forall>k p. map_of (r_value r1) k = Some p \<longrightarrow> (\<forall>s\<in>gone. pr_still p \<noteq> Some s)))) \<and>
    (st_value page = r_value r \<longrightarrow>
       fst (adopt_worker_forget_item item removed page) = b \<and>
       st_value (snd (adopt_worker_forget_item item removed page)) = st_value st1)"
proof -
  from mutate_pairings_ok [OF assms(2) [unfolded forget_item_def]] obtain r' c where
    "read_pairings (w_node w) = Inr r'" and clean: "r_fault r' = None"
    and ch: "forget_records (forget_item_keys item removed) gone (r_value r') = Inr (b, c, st_value st1)"
    and wr: "if c then persist pairings_ops env None (st_value st1) (r_unknown r') w = (Inr (), w1) else w1 = w"
    unfolding assms(4) by (metis (full_types))
  with assms(1) have r: "r' = r" by simp
  note eff = forget_records_effect [OF ch, unfolded r, folded assms(3)]
  have "wf_records (st_value st1)"
    using forget_records_keeps ch read_pairings_wf assms(1) unfolding keeps_records_def r by blast
  note written = forgotten_written [OF this le_trans [OF eff(4) read_pairings_length [OF assms(1)]] _ eff(5)]
  have page: "st_value page = r_value r \<longrightarrow> fst (adopt_worker_forget_item item removed page) = b \<and>
      st_value (snd (adopt_worker_forget_item item removed page)) = st_value st1"
    using ch by (simp add: adopt_worker_forget_item_def assms(4) r)
  show ?thesis
  proof (intro conjI)
    show "b \<longrightarrow> (\<exists>r1. read_pairings (w_node w1) = Inr r1 \<and> r_fault r1 = None \<and> \<not> r_newer r1 \<and>
       (\<forall>k. map_of (r_value r1) k = map_option retidy (map_of (st_value st1) k)) \<and>
       (\<forall>k\<in>keys. map_of (r_value r1) k = None) \<and>
       (\<forall>k p. map_of (r_value r1) k = Some p \<longrightarrow> (\<forall>s\<in>gone. pr_still p \<noteq> Some s)))"
    proof
      assume b
      with wr eff(1) have "persist pairings_ops env None (st_value st1) (r_unknown r') w = (Inr (), w1)" by simp
      then show "\<exists>r1. read_pairings (w_node w1) = Inr r1 \<and> r_fault r1 = None \<and> \<not> r_newer r1 \<and>
         (\<forall>k. map_of (r_value r1) k = map_option retidy (map_of (st_value st1) k)) \<and>
         (\<forall>k\<in>keys. map_of (r_value r1) k = None) \<and>
         (\<forall>k p. map_of (r_value r1) k = Some p \<longrightarrow> (\<forall>s\<in>gone. pr_still p \<noteq> Some s))" by (rule written)
    qed
  qed (use clean wr eff page r in \<open>auto simp del: split_paired_Ex\<close>)
qed

section \<open>A sample\<close>

definition sample_video :: library_item where
  "sample_video = \<lparr>item_path = lit ''/w/sea.mp4'', item_kind = Video, item_scene = [], item_title = [],
     item_paired_still = None, item_scene_base = [], item_scene_properties = [], item_web_page = False,
     item_unplayable = False, item_unplayable_reason = []\<rparr>"

definition no_file :: world where
  "no_file = \<lparr>w_node = Absent, w_backups = [], w_warnings = []\<rparr>"

definition sample_key :: pystr where
  "sample_key = lit ''video:/w/sea.mp4''"

lemma sample_chosen:
  obtains p st1 w1 where "choose_still calm sample_video (Some (lit ''/w/sea.png'')) opened_empty no_file = (Inr p, st1, w1)"
    "map_of (st_value st1) sample_key = Some p" "pr_still p = Some (lit ''/w/sea.png'')" "length (st_value st1) = 1"
    "pr_health p = Healthy"
proof -
  have "case choose_still calm sample_video (Some (lit ''/w/sea.png'')) opened_empty no_file of
      (Inl _, _) \<Rightarrow> False
    | (Inr p, st1, w1) \<Rightarrow> map_of (st_value st1) sample_key = Some p \<and> pr_still p = Some (lit ''/w/sea.png'') \<and>
        length (st_value st1) = 1 \<and> pr_health p = Healthy"
    by code_simp
  then show ?thesis
    using that by (cases "choose_still calm sample_video (Some (lit ''/w/sea.png'')) opened_empty no_file")
      (auto split: sum.splits)
qed

lemma sample_reachable:
  assumes "choose_still calm sample_video (Some (lit ''/w/sea.png'')) opened_empty no_file = (Inr p, st1, w1)"
  shows "pairing_system\<^sup>*\<^sup>* (\<lambda>_. opened_empty, no_file) ((\<lambda>_. opened_empty)(0 := st1), w1)"
proof -
  have "usable_item sample_video" "usable_still (Some (lit ''/w/sea.png''))" by code_simp+
  from pairing_ran [OF op_still [OF this, of calm], of "\<lambda>_. opened_empty" 0 no_file st1 w1]
  show ?thesis using assms by (simp add: ran_pairing_def)
qed

lemma nothing_recorded [simp]: "wf_records (st_value opened_empty)"
  by (simp add: opened_empty_def wf_records_def)

theorem pairing_invariant_witness:
  "\<exists>st1 w1. pairing_system\<^sup>*\<^sup>* (\<lambda>_. opened_empty, no_file) ((\<lambda>_. opened_empty)(0 := st1), w1) \<and>
     map_of (st_value st1) sample_key \<noteq> None \<and> wf_records (st_value st1)"
proof -
  from sample_chosen obtain p st1 w1 where
    "choose_still calm sample_video (Some (lit ''/w/sea.png'')) opened_empty no_file = (Inr p, st1, w1)"
    and "map_of (st_value st1) sample_key = Some p" by metis
  with pairing_invariant [OF sample_reachable, of p st1 w1 0] show ?thesis
    using sample_reachable by fastforce
qed

theorem pairings_read_back_witness:
  "\<exists>st1 w1 w2 r. pairing_system\<^sup>*\<^sup>* (\<lambda>_. opened_empty, no_file) ((\<lambda>_. opened_empty)(0 := st1), w1) \<and>
     save_pairings calm (st_value st1) nothing_unknown w1 = (Inr (), w2) \<and>
     read_pairings (w_node w2) = Inr r \<and> r_fault r = None \<and>
     map_option pr_still (map_of (r_value r) sample_key) = Some (Some (lit ''/w/sea.png''))"
proof -
  from sample_chosen obtain p st1 w1 where
    run: "choose_still calm sample_video (Some (lit ''/w/sea.png'')) opened_empty no_file = (Inr p, st1, w1)"
    and p: "map_of (st_value st1) sample_key = Some p" "pr_still p = Some (lit ''/w/sea.png'')"
    and one: "length (st_value st1) = 1" by metis
  have "case choose_still calm sample_video (Some (lit ''/w/sea.png'')) opened_empty no_file of
      (_, st1, w1) \<Rightarrow> fst (save_pairings calm (st_value st1) nothing_unknown w1) = Inr ()"
    by code_simp
  then have "fst (save_pairings calm (st_value st1) nothing_unknown w1) = Inr ()" by (simp add: run)
  then obtain w2 where saved: "save_pairings calm (st_value st1) nothing_unknown w1 = (Inr (), w2)"
    by (metis prod.collapse)
  have "length (st_value st1) \<le> MAX_PAIRINGS" by (simp add: one MAX_PAIRINGS_def)
  then obtain r where r: "read_pairings (w_node w2) = Inr r" "r_fault r = None"
    "\<forall>k. map_of (r_value r) k = map_option retidy (map_of (st_value st1) k)"
    using pairings_read_back [OF sample_reachable [OF run], of 0 calm nothing_unknown] saved by auto
  moreover have "pr_still (retidy p) = pr_still p" by (simp add: retidy_def)
  ultimately show ?thesis using sample_reachable [OF run] saved p by (auto intro!: exI)
qed

definition sample_records :: pairing_records where
  "sample_records = [(sample_key, (blank_pairing (media_id_of sample_video))
     \<lparr>pr_still := Some (lit ''/w/sea.png''), pr_customized := True\<rparr>)]"

definition sample_finding :: finding where
  "sample_finding = (sample_video, lit ''no  codec'', lit ''mpv'')"

theorem health_sync_conditional_witness:
  "\<exists>st1 w1. mark_borked_many_if_unchanged calm [sample_finding] sample_records opened_empty
         (holding (plain_pairings sample_records)) = (Inr (1, True), st1, w1) \<and>
     map_of (st_value st1) sample_key =
       Some (with_health sample_records sample_key (media_id_of sample_video) (Borked (lit ''no codec'') (lit ''mpv'')))"
proof -
  let ?w = "holding (plain_pairings sample_records)"
  have "case read_pairings (w_node ?w) of Inl _ \<Rightarrow> False | Inr r \<Rightarrow> r_value r = sample_records" by code_simp
  then obtain r where r: "read_pairings (w_node ?w) = Inr r" "r_value r = sample_records"
    by (auto split: sum.splits)
  let ?req = "[(sample_key, media_id_of sample_video, Borked (lit ''no codec'') (lit ''mpv''))]"
  have req: "borked_requests [sample_finding] = Inr ?req" by code_simp
  have "fst (mark_borked_many_if_unchanged calm [sample_finding] sample_records opened_empty ?w) = Inr (1, True)"
    by code_simp
  then obtain st1 w1 where run:
    "mark_borked_many_if_unchanged calm [sample_finding] sample_records opened_empty ?w = (Inr (1, True), st1, w1)"
    by (metis prod.collapse)
  have "\<forall>k. map_of (st_value st1) k = (case map_of ?req k of None \<Rightarrow> map_of (r_value r) k
      | Some (i, h) \<Rightarrow> Some (with_health (r_value r) k i h))"
    using health_sync_conditional [OF req _ r(1) run, of 1 True] by blast
  from spec [OF this, of sample_key] show ?thesis using run unfolding r(2) by (intro exI conjI) (rule run, simp)
qed

theorem item_forgotten_everywhere_witness:
  "\<exists>st1 w1. forget_item calm sample_video [lit ''/w/sea.png''] opened_empty
         (holding (plain_pairings sample_records)) = (Inr True, st1, w1) \<and>
     map_of (st_value st1) sample_key = None \<and>
     (\<exists>r1. read_pairings (w_node w1) = Inr r1 \<and> map_of (r_value r1) sample_key = None)"
proof -
  let ?w = "holding (plain_pairings sample_records)"
  have "case read_pairings (w_node ?w) of Inl _ \<Rightarrow> False | Inr r \<Rightarrow> True" by code_simp
  then obtain r where r: "read_pairings (w_node ?w) = Inr r" by (auto split: sum.splits)
  have "fst (forget_item calm sample_video [lit ''/w/sea.png''] opened_empty ?w) = Inr True" by code_simp
  then obtain st1 w1 where run:
    "forget_item calm sample_video [lit ''/w/sea.png''] opened_empty ?w = (Inr True, st1, w1)"
    by (metis prod.collapse)
  have "sample_key \<in> set (forget_item_keys sample_video [lit ''/w/sea.png''])" by code_simp
  then have "map_of (st_value st1) sample_key = None \<and>
      (\<exists>r1. read_pairings (w_node w1) = Inr r1 \<and> map_of (r_value r1) sample_key = None)"
    using item_forgotten_everywhere [OF r run refl refl, of opened_empty] by auto
  with run show ?thesis by blast
qed

end
