(* ===== verification/Runtime_Wire.thy ===== *)
theory Runtime_Wire
  imports Pairings Schedules Sha256
begin

text \<open>
  \<open>runtime_config.py\<close>: what the service's \<open>runtime.toml\<close> holds and the bounds it is checked
  against before it is installed. The document is kept both as what it says (\<open>wire_document\<close>) and as
  the text it is written as; reading that text back (\<open>tomllib\<close>) is taken to give what it says.
\<close>

section \<open>Bounds\<close>

definition SCHEMA_VERSION :: nat where "SCHEMA_VERSION = 4"
definition BATTERY_SCHEMA_VERSION :: nat where "BATTERY_SCHEMA_VERSION = 5"
definition PRESET_SCHEMA_VERSION :: nat where "PRESET_SCHEMA_VERSION = 6"
definition DIALS_SCHEMA_VERSION :: nat where "DIALS_SCHEMA_VERSION = 7"
definition NOTHING_TO_PLAY_SCHEMA_VERSION :: nat where "NOTHING_TO_PLAY_SCHEMA_VERSION = 8"
definition MAX_NOTHING_TO_PLAY_BYTES :: nat where "MAX_NOTHING_TO_PLAY_BYTES = 128"
definition MAX_RUNTIME_CONFIG_BYTES :: nat where "MAX_RUNTIME_CONFIG_BYTES = 8 * 1024 * 1024"
definition MAX_RUNTIME_OVERRIDES_BYTES :: nat where "MAX_RUNTIME_OVERRIDES_BYTES = 1024 * 1024"
definition MAX_WIRE_PLAYLISTS :: nat where "MAX_WIRE_PLAYLISTS = 578"
definition MAX_WIRE_ENTRIES :: nat where "MAX_WIRE_ENTRIES = 10000"
definition MAX_WIRE_SCHEDULES :: nat where "MAX_WIRE_SCHEDULES = 512"
definition MAX_WIRE_DISPLAYS :: nat where "MAX_WIRE_DISPLAYS = 64"
definition MAX_WIRE_NAME :: nat where "MAX_WIRE_NAME = 120"
definition MAX_WIRE_IDENTIFIER_BYTES :: nat where "MAX_WIRE_IDENTIFIER_BYTES = 256"
definition MAX_REFERENCE_BYTES :: nat where "MAX_REFERENCE_BYTES = MAX_WIRE_NAME * 4"
definition MAX_WIRE_CONNECTOR_BYTES :: nat where "MAX_WIRE_CONNECTOR_BYTES = 256"
definition MAX_OPTION_BYTES :: nat where "MAX_OPTION_BYTES = 256"
definition MAX_PATH_BYTES :: nat where "MAX_PATH_BYTES = 4096"
definition MAX_RUNTIME_RESPONSE_BYTES :: nat where "MAX_RUNTIME_RESPONSE_BYTES = 1024 * 1024"
definition STATUS_STRUCTURAL_RESERVE_BYTES :: nat where "STATUS_STRUCTURAL_RESERVE_BYTES = 256 * 1024"
definition STATUS_DIAGNOSTIC_RESERVE_BYTES :: nat where "STATUS_DIAGNOSTIC_RESERVE_BYTES = 64 * 1024"
definition STATUS_JSON_ESCAPE_FACTOR :: nat where "STATUS_JSON_ESCAPE_FACTOR = 4"
definition MAX_LIVE_OUTPUTS :: nat where "MAX_LIVE_OUTPUTS = 64"

definition FALLBACK_PLAYLIST_ID :: pystr where "FALLBACK_PLAYLIST_ID = lit ''all-media''"
definition FALLBACK_PLAYLIST_NAME :: pystr where "FALLBACK_PLAYLIST_NAME = lit ''All media''"
definition NOTHING_TO_PLAY_LABEL :: pystr where "NOTHING_TO_PLAY_LABEL = lit ''Nothing to play: ''"
definition WEB_OFF_REASON :: pystr where "WEB_OFF_REASON = lit ''web wallpapers are off''"
definition FAVOURITES_REASON :: pystr where "FAVOURITES_REASON = lit ''none of the favourites can play''"
definition EMPTY_LIBRARY_REASON :: pystr where "EMPTY_LIBRARY_REASON = lit ''nothing in the library can play''"

definition is_fallback_reference :: "pystr \<Rightarrow> bool" where
  "is_fallback_reference reference \<longleftrightarrow>
     reference = FALLBACK_PLAYLIST_ID \<or> reference = FALLBACK_PLAYLIST_NAME"

section \<open>Text checks\<close>

text \<open>\<open>_encoded_length\<close>, \<open>_has_control\<close> and the checks raise one \<open>RuntimeConfigError\<close>; here they are
  whether they pass.\<close>

definition has_control :: "pystr \<Rightarrow> bool" where
  "has_control value \<longleftrightarrow> list_ex cp_control value"

definition bounded_text :: "nat \<Rightarrow> pystr \<Rightarrow> bool" where
  "bounded_text maximum value \<longleftrightarrow>
     strip value \<noteq> [] \<and> encodable value \<and> utf8_len value \<le> maximum \<and> \<not> has_control value"

definition bounded_connector :: "pystr \<Rightarrow> bool" where
  "bounded_connector value \<longleftrightarrow>
     bounded_text MAX_WIRE_CONNECTOR_BYTES value \<and> \<not> list_ex cp_isspace value"

definition bounded_name :: "pystr \<Rightarrow> bool" where
  "bounded_name value \<longleftrightarrow>
     strip value \<noteq> [] \<and> length value \<le> MAX_WIRE_NAME \<and> \<not> has_control value \<and> encodable value"

definition absolute_path_ok :: "pystr \<Rightarrow> bool" where
  "absolute_path_ok value \<longleftrightarrow> is_absolute value \<and> bounded_text MAX_PATH_BYTES value"

definition check :: "compile_cause \<Rightarrow> bool \<Rightarrow> unit result" where
  "check cause passed = (if passed then Inr () else Inl (Err (RuntimeConfig cause)))"

lemma check_Inr [simp]: "check cause passed = Inr u \<longleftrightarrow> passed"
  by (simp add: check_def)

section \<open>Settings\<close>

text \<open>What reaches the document, and the folders it is checked with. \<open>se_dials\<close> holds the settings of
  \<open>DIAL_SETTINGS\<close> by name; each is a field of \<open>Settings\<close>.\<close>

record settings =
  se_cycle_interval :: int
  se_cycle_enabled :: bool
  se_shuffle :: bool
  se_dynamics_enabled :: bool
  se_stop_on_battery :: bool
  se_video_muted :: bool
  se_video_volume :: int
  se_video_when_hidden :: pystr
  se_video_interpolation :: pystr
  se_video_hardware_decode :: bool
  se_scene_fps :: int
  se_scene_scaling :: pystr
  se_scene_clamp :: pystr
  se_dials :: "(pystr \<times> json) list"
  se_display_mode :: pystr
  se_theme_source_connector :: pystr
  se_output :: pystr
  se_own_scene_renderer :: bool
  se_allow_web_wallpapers :: bool
  se_active_playlist :: pystr
  se_cycle_favourites_only :: bool
  se_roots :: "pystr list"
  se_preview_scheme :: pystr

definition MIRRORED :: pystr where "MIRRORED = lit ''mirrored''"
definition INDEPENDENT :: pystr where "INDEPENDENT = lit ''independent''"

definition dial_setting_value :: "settings \<Rightarrow> pystr \<Rightarrow> json" where
  "dial_setting_value s name = (case map_of (se_dials s) name of Some v \<Rightarrow> v | None \<Rightarrow> JNull)"

definition scene_muted :: "settings \<Rightarrow> bool" where
  "scene_muted s \<longleftrightarrow> dial_setting_value s (lit ''scene_muted'') = JBool True"

definition pause_when_covered :: "settings \<Rightarrow> bool" where
  "pause_when_covered s \<longleftrightarrow> dial_setting_value s (lit ''scene_pause_when_covered'') = JBool True"

definition settings_wire_ok :: "settings \<Rightarrow> bool" where
  "settings_wire_ok s \<longleftrightarrow>
     5 \<le> se_cycle_interval s \<and> se_cycle_interval s \<le> 24 * 60 * 60 \<and>
     0 \<le> se_video_volume s \<and> se_video_volume s \<le> 100 \<and>
     1 \<le> se_scene_fps s \<and> se_scene_fps s \<le> 240 \<and>
     se_video_when_hidden s \<in> {lit ''pause'', lit ''stop'', lit ''play''} \<and>
     se_video_interpolation s \<in> {lit ''off'', lit ''oversample'', lit ''linear''} \<and>
     se_scene_scaling s \<in> {[], lit ''stretch'', lit ''fit'', lit ''fill''} \<and>
     se_scene_clamp s \<in> {[], lit ''clamp'', lit ''border'', lit ''repeat''} \<and>
     se_display_mode s \<in> {MIRRORED, INDEPENDENT} \<and>
     list_all (\<lambda>d. dial_coerce d (dial_setting_value s (dial_setting d)) \<noteq> None) DIAL_SETTINGS \<and>
     (se_active_playlist s = [] \<or> bounded_text MAX_REFERENCE_BYTES (se_active_playlist s)) \<and>
     (se_output s = [] \<or> bounded_connector (se_output s)) \<and>
     (se_theme_source_connector s = [] \<or> bounded_connector (se_theme_source_connector s)) \<and>
     \<not> (se_display_mode s = INDEPENDENT \<and> se_theme_source_connector s = []) \<and>
     list_all absolute_path_ok (se_roots s)"

text \<open>The \<open>[renderer]\<close> dials added with schema 7, each only off its default.\<close>

definition renderer_dials_set :: "settings \<Rightarrow> (pystr \<times> json) list" where
  "renderer_dials_set s =
     List.map_filter (\<lambda>d.
       let v = dial_setting_value s (dial_setting d)
       in if dial_released d then None
          else if dial_setting d = lit ''video_hidden_trigger'' \<and> se_video_when_hidden s = lit ''play'' then None
          else if dial_setting d = lit ''scene_pause_only_active'' \<and> \<not> pause_when_covered s then None
          else if same_value v (dial_default d) then None else Some (dial_setting d, v)) DIAL_SETTINGS"

section \<open>What a document says\<close>

datatype wire_palette =
    Keep_Palette palette_mode
  | Adaptive_Palette pystr palette_mode
  | Named_Palette pystr pystr palette_mode

record wire_entry =
  we_id :: pystr
  we_kind :: kind
  we_still :: pystr
  we_taboo :: "(pystr \<times> pystr) option"
  we_motion :: "pystr option"
  we_video :: "(pystr \<times> json) list"
  we_scene_id :: "pystr option"
  we_scene_base :: pystr
  we_properties :: "(pystr \<times> pystr) list"
  we_scene :: "(pystr \<times> json) list"
  we_palette :: wire_palette

record wire_playlist =
  wp_id :: pystr
  wp_name :: pystr
  wp_entries :: "wire_entry list"

text \<open>The reference a schedule or display carries is the id of a playlist of the document.\<close>

record wire_document =
  wd_schema :: nat
  wd_default :: pystr
  wd_web_allowed :: bool
  wd_dials :: "(pystr \<times> json) list"
  wd_scene_muted :: bool
  wd_nothing :: pystr
  wd_playlists :: "wire_playlist list"
  wd_schedules :: "(rule \<times> pystr) list"
  wd_displays :: "(pystr \<times> pystr) list"

text \<open>
  What the compiler asks of the machine and of code it calls: where a program is
  (\<open>programs.find_program\<close>), what the engine reads of a person's value for one of a scene's declared
  properties (\<open>workshop.own_value\<close> of its setting, \<open>None\<close> where there is none), and the hexadecimal
  digest of some bytes, which is \<open>sha_hex\<close> in the program. The theorems hold for any.
\<close>

record machine =
  mc_program :: "pystr \<Rightarrow> pystr"
  mc_own_value :: "library_item \<Rightarrow> pystr \<Rightarrow> pystr \<Rightarrow> pystr option"
  mc_digest :: "nat list \<Rightarrow> pystr"

definition sha_hex :: "nat list \<Rightarrow> pystr" where
  "sha_hex bytes = hexdigest (sha256 bytes)"

text \<open>\<open>os.fsencode\<close>: an undecodable byte of a file name, kept as a lone surrogate, is that byte again.\<close>

definition fsencode :: "pystr \<Rightarrow> nat list" where
  "fsencode s = concat (map (\<lambda>c. if 56448 \<le> c \<and> c \<le> 56575 then [c - 56320] else utf8_cp c) s)"

definition entry_id_for_source :: "machine \<Rightarrow> pystr \<Rightarrow> pystr" where
  "entry_id_for_source mc source = take 16 (mc_digest mc (fsencode source))"

section \<open>The text it is written as\<close>

definition key_line :: "string \<Rightarrow> pystr \<Rightarrow> pystr" where
  "key_line key v = lit key @ lit '' = '' @ v"

definition quote_line :: "string \<Rightarrow> pystr \<Rightarrow> pystr" where
  "quote_line key v = key_line key (dumps_str v)"

definition flag_line :: "string \<Rightarrow> bool \<Rightarrow> pystr" where
  "flag_line key b = key_line key (if b then lit ''true'' else lit ''false'')"

definition int_line :: "string \<Rightarrow> int \<Rightarrow> pystr" where
  "int_line key i = key_line key (show_int i)"

definition inline_table :: "(pystr \<times> pystr) list \<Rightarrow> pystr" where
  "inline_table pairs =
     lit ''{ '' @ join (lit '', '') (map (\<lambda>(k, v). k @ lit '' = '' @ v) pairs) @ lit '' }''"

definition dial_table :: "(pystr \<times> json) list \<Rightarrow> pystr" where
  "dial_table table = inline_table (map (\<lambda>(k, v). (k, toml_value v)) table)"

definition palette_text :: "wire_palette \<Rightarrow> pystr" where
  "palette_text p =
     (let quoted = (\<lambda>(k, v). (lit k, dumps_str v))
      in inline_table (map quoted (case p of
           Keep_Palette m \<Rightarrow> [(''kind'', lit ''keep''), (''mode'', mode_value m)]
         | Adaptive_Palette scheme m \<Rightarrow>
             [(''kind'', lit ''adaptive''), (''scheme'', scheme), (''mode'', mode_value m)]
         | Named_Palette source name m \<Rightarrow>
             [(''kind'', lit ''named''), (''source'', source), (''name'', name), (''mode'', mode_value m)])))"

definition entry_text :: "wire_entry \<Rightarrow> pystr list" where
  "entry_text e =
     [lit ''[[playlists.entries]]'', quote_line ''id'' (we_id e),
      quote_line ''kind'' (kind_value (we_kind e)), quote_line ''still'' (we_still e)] @
     (case we_taboo e of
        None \<Rightarrow> []
      | Some (reason, source) \<Rightarrow>
          [key_line ''taboo'' (inline_table
             [(lit ''reason'', dumps_str reason), (lit ''source'', dumps_str source)])]) @
     (case we_motion e of None \<Rightarrow> [] | Some m \<Rightarrow> [quote_line ''motion'' m]) @
     (if we_video e = [] then [] else [key_line ''video'' (dial_table (we_video e))]) @
     (case we_scene_id e of None \<Rightarrow> [] | Some i \<Rightarrow> [quote_line ''scene_id'' i]) @
     (if we_scene_base e = [] then [] else [quote_line ''scene_base'' (we_scene_base e)]) @
     (if we_properties e = [] then []
      else [key_line ''properties''
              (inline_table (map (\<lambda>(k, v). (k, dumps_str v)) (we_properties e)))]) @
     (if we_scene e = [] then [] else [key_line ''scene'' (dial_table (we_scene e))]) @
     [key_line ''palette'' (palette_text (we_palette e))]"

definition document_head :: "machine \<Rightarrow> settings \<Rightarrow> wire_document \<Rightarrow> pystr list" where
  "document_head mc s d =
     [lit ''# Generated by Wall-in-One. Edit the library in the app, not this file.'',
      int_line ''schema_version'' (int (wd_schema d)),
      quote_line ''default_playlist'' (wd_default d),
      [],
      lit ''[settings]'',
      int_line ''cycle_interval_seconds'' (se_cycle_interval s),
      flag_line ''cycle_enabled'' (se_cycle_enabled s),
      flag_line ''shuffle'' (se_shuffle s),
      flag_line ''dynamics_enabled'' (se_dynamics_enabled s),
      quote_line ''display_mode'' (se_display_mode s),
      quote_line ''theme_source_connector'' (se_theme_source_connector s)] @
     (if se_stop_on_battery s then [flag_line ''stop_animations_on_battery'' True] else []) @
     (if wd_web_allowed d then [flag_line ''allow_web_wallpapers'' True] else []) @
     [[],
      lit ''[renderer]'',
      quote_line ''noctalia_program'' (mc_program mc (lit ''noctalia'')),
      quote_line ''mpvpaper_program'' (mc_program mc (lit ''mpvpaper'')),
      quote_line ''linux_wallpaperengine_program'' (mc_program mc (lit ''linux-wallpaperengine'')),
      flag_line ''own_scene_renderer'' (se_own_scene_renderer s),
      quote_line ''layer'' (lit ''background''),
      quote_line ''video_when_hidden'' (se_video_when_hidden s),
      flag_line ''video_hardware_decode'' (se_video_hardware_decode s),
      quote_line ''video_interpolation'' (se_video_interpolation s),
      flag_line ''video_muted'' (se_video_muted s),
      int_line ''video_volume'' (se_video_volume s),
      int_line ''scene_fps'' (se_scene_fps s),
      flag_line ''scene_muted'' (wd_scene_muted d),
      key_line ''scene_volume''
        (if wd_scene_muted d then lit ''0'' else toml_value (dial_setting_value s (lit ''scene_volume''))),
      flag_line ''scene_pause_when_covered'' (pause_when_covered s),
      quote_line ''scene_scaling'' (se_scene_scaling s),
      quote_line ''scene_clamp'' (se_scene_clamp s)] @
     map (\<lambda>(name, v). name @ lit '' = '' @ toml_value v) (wd_dials d)"

definition playlist_text :: "pystr \<Rightarrow> wire_playlist \<Rightarrow> pystr list" where
  "playlist_text nothing p =
     [[], lit ''[[playlists]]'', quote_line ''id'' (wp_id p), quote_line ''name'' (wp_name p)] @
     (if wp_entries p = [] then [quote_line ''nothing_to_play'' nothing, lit ''entries = []''] else []) @
     concat (map (\<lambda>e. [] # entry_text e) (wp_entries p))"

definition clock_text :: "int \<Rightarrow> pystr" where
  "clock_text minutes = pad2 (minutes div 60) @ 58 # pad2 (minutes mod 60)"

text \<open>A rule's window on the wire: both ends or neither.\<close>

definition wire_window :: "rule \<Rightarrow> (pystr \<times> pystr) option" where
  "wire_window r =
     (case (rule_start r, rule_end r) of
        (Some a, Some b) \<Rightarrow> Some (clock_text a, clock_text b) | _ \<Rightarrow> None)"

definition numbers_text :: "int set \<Rightarrow> pystr" where
  "numbers_text ns = 91 # join (lit '', '') (map show_int (sorted_list_of_set ns)) @ [93]"

definition schedule_text :: "rule \<times> pystr \<Rightarrow> pystr list" where
  "schedule_text = (\<lambda>(r, playlist).
     [[], lit ''[[schedules]]'', quote_line ''id'' (rule_id r), quote_line ''playlist'' playlist] @
     (if rule_connector r = [] then [] else [quote_line ''connector'' (rule_connector r)]) @
     (if rule_months r = {} then [] else [key_line ''months'' (numbers_text (rule_months r))]) @
     (if rule_weekdays r = {} then [] else [key_line ''weekdays'' (numbers_text (rule_weekdays r))]) @
     (case wire_window r of
        None \<Rightarrow> []
      | Some (a, b) \<Rightarrow> [key_line ''start'' (34 # a @ [34]), key_line ''end'' (34 # b @ [34])]) @
     [flag_line ''enabled'' (rule_enabled r)])"

definition display_text :: "pystr \<times> pystr \<Rightarrow> pystr list" where
  "display_text = (\<lambda>(connector, playlist).
     [[], lit ''[[displays]]'', quote_line ''connector'' connector, quote_line ''playlist'' playlist])"

definition document_lines :: "machine \<Rightarrow> settings \<Rightarrow> wire_document \<Rightarrow> pystr list" where
  "document_lines mc s d =
     document_head mc s d @ concat (map (playlist_text (wd_nothing d)) (wd_playlists d)) @
     concat (map schedule_text (wd_schedules d)) @ concat (map display_text (wd_displays d))"

definition lines_text :: "pystr list \<Rightarrow> pystr" where
  "lines_text lines = join [10] lines @ [10]"

text \<open>The digest of the body goes in as its third line.\<close>

definition with_generation :: "machine \<Rightarrow> pystr list \<Rightarrow> pystr" where
  "with_generation mc lines =
     lines_text (take 2 lines @ [quote_line ''config_generation'' (mc_digest mc (utf8 (lines_text lines)))] @
       drop 2 lines)"

section \<open>What is checked of it\<close>

definition programs_ok :: "machine \<Rightarrow> bool" where
  "programs_ok mc \<longleftrightarrow>
     list_all (\<lambda>name. absolute_path_ok (mc_program mc (lit name)))
       [''noctalia'', ''mpvpaper'', ''linux-wallpaperengine'']"

text \<open>\<open>_validate_playlist_identity\<close>: the folded ids and names seen so far, each with the index of its
  playlist.\<close>

fun playlist_identities_ok :: "(pystr \<times> nat) list \<Rightarrow> nat \<Rightarrow> wire_playlist list \<Rightarrow> unit result" where
  "playlist_identities_ok seen i [] = Inr ()"
| "playlist_identities_ok seen i (p # ps) =
     (let identifier = casefold (wp_id p); name = casefold (wp_name p);
          taken = (\<lambda>token. case map_of seen token of None \<Rightarrow> False | Some j \<Rightarrow> j \<noteq> i)
      in and_then (check Text_Bound (bounded_text MAX_WIRE_IDENTIFIER_BYTES (wp_id p) \<and> bounded_name (wp_name p)))
           (\<lambda>_. and_then (check Names_Conflict (\<not> taken identifier \<and> \<not> taken name))
             (\<lambda>_. playlist_identities_ok ((name, i) # (identifier, i) # seen) (Suc i) ps)))"

definition largest :: "nat list \<Rightarrow> nat" where
  "largest ns = foldl max 0 ns"

definition identity_bytes :: "wire_playlist \<Rightarrow> nat" where
  "identity_bytes p = utf8_len (wp_id p) + utf8_len (wp_name p)"

definition entry_bytes :: "pystr \<Rightarrow> wire_playlist \<Rightarrow> nat list" where
  "entry_bytes nothing p =
     (if wp_entries p = [] then [2 * utf8_len nothing + utf8_len NOTHING_TO_PLAY_LABEL]
      else map (\<lambda>e. utf8_len (we_id e) + utf8_len (we_still e)) (wp_entries p))"

text \<open>\<open>playlist_identity[identifier] = playlist_identity[name] = ...\<close>, the last one winning.\<close>

definition playlist_identity :: "wire_playlist list \<Rightarrow> (pystr \<times> wire_playlist) list" where
  "playlist_identity ps = rev (concat (map (\<lambda>p. [(wp_id p, p), (wp_name p, p)]) ps))"

definition schedule_bytes :: "(pystr \<times> wire_playlist) list \<Rightarrow> rule \<times> pystr \<Rightarrow> nat option" where
  "schedule_bytes identities = (\<lambda>(r, reference).
     map_option (\<lambda>p. utf8_len (rule_id r) + utf8_len (rule_connector r) + identity_bytes p +
         (case wire_window r of None \<Rightarrow> 0 | Some (a, b) \<Rightarrow> utf8_len a + utf8_len b))
       (map_of identities reference))"

definition status_bound :: "wire_document \<Rightarrow> nat option" where
  "status_bound d =
     (let ps = wd_playlists d; identities = playlist_identity ps;
          largest_identity = largest (map identity_bytes ps);
          largest_entry = largest (concat (map (entry_bytes (wd_nothing d)) ps));
          rules = map (schedule_bytes identities) (wd_schedules d);
          largest_connector = largest (MAX_WIRE_CONNECTOR_BYTES # map (utf8_len \<circ> fst) (wd_displays d));
          text = sum_list (map identity_bytes ps) + sum_list (map the rules) +
            (largest_connector + largest_identity * 2 + largest_entry) * (MAX_LIVE_OUTPUTS + MAX_WIRE_DISPLAYS) +
            largest_identity + largest_entry
      in if None \<in> set rules then None
         else Some (text * STATUS_JSON_ESCAPE_FACTOR + STATUS_STRUCTURAL_RESERVE_BYTES +
                STATUS_DIAGNOSTIC_RESERVE_BYTES))"

definition status_budget :: "wire_document \<Rightarrow> unit result" where
  "status_budget d =
     (case status_bound d of
        None \<Rightarrow> check Inventory_Shape False
      | Some bound \<Rightarrow> check Status_Budget (bound \<le> MAX_RUNTIME_RESPONSE_BYTES))"

text \<open>The budget, then the body's digest (\<open>str.encode\<close> raises for a lone surrogate) and the text.\<close>

definition document_text :: "machine \<Rightarrow> settings \<Rightarrow> wire_document \<Rightarrow> pystr result" where
  "document_text mc s d =
     and_then (status_budget d) (\<lambda>_.
       let lines = document_lines mc s d
       in if encodable (lines_text lines) then Inr (with_generation mc lines) else Inl ValueErr)"

definition rendered_document :: "machine \<Rightarrow> settings \<Rightarrow> wire_document \<Rightarrow> pystr result" where
  "rendered_document mc s d =
     and_then (document_text mc s d) (\<lambda>document.
       and_then (check Text_Bound (encodable document)) (\<lambda>_.
         and_then (check Document_Size (utf8_len document \<le> MAX_RUNTIME_CONFIG_BYTES))
           (\<lambda>_. Inr document)))"

definition nothing_to_play_wire :: "settings \<Rightarrow> pystr \<Rightarrow> wire_document" where
  "nothing_to_play_wire s reason =
     \<lparr>wd_schema = NOTHING_TO_PLAY_SCHEMA_VERSION, wd_default = FALLBACK_PLAYLIST_ID,
      wd_web_allowed = False, wd_dials = renderer_dials_set s, wd_scene_muted = scene_muted s,
      wd_nothing = reason,
      wd_playlists = [\<lparr>wp_id = FALLBACK_PLAYLIST_ID, wp_name = FALLBACK_PLAYLIST_NAME, wp_entries = []\<rparr>],
      wd_schedules = [], wd_displays = []\<rparr>"

definition nothing_to_play_document :: "machine \<Rightarrow> settings \<Rightarrow> pystr \<Rightarrow> pystr result" where
  "nothing_to_play_document mc s reason =
     and_then (check Settings_Wire (settings_wire_ok s)) (\<lambda>_.
       and_then (check Text_Bound (bounded_text MAX_NOTHING_TO_PLAY_BYTES reason)) (\<lambda>_.
         and_then (check Text_Bound (programs_ok mc)) (\<lambda>_.
           document_text mc s (nothing_to_play_wire s reason))))"

section \<open>The overrides beside it\<close>

definition overrides_text :: "(pystr \<times> int option \<times> bool option) list \<Rightarrow> pystr list \<Rightarrow> pystr" where
  "overrides_text rotations beating =
     lines_text
       ([lit ''# Generated by Wall-in-One beside runtime.toml. Edit playlists and displays in the app, not this file.'',
         int_line ''schema_version'' 1] @
        concat (map (\<lambda>(i, interval, shuffle).
          [[], lit ''[[playlists]]'', quote_line ''id'' i] @
          (case interval of None \<Rightarrow> [] | Some n \<Rightarrow> [int_line ''cycle_interval_seconds'' n]) @
          (case shuffle of None \<Rightarrow> [] | Some b \<Rightarrow> [flag_line ''shuffle'' b])) rotations) @
        concat (map (\<lambda>c.
          [[], lit ''[[displays]]'', quote_line ''connector'' c, flag_line ''beats_global_rules'' True]) beating))"

definition overrides_document ::
  "(pystr \<times> int option \<times> bool option) list \<Rightarrow> pystr list \<Rightarrow> pystr option result"
where
  "overrides_document rotations beating =
     (if rotations = [] \<and> beating = [] then Inr None
      else
        and_then (check Override_Interval (list_all (\<lambda>(i, interval, shuffle).
            case interval of None \<Rightarrow> True | Some n \<Rightarrow> 5 \<le> n \<and> n \<le> 24 * 60 * 60) rotations))
          (\<lambda>_. let document = overrides_text rotations beating
               in and_then (check Text_Bound (encodable document))
                    (\<lambda>_. and_then (check Document_Size (utf8_len document \<le> MAX_RUNTIME_OVERRIDES_BYTES))
                      (\<lambda>_. Inr (Some document)))))"

end
