(* ===== verification/Runtime_Compiler.thy ===== *)
theory Runtime_Compiler
  imports Runtime_Wire Playlist_Store Display_Store Favourites
begin

text \<open>
  \<open>runtime_config._compile\<close>: from the settings, the accepted library and the stores to the
  document and its overrides, and what they were built without. A message is left out, the cause of
  a refusal kept; what a playlist that plays nothing only as far as the scan could look is
  kept as the place that could not be looked at.
\<close>

section \<open>What is compiled, and for which service\<close>

record session =
  ss_settings :: settings
  ss_library :: media_library
  ss_playlists :: authored
  ss_schedules :: "rule list"
  ss_displays :: arrangement
  ss_favourites :: favourites
  ss_pairings :: pairing_records
  ss_faults :: "(pystr \<times> fault option) list"
  ss_unread :: "pystr list"

text \<open>The stores, and the list of pending removals, that are not fully read, by name.\<close>

definition authoring_faults :: "session \<Rightarrow> (pystr \<times> fault option) list" where
  "authoring_faults ss = filter (\<lambda>(name, f). f \<noteq> None) (ss_faults ss)"

text \<open>The settings compiled for, and what the live service is confirmed to read.\<close>

record build =
  bd_settings :: settings
  bd_presets :: bool
  bd_dials :: bool
  bd_nothing :: bool

definition full_build :: "settings \<Rightarrow> build" where
  "full_build s = \<lparr>bd_settings = s, bd_presets = True, bd_dials = True, bd_nothing = True\<rparr>"

definition allow_web :: "build \<Rightarrow> bool" where
  "allow_web b = se_allow_web_wallpapers (bd_settings b)"

datatype left_owner =
  Default_Owner | Schedule_Owner | Display_Owner | Preset_Owner | Dials_Owner | Nothing_Owner | Web_Owner

datatype left_why = Does_Not_Exist | Nothing_To_Play | Needs_Newer_Service | Plays_Nothing pystr

record left_out =
  lo_owner :: left_owner
  lo_owner_id :: pystr
  lo_reference :: pystr
  lo_playlist :: pystr
  lo_why :: left_why

definition note_left ::
  "left_owner \<Rightarrow> pystr \<Rightarrow> pystr \<Rightarrow> pystr \<Rightarrow> left_why \<Rightarrow> left_out"
where
  "note_left owner owner_id reference playlist why =
     \<lparr>lo_owner = owner, lo_owner_id = owner_id, lo_reference = reference, lo_playlist = playlist,
      lo_why = why\<rparr>"

definition find_playlist :: "pystr \<Rightarrow> session \<Rightarrow> playlist option" where
  "find_playlist reference ss =
     (case map_of (ss_playlists ss) reference of
        Some p \<Rightarrow> Some p
      | None \<Rightarrow> by_name (ss_playlists ss) reference)"

section \<open>One entry\<close>

definition ALL_SCHEMES :: "pystr list" where
  "ALL_SCHEMES = map lit [''m3-tonal-spot'', ''m3-content'', ''m3-fruit-salad'', ''m3-rainbow'',
     ''m3-monochrome'', ''vibrant'', ''faithful'', ''soft'', ''dysfunctional'', ''muted'']"

definition adaptive_scheme :: "palette_policy \<Rightarrow> pystr \<Rightarrow> pystr" where
  "adaptive_scheme p fallback =
     (if pol_kind p = ADAPTIVE \<and> pol_name p \<in> set ALL_SCHEMES then pol_name p else fallback)"

definition wire_palette_of :: "palette_policy \<Rightarrow> pystr \<Rightarrow> wire_palette result" where
  "wire_palette_of p generator =
     (if pol_kind p = KEEP_PALETTE then Inr (Keep_Palette (pol_mode p))
      else if pol_kind p = ADAPTIVE
        then (let scheme = adaptive_scheme p generator
              in and_then (check Text_Bound (bounded_text MAX_OPTION_BYTES scheme))
                   (\<lambda>_. Inr (Adaptive_Palette scheme (pol_mode p))))
      else if pol_kind p \<notin> {lit ''builtin'', lit ''community'', lit ''custom''} \<or> pol_name p = []
        then Inr (Keep_Palette (pol_mode p))
      else and_then (check Text_Bound (bounded_text MAX_OPTION_BYTES (pol_name p)))
             (\<lambda>_. Inr (Named_Palette (pol_kind p) (pol_name p) (pol_mode p))))"

definition own_properties_of :: "machine \<Rightarrow> library_item \<Rightarrow> renderer_overrides \<Rightarrow> (pystr \<times> pystr) list" where
  "own_properties_of mc item own =
     (if item_web_page item then []
      else List.map_filter (\<lambda>(name, v). map_option (Pair name) (mc_own_value mc item name v))
             (own_properties own))"

definition own_scene_dials :: "renderer_overrides \<Rightarrow> settings \<Rightarrow> (pystr \<times> json) list" where
  "own_scene_dials own s =
     (let table = applied_dials own (lit ''scene'')
      in if (lit ''muted'', JBool False) \<in> set table \<and> lit ''volume'' \<notin> fst ` set table \<and> scene_muted s
         then in_dial_order (lit ''scene'')
                (table @ [(lit ''volume'', dial_setting_value s (lit ''scene_volume''))])
         else table)"

text \<open>\<open>None\<close> where they are out of bounds.\<close>

definition scene_properties :: "(pystr \<times> pystr) list \<Rightarrow> (pystr \<times> pystr) list option" where
  "scene_properties properties =
     (if MAX_PROPERTIES < length properties \<or> \<not> distinct (map fst properties) then None
      else if list_all (\<lambda>(name, v). property_name name \<and> valid_property_value v) properties
        then Some (sort_key fst properties) else None)"

text \<open>An entry that is compiled, or \<open>None\<close>, and which wallpapers had settings of their own withheld.\<close>

type_synonym entry_result = "(wire_entry option \<times> pystr list) result"

definition finish_entry ::
  "palette_policy \<Rightarrow> pystr \<Rightarrow> wire_entry \<Rightarrow> pystr list \<Rightarrow> entry_result"
where
  "finish_entry policy generator e withheld =
     and_then (wire_palette_of policy generator) (\<lambda>p. Inr (Some (e\<lparr>we_palette := p\<rparr>), withheld))"

definition health_bounded :: "health \<Rightarrow> bool" where
  "health_bounded h =
     (case h of
        Healthy \<Rightarrow> True
      | Borked reason source \<Rightarrow>
          bounded_text MAX_HEALTH_REASON reason \<and> bounded_text MAX_HEALTH_SOURCE source)"

definition start_entry :: "library_item \<Rightarrow> pystr \<Rightarrow> pystr \<Rightarrow> health \<Rightarrow> wire_entry" where
  "start_entry item eid still h =
     \<lparr>we_id = eid, we_kind = item_kind item, we_still = still,
      we_taboo = (case h of Healthy \<Rightarrow> None | Borked reason source \<Rightarrow> Some (reason, source)),
      we_motion = None, we_video = [], we_scene_id = None, we_scene_base = [], we_properties = [],
      we_scene = [], we_palette = Keep_Palette Keep_Mode\<rparr>"

definition scene_entry ::
  "machine \<Rightarrow> build \<Rightarrow> library_item \<Rightarrow> pairing \<Rightarrow> wire_entry \<Rightarrow> (wire_entry option \<times> pystr list) result"
where
  "scene_entry mc b item bundle e =
     (let own = own_properties_of mc item (pr_renderer bundle);
          values = (if own \<noteq> [] \<and> bd_presets b
                    then filter (\<lambda>(name, v). name \<notin> fst ` set own) (item_scene_properties item) @ own
                    else item_scene_properties item);
          withheld = (if own \<noteq> [] \<and> \<not> bd_presets b then [item_scene item] else []);
          dials = own_scene_dials (pr_renderer bundle) (bd_settings b)
      in if \<not> is_workshop_id (item_scene item) then Inr (None, [])
         else and_then (check Text_Bound (bounded_text MAX_WIRE_IDENTIFIER_BYTES (item_scene item))) (\<lambda>_.
           if item_scene_base item \<noteq> [] \<and> \<not> is_workshop_id (item_scene_base item) then Inr (None, [])
           else case (if values = [] then Some [] else scene_properties values) of
             None \<Rightarrow> Inr (None, withheld)
           | Some properties \<Rightarrow>
               Inr (Some (e\<lparr>we_scene_id := Some (item_scene item), we_scene_base := item_scene_base item,
                            we_properties := properties,
                            we_scene := (if bd_dials b then dials else [])\<rparr>),
                    withheld @ (if dials \<noteq> [] \<and> \<not> bd_dials b then [item_scene item] else []))))"

definition video_entry :: "build \<Rightarrow> library_item \<Rightarrow> pairing \<Rightarrow> wire_entry \<Rightarrow> (wire_entry option \<times> pystr list) result" where
  "video_entry b item bundle e =
     (case pr_motion bundle of
        None \<Rightarrow> Inr (None, [])
      | Some motion \<Rightarrow>
          (if \<not> is_absolute motion then Inr (None, [])
           else and_then (check Text_Bound (absolute_path_ok motion)) (\<lambda>_.
             let dials = applied_dials (pr_renderer bundle) (lit ''video'')
             in Inr (Some (e\<lparr>we_motion := Some motion, we_video := (if bd_dials b then dials else [])\<rparr>),
                     if dials \<noteq> [] \<and> \<not> bd_dials b then [item_path item] else []))))"

definition resolved_entry ::
  "machine \<Rightarrow> build \<Rightarrow> session \<Rightarrow> library_item \<Rightarrow> pystr \<Rightarrow> (wire_entry option \<times> pystr list) result"
where
  "resolved_entry mc b ss item eid =
     (if web_off item (allow_web b) then Inr (None, [])
      else and_then (check Text_Bound (bounded_text MAX_WIRE_IDENTIFIER_BYTES eid)) (\<lambda>_.
        let bundle = resolve_accepted (ss_pairings ss) (ss_library ss) item
        in if item_unplayable item then Inr (None, [])
           else case pr_still bundle of
             None \<Rightarrow> Inr (None, [])
           | Some still \<Rightarrow>
               (if \<not> is_absolute still then Inr (None, [])
                else and_then (check Text_Bound (absolute_path_ok still)) (\<lambda>_.
                  and_then (check Text_Bound (health_bounded (pr_health bundle))) (\<lambda>_.
                    let e = start_entry item eid still (pr_health bundle)
                    in and_then (case item_kind item of
                           Still \<Rightarrow> Inr (Some e, [])
                         | Video \<Rightarrow> video_entry b item bundle e
                         | Scene \<Rightarrow> scene_entry mc b item bundle e) (\<lambda>(kept, withheld).
                         case kept of
                           None \<Rightarrow> Inr (None, withheld)
                         | Some e \<Rightarrow> finish_entry (pr_palette bundle)
                             (se_preview_scheme (ss_settings ss)) e withheld))))))"

section \<open>The playlists\<close>

definition is_preset :: "library_item \<Rightarrow> bool" where
  "is_preset item \<longleftrightarrow>
     item_kind item = Scene \<and> (item_scene_base item \<noteq> [] \<or> item_scene_properties item \<noteq> [])"

text \<open>The presets left out so far, by their Workshop id, and whose own settings were withheld.\<close>

record compile_notes =
  nt_presets :: "(pystr \<times> left_out) list"
  nt_withheld :: "pystr list"

definition no_notes :: compile_notes where
  "no_notes = \<lparr>nt_presets = [], nt_withheld = []\<rparr>"

definition entry_lines ::
  "machine \<Rightarrow> build \<Rightarrow> session \<Rightarrow> library_item \<Rightarrow> pystr \<Rightarrow> compile_notes \<Rightarrow> (wire_entry option \<times> compile_notes) result"
where
  "entry_lines mc b ss item eid n =
     (if \<not> bd_presets b \<and> is_preset item \<and> \<not> web_off item (allow_web b)
      then Inr (None,
        if item_unplayable item \<or> map_of (nt_presets n) (item_scene item) \<noteq> None then n
        else n\<lparr>nt_presets := nt_presets n @
               [(item_scene item,
                 note_left Preset_Owner (item_scene item) (item_name item) [] Needs_Newer_Service)]\<rparr>)
      else and_then (resolved_entry mc b ss item eid) (\<lambda>(e, withheld).
        Inr (e, n\<lparr>nt_withheld := nt_withheld n @ withheld\<rparr>)))"

fun fallback_entries ::
  "machine \<Rightarrow> build \<Rightarrow> session \<Rightarrow> library_item list \<Rightarrow> compile_notes \<Rightarrow> (wire_entry list \<times> compile_notes) result"
where
  "fallback_entries mc b ss [] n = Inr ([], n)"
| "fallback_entries mc b ss (item # items) n =
     and_then (entry_lines mc b ss item (entry_id_for_source mc (item_path item)) n) (\<lambda>(e, n1).
       and_then (fallback_entries mc b ss items n1) (\<lambda>(es, n2).
         Inr (case e of None \<Rightarrow> es | Some e \<Rightarrow> e # es, n2)))"

text \<open>A playlist's entries, and whether one was left out as a preset.\<close>

fun authored_entries ::
  "machine \<Rightarrow> build \<Rightarrow> session \<Rightarrow> entry list \<Rightarrow> compile_notes \<Rightarrow> (wire_entry list \<times> bool \<times> compile_notes) result"
where
  "authored_entries mc b ss [] n = Inr ([], False, n)"
| "authored_entries mc b ss (a # rest) n =
     (case by_path (library_items (ss_library ss)) (entry_path a) of
        None \<Rightarrow> authored_entries mc b ss rest n
      | Some item \<Rightarrow>
          and_then (entry_lines mc b ss item (entry_id a) n) (\<lambda>(e, n1).
            and_then (authored_entries mc b ss rest n1) (\<lambda>(es, held, n2).
              Inr (case e of
                None \<Rightarrow> (es, (map_of (nt_presets n1) (item_scene item) \<noteq> None \<and> is_preset item) \<or> held, n2)
              | Some e \<Rightarrow> (e # es, held, n2)))))"

text \<open>\<open>place.path in {path, *path.parents}\<close>.\<close>

definition within_place :: "pystr \<Rightarrow> pystr \<Rightarrow> bool" where
  "within_place path place \<longleftrightarrow>
     path_root place = path_root path \<and>
     take (length (path_parts place)) (path_parts path) = path_parts place"

definition unseen_folder :: "pystr list \<Rightarrow> unseen list \<Rightarrow> unseen option" where
  "unseen_folder sources places =
     (let refusing = filter (\<lambda>p. could_not_look (unseen_kind p)) places
      in case List.map_filter (\<lambda>source. find (\<lambda>p. within_place source (unseen_path p)) refusing) sources of
           [] \<Rightarrow> None
         | place # _ \<Rightarrow> Some place)"

text \<open>What the loop over the playlists gathers: those emitted, those that play nothing only as far as the
  scan could look, those whose presets were left out, and the rotations of their own.\<close>

record gathered =
  ga_playlists :: "wire_playlist list"
  ga_unseen :: "(pystr \<times> unseen) list"
  ga_presets_only :: "pystr list"
  ga_rotations :: "(pystr \<times> int option \<times> bool option) list"
  ga_notes :: compile_notes

definition has_rotation_override :: "playlist \<Rightarrow> bool" where
  "has_rotation_override p \<longleftrightarrow> pl_cycle p \<noteq> None \<or> pl_shuffle p \<noteq> None"

definition gather_playlist :: "session \<Rightarrow> playlist \<Rightarrow> wire_entry list \<Rightarrow> bool \<Rightarrow> gathered \<Rightarrow> gathered" where
  "gather_playlist ss p resolved held g =
     (if resolved = [] \<and> held then g\<lparr>ga_presets_only := ga_presets_only g @ [pl_id p]\<rparr>
      else if resolved = []
        then (case unseen_folder (map entry_path (pl_entries p)) (library_unseen (ss_library ss)) of
                None \<Rightarrow> g
              | Some place \<Rightarrow> g\<lparr>ga_unseen := ga_unseen g @ [(pl_id p, place)]\<rparr>)
      else g\<lparr>ga_playlists := ga_playlists g @
               [\<lparr>wp_id = pl_id p, wp_name = pl_name p, wp_entries = resolved\<rparr>],
             ga_rotations := ga_rotations g @
               (if has_rotation_override p then [(pl_id p, pl_cycle p, pl_shuffle p)] else [])\<rparr>)"

fun gather :: "machine \<Rightarrow> build \<Rightarrow> session \<Rightarrow> playlist list \<Rightarrow> gathered \<Rightarrow> gathered result" where
  "gather mc b ss [] g = Inr g"
| "gather mc b ss (p # ps) g =
     and_then (authored_entries mc b ss (pl_entries p) (ga_notes g)) (\<lambda>(resolved, held, n).
       gather mc b ss ps (gather_playlist ss p resolved held (g\<lparr>ga_notes := n\<rparr>)))"

text \<open>All media: what it holds, why it plays nothing when it does, and the place that may still hold
  something it would play.\<close>

definition starred_items :: "session \<Rightarrow> library_item list" where
  "starred_items ss =
     filter (\<lambda>item. item_path item \<in> set (ss_favourites ss)) (library_items (ss_library ss))"

definition fallback_narrowed :: "build \<Rightarrow> session \<Rightarrow> bool" where
  "fallback_narrowed b ss \<longleftrightarrow> se_cycle_favourites_only (bd_settings b) \<and> starred_items ss \<noteq> []"

definition fallback_items :: "build \<Rightarrow> session \<Rightarrow> library_item list" where
  "fallback_items b ss =
     (if fallback_narrowed b ss then starred_items ss else library_items (ss_library ss))"

definition fallback_nothing :: "build \<Rightarrow> session \<Rightarrow> wire_entry list \<Rightarrow> pystr" where
  "fallback_nothing b ss entries =
     (if entries \<noteq> [] then []
      else if list_ex (\<lambda>item. web_off item (allow_web b)) (fallback_items b ss) then WEB_OFF_REASON
      else if fallback_narrowed b ss then FAVOURITES_REASON
      else EMPTY_LIBRARY_REASON)"

definition fallback_unseen :: "build \<Rightarrow> session \<Rightarrow> wire_entry list \<Rightarrow> unseen option" where
  "fallback_unseen b ss entries =
     (if entries \<noteq> [] then None
      else if fallback_narrowed b ss
        then unseen_folder (sort (ss_favourites ss)) (library_unseen (ss_library ss))
      else find (\<lambda>p. could_not_look (unseen_kind p)) (library_unseen (ss_library ss)))"

definition gather_all :: "machine \<Rightarrow> build \<Rightarrow> session \<Rightarrow> (wire_entry list \<times> gathered) result" where
  "gather_all mc b ss =
     and_then (fallback_entries mc b ss (fallback_items b ss) no_notes) (\<lambda>(es, n).
       and_then (gather mc b ss (all_playlists (ss_playlists ss))
         \<lparr>ga_playlists = [\<lparr>wp_id = FALLBACK_PLAYLIST_ID, wp_name = FALLBACK_PLAYLIST_NAME, wp_entries = es\<rparr>],
          ga_unseen = [], ga_presets_only = [], ga_rotations = [], ga_notes = n\<rparr>) (\<lambda>g. Inr (es, g)))"

definition playlists_bounded :: "wire_playlist list \<Rightarrow> unit result" where
  "playlists_bounded ps =
     and_then (check Count_Bound (length ps \<le> MAX_WIRE_PLAYLISTS)) (\<lambda>_.
       and_then (check Count_Bound (list_all (\<lambda>p. length (wp_entries p) \<le> MAX_WIRE_ENTRIES) ps))
         (\<lambda>_. playlist_identities_ok [] 0 ps))"

section \<open>References\<close>

text \<open>What a reference is judged by: the session, the playlists emitted so far as known, those left out for
  an older service, those that may play once a place can be looked at, and the place All media waits
  for.\<close>

record reference_view =
  rv_session :: session
  rv_emitted :: "pystr list"
  rv_presets_only :: "pystr list"
  rv_unseen :: "(pystr \<times> unseen) list"
  rv_fallback_unseen :: "unseen option"

text \<open>What was left out so far, and whether anything played names All media.\<close>

type_synonym named = "left_out list \<times> bool"

definition require_known_fallback :: "reference_view \<Rightarrow> bool \<Rightarrow> unit result" where
  "require_known_fallback v implicit =
     check (Fallback_Unseen implicit) (rv_fallback_unseen v = None)"

definition runtime_playlist ::
  "reference_view \<Rightarrow> left_owner \<Rightarrow> pystr \<Rightarrow> bool \<Rightarrow> pystr \<Rightarrow> named \<Rightarrow> (pystr option \<times> named) result"
where
  "runtime_playlist v owner owner_id quiet reference = (\<lambda>(left, played).
     if is_fallback_reference reference
     then (if quiet then Inr (Some FALLBACK_PLAYLIST_ID, left, played)
           else and_then (require_known_fallback v False)
                  (\<lambda>_. Inr (Some FALLBACK_PLAYLIST_ID, left, True)))
     else case find_playlist reference (rv_session v) of
       None \<Rightarrow>
         Inr (None, if quiet then left else left @ [note_left owner owner_id reference [] Does_Not_Exist], played)
     | Some authored \<Rightarrow>
         (if pl_id authored \<in> set (rv_emitted v) then Inr (Some (pl_id authored), left, played)
          else if quiet then Inr (None, left, played)
          else if pl_id authored \<in> set (rv_presets_only v)
            then Inr (None, left @ [note_left owner owner_id reference (pl_name authored) Needs_Newer_Service], played)
          else if map_of (rv_unseen v) (pl_id authored) \<noteq> None then Inl (Err (RuntimeConfig Playlist_Unseen))
          else Inr (None, left @ [note_left owner owner_id reference (pl_name authored) Nothing_To_Play], played)))"

text \<open>The default: All media where none is saved or the saved one is left out.\<close>

definition default_reference :: "reference_view \<Rightarrow> settings \<Rightarrow> (pystr \<times> named) result" where
  "default_reference v s =
     and_then (if se_active_playlist s = [] then Inr (None, [], False)
               else runtime_playlist v Default_Owner [] False (se_active_playlist s) ([], False))
       (\<lambda>(found, left, played).
         let default_id = (case found of None \<Rightarrow> FALLBACK_PLAYLIST_ID | Some i \<Rightarrow> i)
         in if default_id \<noteq> FALLBACK_PLAYLIST_ID then Inr (default_id, left, played)
            else and_then (require_known_fallback v True) (\<lambda>_. Inr (default_id, left, True)))"

text \<open>The rules in the saved order: a rule for one display only in independent mode, one whose playlist
  cannot be used left out whole.\<close>

fun emitted_schedules ::
  "reference_view \<Rightarrow> settings \<Rightarrow> rule list \<Rightarrow> named \<Rightarrow> ((rule \<times> pystr) list \<times> named) result"
where
  "emitted_schedules v s [] st = Inr ([], st)"
| "emitted_schedules v s (r # rs) st =
     (if se_display_mode s \<noteq> INDEPENDENT \<and> rule_connector r \<noteq> [] then emitted_schedules v s rs st
      else and_then (runtime_playlist v Schedule_Owner (rule_id r) (\<not> rule_enabled r) (rule_playlist r) st)
             (\<lambda>(found, st1). and_then (emitted_schedules v s rs st1) (\<lambda>(out, st2).
               Inr (case found of None \<Rightarrow> out | Some i \<Rightarrow> (r, i) # out, st2))))"

fun emitted_displays ::
  "reference_view \<Rightarrow> (pystr \<times> pystr) list \<Rightarrow> named \<Rightarrow> ((pystr \<times> pystr) list \<times> named) result"
where
  "emitted_displays v [] st = Inr ([], st)"
| "emitted_displays v ((connector, reference) # rest) st =
     and_then (runtime_playlist v Display_Owner connector False reference st)
       (\<lambda>(found, st1). and_then (emitted_displays v rest st1) (\<lambda>(out, st2).
         Inr (case found of None \<Rightarrow> out | Some i \<Rightarrow> (connector, i) # out, st2)))"

fun schedules_ok :: "pystr list \<Rightarrow> (rule \<times> pystr) list \<Rightarrow> unit result" where
  "schedules_ok seen [] = Inr ()"
| "schedules_ok seen ((r, playlist) # rest) =
     and_then (check Text_Bound (bounded_text MAX_WIRE_IDENTIFIER_BYTES (rule_id r))) (\<lambda>_.
       and_then (check Names_Conflict (rule_id r \<notin> set seen)) (\<lambda>_.
         and_then (check Text_Bound (bounded_text MAX_REFERENCE_BYTES playlist \<and>
             (rule_connector r = [] \<or> bounded_connector (rule_connector r)))) (\<lambda>_.
           schedules_ok (rule_id r # seen) rest)))"

fun displays_ok :: "pystr list \<Rightarrow> (pystr \<times> pystr) list \<Rightarrow> unit result" where
  "displays_ok seen [] = Inr ()"
| "displays_ok seen ((connector, playlist) # rest) =
     and_then (check Text_Bound (bounded_connector connector)) (\<lambda>_.
       and_then (check Names_Conflict (connector \<notin> set seen)) (\<lambda>_.
         and_then (check Text_Bound (bounded_text MAX_REFERENCE_BYTES playlist)) (\<lambda>_.
           displays_ok (connector # seen) rest)))"

section \<open>The compilation\<close>

record compiled =
  cp_document :: pystr
  cp_wire :: wire_document
  cp_overrides :: "pystr option"
  cp_left_out :: "left_out list"
  cp_nothing :: pystr

definition carries_presets :: "wire_playlist list \<Rightarrow> bool" where
  "carries_presets ps \<longleftrightarrow>
     list_ex (\<lambda>p. list_ex (\<lambda>e. we_scene_base e \<noteq> [] \<or> we_properties e \<noteq> []) (wp_entries p)) ps"

definition carries_dials :: "wire_playlist list \<Rightarrow> bool" where
  "carries_dials ps \<longleftrightarrow>
     list_ex (\<lambda>p. list_ex (\<lambda>e. we_video e \<noteq> [] \<or> we_scene e \<noteq> []) (wp_entries p)) ps"

text \<open>The \<open>[renderer]\<close> dials that are written, and whether any setting was withheld.\<close>

definition dial_lines :: "build \<Rightarrow> (pystr \<times> json) list" where
  "dial_lines b = (if bd_dials b then renderer_dials_set (bd_settings b) else [])"

definition any_withheld :: "build \<Rightarrow> compile_notes \<Rightarrow> bool" where
  "any_withheld b n \<longleftrightarrow>
     nt_withheld n \<noteq> [] \<or>
     (\<not> bd_dials b \<and> (renderer_dials_set (bd_settings b) \<noteq> [] \<or> \<not> scene_muted (bd_settings b)))"

definition schema_for :: "build \<Rightarrow> pystr \<Rightarrow> wire_playlist list \<Rightarrow> nat" where
  "schema_for b nothing ps =
     (if (allow_web b \<and> bd_nothing b) \<or> nothing \<noteq> [] then NOTHING_TO_PLAY_SCHEMA_VERSION
      else if dial_lines b \<noteq> [] \<or> carries_dials ps then DIALS_SCHEMA_VERSION
      else if carries_presets ps then PRESET_SCHEMA_VERSION
      else if se_stop_on_battery (bd_settings b) then BATTERY_SCHEMA_VERSION
      else SCHEMA_VERSION)"

text \<open>What is said after the default and before the rules: presets and dials left out, and All media
  that plays nothing because web wallpapers are off.\<close>

definition other_left_out :: "build \<Rightarrow> compile_notes \<Rightarrow> pystr \<Rightarrow> bool \<Rightarrow> left_out list" where
  "other_left_out b n nothing played =
     map snd (nt_presets n) @
     (if any_withheld b n then [note_left Dials_Owner [] [] [] Needs_Newer_Service] else []) @
     (if nothing = WEB_OFF_REASON \<and> played
      then [note_left Nothing_Owner [] FALLBACK_PLAYLIST_ID FALLBACK_PLAYLIST_NAME (Plays_Nothing nothing)]
      else [])"

definition view_of :: "build \<Rightarrow> session \<Rightarrow> wire_entry list \<Rightarrow> gathered \<Rightarrow> reference_view" where
  "view_of b ss es g =
     \<lparr>rv_session = ss, rv_emitted = map wp_id (ga_playlists g), rv_presets_only = ga_presets_only g,
      rv_unseen = ga_unseen g, rv_fallback_unseen = fallback_unseen b ss es\<rparr>"

definition display_assignments :: "build \<Rightarrow> session \<Rightarrow> (pystr \<times> pystr) list" where
  "display_assignments b ss =
     (if se_display_mode (bd_settings b) = INDEPENDENT then all_assignments (ss_displays ss) else [])"

definition wire_of ::
  "build \<Rightarrow> pystr \<Rightarrow> pystr \<Rightarrow> wire_playlist list \<Rightarrow> (rule \<times> pystr) list \<Rightarrow> (pystr \<times> pystr) list \<Rightarrow> wire_document"
where
  "wire_of b default_id nothing ps rules displays =
     \<lparr>wd_schema = schema_for b nothing ps, wd_default = default_id,
      wd_web_allowed = (allow_web b \<and> bd_nothing b), wd_dials = dial_lines b,
      wd_scene_muted = (scene_muted (bd_settings b) \<or> \<not> bd_dials b), wd_nothing = nothing,
      wd_playlists = ps, wd_schedules = rules, wd_displays = displays\<rparr>"

text \<open>Up to the lines: what the document says, what was gathered for it and what it leaves out.\<close>

definition compile_wire :: "machine \<Rightarrow> build \<Rightarrow> session \<Rightarrow> (wire_document \<times> gathered \<times> left_out list) result" where
  "compile_wire mc b ss =
     and_then (check Settings_Wire (settings_wire_ok (bd_settings b))) (\<lambda>_.
     and_then (check Stores_Unreadable (authoring_faults ss = [])) (\<lambda>_.
     and_then (gather_all mc b ss) (\<lambda>(es, g).
     and_then (playlists_bounded (ga_playlists g)) (\<lambda>_.
     let v = view_of b ss es g; nothing = fallback_nothing b ss es in
     and_then (default_reference v (bd_settings b)) (\<lambda>(default_id, left, played).
     and_then (check Service_Too_Old (nothing = [] \<or> bd_nothing b)) (\<lambda>_.
     and_then (check Text_Bound (programs_ok mc)) (\<lambda>_.
     and_then (emitted_schedules v (bd_settings b) (ss_schedules ss)
         (left @ other_left_out b (ga_notes g) nothing played, played)) (\<lambda>(rules, st1).
     and_then (check Count_Bound (length rules \<le> MAX_WIRE_SCHEDULES)) (\<lambda>_.
     and_then (schedules_ok [] rules) (\<lambda>_.
     and_then (emitted_displays v (display_assignments b ss) st1) (\<lambda>(displays, all_left, _).
     and_then (check Count_Bound (length displays \<le> MAX_WIRE_DISPLAYS)) (\<lambda>_.
     and_then (displays_ok [] displays) (\<lambda>_.
     Inr (wire_of b default_id nothing (ga_playlists g) rules displays, g, all_left))))))))))))))"

definition compile_runtime :: "machine \<Rightarrow> build \<Rightarrow> session \<Rightarrow> compiled result" where
  "compile_runtime mc b ss =
     and_then (compile_wire mc b ss) (\<lambda>(wire, g, left).
     and_then (rendered_document mc (bd_settings b) wire) (\<lambda>document.
     and_then (overrides_document (ga_rotations g)
         (sort (map fst (filter (\<lambda>(c, p). beats_global_rules (ss_displays ss) c) (wd_displays wire))))) (\<lambda>overrides.
     Inr \<lparr>cp_document = document, cp_wire = wire, cp_overrides = overrides, cp_left_out = left,
          cp_nothing = wd_nothing wire\<rparr>)))"

end
