(* ===== verification/Runtime_Guards.thy ===== *)
theory Runtime_Guards
  imports Runtime_Compiler Pairing_Store
begin

text \<open>
  The rest of \<open>runtime_config.py\<close> that decides: what an entry gives the runtime, which playlist a
  reference may name, what a change would break, and which of the documents publishing makes is the
  one the service holds. The answers come from the compiler's own \<open>resolved_entry\<close>; the sentences
  for a person are left out, their cases kept.
\<close>

section \<open>What can play\<close>

record playability =
  pb_compiles :: bool
  pb_plays :: bool

definition PROBE_ENTRY_ID :: pystr where "PROBE_ENTRY_ID = lit ''playability-probe''"

definition entry_playability :: "machine \<Rightarrow> session \<Rightarrow> library_item option \<Rightarrow> playability" where
  "entry_playability mc ss found =
     (case found of
        None \<Rightarrow> \<lparr>pb_compiles = False, pb_plays = False\<rparr>
      | Some item \<Rightarrow>
          (if never_played item (se_allow_web_wallpapers (ss_settings ss))
           then \<lparr>pb_compiles = False, pb_plays = False\<rparr>
           else
             let kept = (case resolved_entry mc (full_build (ss_settings ss)) ss item PROBE_ENTRY_ID of
                           Inr (Some e, _) \<Rightarrow> True | _ \<Rightarrow> False)
             in if is_borked (pairing_health (ss_pairings ss) (media_id_of item))
                then \<lparr>pb_compiles = kept, pb_plays = False\<rparr>
                else \<lparr>pb_compiles = kept, pb_plays = kept\<rparr>))"

definition library_index :: "session \<Rightarrow> pystr \<Rightarrow> library_item option" where
  "library_index ss = by_path (library_items (ss_library ss))"

definition playlist_playability :: "machine \<Rightarrow> session \<Rightarrow> entry list \<Rightarrow> playability list" where
  "playlist_playability mc ss entries =
     map (\<lambda>a. entry_playability mc ss (library_index ss (entry_path a))) entries"

section \<open>Which playlist a reference may name\<close>

definition default_playlist_id :: "pystr \<Rightarrow> session \<Rightarrow> pystr" where
  "default_playlist_id reference ss =
     (if is_fallback_reference reference then FALLBACK_PLAYLIST_ID
      else case (if reference = [] then None else find_playlist reference ss) of
        None \<Rightarrow> [] | Some p \<Rightarrow> pl_id p)"

datatype refused_use = No_Longer_Exists | Nothing_To_Play_Yet | Playback_Skips_It

definition use_refusal :: "machine \<Rightarrow> pystr \<Rightarrow> session \<Rightarrow> refused_use option" where
  "use_refusal mc reference ss =
     (if is_fallback_reference reference then None
      else case find_playlist reference ss of
        None \<Rightarrow> Some No_Longer_Exists
      | Some p \<Rightarrow>
          (let entries = playlist_playability mc ss (pl_entries p)
           in if \<not> list_ex pb_compiles entries then Some Nothing_To_Play_Yet
              else if \<not> list_ex pb_plays entries then Some Playback_Skips_It else None))"

section \<open>What a change would break\<close>

definition leaves_nothing_to_play :: "playability list \<Rightarrow> playability list \<Rightarrow> bool" where
  "leaves_nothing_to_play before after \<longleftrightarrow>
     \<not> list_ex pb_plays after \<and> (list_ex pb_plays before \<or> \<not> list_ex pb_compiles after)"

datatype playlist_use = Use_Default | Use_Rules nat | Use_Display pystr

definition playlist_uses :: "pystr \<Rightarrow> settings \<Rightarrow> session \<Rightarrow> playlist_use list" where
  "playlist_uses pid s ss =
     (let names = (\<lambda>reference. case find_playlist reference ss of None \<Rightarrow> False | Some p \<Rightarrow> pl_id p = pid);
          rules = length (filter (\<lambda>r. names (rule_playlist r)) (ss_schedules ss))
      in (if se_active_playlist s \<noteq> [] \<and> names (se_active_playlist s) then [Use_Default] else []) @
         (if rules = 0 then [] else [Use_Rules rules]) @
         map (\<lambda>(c, p). Use_Display c) (filter (\<lambda>(c, p). names p) (all_assignments (ss_displays ss))))"

datatype change_break = Leaves_Nothing_To_Play | Leaves_Only_Unusable

definition change_problem :: "playability list \<Rightarrow> playability list \<Rightarrow> bool \<Rightarrow> change_break option" where
  "change_problem before after used =
     (if used then (if leaves_nothing_to_play before after then Some Leaves_Nothing_To_Play else None)
      else if after \<noteq> [] \<and> \<not> list_ex pb_compiles after \<and> (before = [] \<or> list_ex pb_compiles before)
        then Some Leaves_Only_Unusable else None)"

definition allowed_as_already_broken :: "playability list \<Rightarrow> playability list \<Rightarrow> bool \<Rightarrow> bool" where
  "allowed_as_already_broken before after used \<longleftrightarrow>
     change_problem before after used = None \<and>
     (if used then \<not> list_ex pb_plays after else after \<noteq> [] \<and> \<not> list_ex pb_compiles after)"

text \<open>\<open>require_read\<close> for the files a question consults.\<close>

definition require_read :: "session \<Rightarrow> pystr list \<Rightarrow> unit result" where
  "require_read ss needs =
     (if list_ex (\<lambda>name. name \<in> set (ss_unread ss)) needs then Inl (Err Unreadable) else Inr ())"

definition SAVED_USES :: "pystr list" where
  "SAVED_USES = map lit [''settings'', ''playlists'', ''schedules'', ''display assignments'']"

definition uses_that_decide ::
  "playlist \<Rightarrow> playability list \<Rightarrow> settings \<Rightarrow> session \<Rightarrow> playlist_use list result"
where
  "uses_that_decide p after s ss =
     and_then (if list_ex pb_plays after then Inr () else require_read ss SAVED_USES)
       (\<lambda>_. Inr (playlist_uses (pl_id p) s ss))"

text \<open>The answer, and whether the session notes that the playlist was broken already.\<close>

definition entries_refusal ::
  "machine \<Rightarrow> playlist \<Rightarrow> entry list \<Rightarrow> settings \<Rightarrow> session \<Rightarrow> bool \<Rightarrow> (change_break option \<times> bool) result"
where
  "entries_refusal mc p after s ss taking_away =
     (let can_before = playlist_playability mc ss (pl_entries p);
          can_after = playlist_playability mc ss after
      in and_then (if taking_away then uses_that_decide p can_after s ss
                   else Inr (playlist_uses (pl_id p) s ss)) (\<lambda>uses.
           Inr (change_problem can_before can_after (uses \<noteq> []),
                allowed_as_already_broken can_before can_after (uses \<noteq> []))))"

definition emptied_by_removing ::
  "machine \<Rightarrow> pystr list \<Rightarrow> settings \<Rightarrow> session \<Rightarrow> (pystr \<times> change_break) list"
where
  "emptied_by_removing mc sources s ss =
     List.map_filter (\<lambda>p.
       let kept = filter (\<lambda>a. entry_path a \<notin> set sources) (pl_entries p)
       in if length kept = length (pl_entries p) then None
          else map_option (Pair (pl_id p))
                 (change_problem (playlist_playability mc ss (pl_entries p)) (playlist_playability mc ss kept)
                   (playlist_uses (pl_id p) s ss \<noteq> []))) (all_playlists (ss_playlists ss))"

text \<open>The playlists that hold \<open>item\<close>, one after another; the first question that cannot be answered
  ends it.\<close>

definition pairing_refusal ::
  "machine \<Rightarrow> library_item \<Rightarrow> bool \<Rightarrow> settings \<Rightarrow> session \<Rightarrow> (pystr \<times> change_break) list result"
where
  "pairing_refusal mc item compiles_after s ss =
     (let current = entry_playability mc ss (Some item);
          changed = \<lparr>pb_compiles = compiles_after,
                     pb_plays = (compiles_after \<and> \<not> is_borked (pairing_health (ss_pairings ss) (media_id_of item)))\<rparr>;
          holding = filter (\<lambda>p. list_ex (\<lambda>a. entry_path a = item_path item) (pl_entries p))
                      (all_playlists (ss_playlists ss))
      in if pb_compiles current = compiles_after then Inr []
         else and_then (map_result (\<lambda>p.
           let before = playlist_playability mc ss (pl_entries p);
               after = map (\<lambda>(a, can). if entry_path a = item_path item then changed else can)
                         (zip (pl_entries p) before)
           in and_then (uses_that_decide p after s ss) (\<lambda>uses.
                Inr (map_option (Pair (pl_id p)) (change_problem before after (uses \<noteq> []))))) holding)
           (\<lambda>answers. Inr (List.map_filter id answers)))"

definition pairing_refusals_if_unresolved ::
  "machine \<Rightarrow> library_item \<Rightarrow> session \<Rightarrow> (pystr \<times> change_break) list result"
where
  "pairing_refusals_if_unresolved mc item ss =
     (if \<not> moves (item_kind item) then Inr [] else pairing_refusal mc item False (ss_settings ss) ss)"

text \<open>\<open>new_playlist_refusal\<close>: it stops at the first that compiles.\<close>

definition new_playlist_refusal :: "machine \<Rightarrow> pystr list \<Rightarrow> session \<Rightarrow> change_break option" where
  "new_playlist_refusal mc sources ss =
     (let after = map (\<lambda>source. entry_playability mc ss (library_index ss source)) sources
      in if list_ex pb_compiles after then None else change_problem [] after False)"

definition settings_refusal :: "machine \<Rightarrow> pystr option \<Rightarrow> session \<Rightarrow> refused_use option" where
  "settings_refusal mc wanted ss =
     (case wanted of None \<Rightarrow> None | Some reference \<Rightarrow>
        if reference = [] then None else use_refusal mc reference ss)"

section \<open>Which document the service holds\<close>

text \<open>The status as \<open>_lists_schema\<close> reads it: the schemas of a version 2 answer.\<close>

definition lists_schema :: "json \<Rightarrow> nat \<Rightarrow> bool" where
  "lists_schema status schema =
     (case status of
        JObj d \<Rightarrow>
          (case (map_of d (lit ''status_version''), map_of d (lit ''supported_config_schemas'')) of
             (Some v, Some (JArr supported)) \<Rightarrow> same_value v (JInt 2) \<and> JInt (int schema) \<in> set supported
           | _ \<Rightarrow> False)
      | _ \<Rightarrow> False)"

definition asked_build :: "settings \<Rightarrow> json \<Rightarrow> build" where
  "asked_build s status =
     \<lparr>bd_settings = s, bd_presets = lists_schema status PRESET_SCHEMA_VERSION,
      bd_dials = lists_schema status DIALS_SCHEMA_VERSION,
      bd_nothing = lists_schema status NOTHING_TO_PLAY_SCHEMA_VERSION\<rparr>"

definition published_builds :: "settings \<Rightarrow> json \<Rightarrow> build list" where
  "published_builds s status =
     rev (remdups (rev (asked_build s status #
       map (\<lambda>(presets, renderer_dials, eight).
           \<lparr>bd_settings = s, bd_presets = presets, bd_dials = renderer_dials, bd_nothing = eight\<rparr>)
         [(True, True, True), (True, True, False), (True, False, False), (False, False, False)])))"

text \<open>\<open>document_generation\<close>: the token \<open>with_generation\<close> put on the third line, checked to be 64
  hexadecimal digits.\<close>

definition document_generation :: "machine \<Rightarrow> settings \<Rightarrow> compiled \<Rightarrow> pystr result" where
  "document_generation mc s c =
     (let token = mc_digest mc (utf8 (lines_text (document_lines mc s (cp_wire c))))
      in and_then (check Generation_Token (length token = 64 \<and>
             list_all (\<lambda>c. (48 \<le> c \<and> c \<le> 57) \<or> (97 \<le> c \<and> c \<le> 102)) token)) (\<lambda>_. Inr token))"

text \<open>The loop: the first document built and the first refusal so far.\<close>

fun find_published ::
  "machine \<Rightarrow> session \<Rightarrow> (compiled \<Rightarrow> pystr result) \<Rightarrow> pystr \<Rightarrow> compiled option \<Rightarrow> exn option \<Rightarrow> build list \<Rightarrow>
     compiled result"
where
  "find_published mc ss generation_of generation first refused [] =
     (case first of
        Some c \<Rightarrow> Inr c
      | None \<Rightarrow> Inl (case refused of Some e \<Rightarrow> e | None \<Rightarrow> ValueErr))"
| "find_published mc ss generation_of generation first refused (b # bs) =
     (case compile_runtime mc b ss of
        Inl e \<Rightarrow>
          (if e = Err (RuntimeConfig Service_Too_Old)
           then find_published mc ss generation_of generation first
                  (case refused of None \<Rightarrow> Some e | Some _ \<Rightarrow> refused) bs
           else Inl e)
      | Inr c \<Rightarrow>
          and_then (generation_of c) (\<lambda>token.
            if token = generation then Inr c
            else find_published mc ss generation_of generation
                   (case first of None \<Rightarrow> Some c | Some _ \<Rightarrow> first) refused bs))"

definition compiled_as_published ::
  "machine \<Rightarrow> settings \<Rightarrow> session \<Rightarrow> json \<Rightarrow> pystr \<Rightarrow> compiled result"
where
  "compiled_as_published mc s ss status generation =
     find_published mc ss (document_generation mc s) generation None None (published_builds s status)"

end
