(* ===== verification/Runtime_Facts.thy ===== *)
theory Runtime_Facts
  imports Runtime_Guards Schedule_Precedence Playlist_Identity
begin

text \<open>
  The passes of the compiler, one after another: what each emits, what it leaves out and notes, and
  what a document that was built passed. The properties of the compiler are read off these.
\<close>

section \<open>What a build passed\<close>

lemma compile_wire_passed:
  assumes "compile_wire mc b ss = Inr (wire, g, all_left)"
  obtains es default_id left played rules left1 played1 displays st2 where
    "settings_wire_ok (bd_settings b)" "authoring_faults ss = []"
    "gather_all mc b ss = Inr (es, g)" "playlists_bounded (ga_playlists g) = Inr ()"
    "default_reference (view_of b ss es g) (bd_settings b) = Inr (default_id, left, played)"
    "fallback_nothing b ss es = [] \<or> bd_nothing b"
    "emitted_schedules (view_of b ss es g) (bd_settings b) (ss_schedules ss)
       (left @ other_left_out b (ga_notes g) (fallback_nothing b ss es) played, played) =
       Inr (rules, left1, played1)"
    "length rules \<le> MAX_WIRE_SCHEDULES" "schedules_ok [] rules = Inr ()"
    "emitted_displays (view_of b ss es g) (display_assignments b ss) (left1, played1) =
       Inr (displays, all_left, st2)"
    "length displays \<le> MAX_WIRE_DISPLAYS" "displays_ok [] displays = Inr ()"
    "wire = wire_of b default_id (fallback_nothing b ss es) (ga_playlists g) rules displays"
  using assms unfolding compile_wire_def Let_def and_then_Inr check_Inr
  by (clarsimp simp: and_then_Inr split_beta)

lemma compile_passed:
  assumes "compile_runtime mc b ss = Inr c"
  obtains g where "compile_wire mc b ss = Inr (cp_wire c, g, cp_left_out c)"
    "rendered_document mc (bd_settings b) (cp_wire c) = Inr (cp_document c)"
    "overrides_document (ga_rotations g) (sort (map fst (filter
       (\<lambda>(c, p). beats_global_rules (ss_displays ss) c) (wd_displays (cp_wire c))))) = Inr (cp_overrides c)"
    "cp_nothing c = wd_nothing (cp_wire c)"
  using assms by (auto simp: compile_runtime_def and_then_Inr)

section \<open>Gathering the playlists\<close>

lemma gather_invariant:
  assumes "gather mc b ss ps g = Inr g'" and "P g"
    and "\<And>p g resolved held n. p \<in> set ps \<Longrightarrow> P g \<Longrightarrow>
      authored_entries mc b ss (pl_entries p) (ga_notes g) = Inr (resolved, held, n) \<Longrightarrow>
      P (gather_playlist ss p resolved held (g\<lparr>ga_notes := n\<rparr>))"
  shows "P g'"
  using assms
proof (induction mc b ss ps g rule: gather.induct)
  case (2 mc b ss p ps g)
  then obtain resolved held n where a: "authored_entries mc b ss (pl_entries p) (ga_notes g) = Inr (resolved, held, n)"
    and rest: "gather mc b ss ps (gather_playlist ss p resolved held (g\<lparr>ga_notes := n\<rparr>)) = Inr g'"
    by (auto simp: and_then_Inr)
  have "P (gather_playlist ss p resolved held (g\<lparr>ga_notes := n\<rparr>))" using 2(3,4) a by simp
  with 2(1) [OF rest] 2(4) show ?case by simp
qed simp

lemma gather_all_ok:
  assumes "gather_all mc b ss = Inr (es, g)"
  obtains n where "fallback_entries mc b ss (fallback_items b ss) no_notes = Inr (es, n)"
    "gather mc b ss (all_playlists (ss_playlists ss))
      \<lparr>ga_playlists = [\<lparr>wp_id = FALLBACK_PLAYLIST_ID, wp_name = FALLBACK_PLAYLIST_NAME, wp_entries = es\<rparr>],
       ga_unseen = [], ga_presets_only = [], ga_rotations = [], ga_notes = n\<rparr> = Inr g"
  using assms by (auto simp: gather_all_def and_then_Inr)

lemma unseen_folder_Some:
  assumes "unseen_folder sources places = Some place"
  shows "place \<in> set places \<and> could_not_look (unseen_kind place)"
proof -
  let ?f = "\<lambda>source. find (\<lambda>p. within_place source (unseen_path p)) (filter (\<lambda>p. could_not_look (unseen_kind p)) places)"
  have "place \<in> set (List.map_filter ?f sources)"
    using assms by (cases "List.map_filter ?f sources") (auto simp: unseen_folder_def Let_def)
  then obtain source where "?f source = Some place" by (auto simp: List.map_filter_def)
  then have "place \<in> set (filter (\<lambda>p. could_not_look (unseen_kind p)) places)"
    by (metis (no_types, lifting) find_Some_iff nth_mem)
  then show ?thesis by simp
qed

lemma gathered_shape:
  assumes "gather_all mc b ss = Inr (es, g)"
  shows "\<exists>ps. ga_playlists g =
      \<lparr>wp_id = FALLBACK_PLAYLIST_ID, wp_name = FALLBACK_PLAYLIST_NAME, wp_entries = es\<rparr> # ps \<and>
      (\<forall>p\<in>set ps. wp_entries p \<noteq> [])"
    and "\<forall>(i, interval, shuffle)\<in>set (ga_rotations g). i \<in> set (map wp_id (ga_playlists g))"
    and "ga_unseen g \<noteq> [] \<Longrightarrow> \<exists>place\<in>set (library_unseen (ss_library ss)). could_not_look (unseen_kind place)"
proof -
  obtain n where g: "gather mc b ss (all_playlists (ss_playlists ss))
      \<lparr>ga_playlists = [\<lparr>wp_id = FALLBACK_PLAYLIST_ID, wp_name = FALLBACK_PLAYLIST_NAME, wp_entries = es\<rparr>],
       ga_unseen = [], ga_presets_only = [], ga_rotations = [], ga_notes = n\<rparr> = Inr g"
    using gather_all_ok [OF assms] by metis
  show "\<exists>ps. ga_playlists g =
      \<lparr>wp_id = FALLBACK_PLAYLIST_ID, wp_name = FALLBACK_PLAYLIST_NAME, wp_entries = es\<rparr> # ps \<and>
      (\<forall>p\<in>set ps. wp_entries p \<noteq> [])"
    by (rule gather_invariant [OF g]) (auto simp: gather_playlist_def split: option.split)
  show "\<forall>(i, interval, shuffle)\<in>set (ga_rotations g). i \<in> set (map wp_id (ga_playlists g))"
    by (rule gather_invariant [OF g]) (auto simp: gather_playlist_def split: option.split)
  have "\<forall>(i, place)\<in>set (ga_unseen g). place \<in> set (library_unseen (ss_library ss)) \<and> could_not_look (unseen_kind place)"
    by (rule gather_invariant [OF g]) (auto simp: gather_playlist_def dest: unseen_folder_Some split: option.split)
  then show "ga_unseen g \<noteq> [] \<Longrightarrow> \<exists>place\<in>set (library_unseen (ss_library ss)). could_not_look (unseen_kind place)"
    by (cases "ga_unseen g") auto
qed

text \<open>What every entry the compiler keeps satisfies, every entry of the document does.\<close>

lemma authored_entries_all:
  assumes "authored_entries mc b ss as n = Inr (es, held, n')"
    and "\<And>item eid e w. resolved_entry mc b ss item eid = Inr (Some e, w) \<Longrightarrow> E e"
  shows "\<forall>e\<in>set es. E e"
  using assms
proof (induction mc b ss as n arbitrary: es held n' rule: authored_entries.induct)
  case (2 mc b ss a rest n)
  then show ?case
    by (fastforce simp: and_then_Inr entry_lines_def split: option.splits if_splits prod.splits)
qed simp

lemma fallback_entries_all:
  assumes "fallback_entries mc b ss items n = Inr (es, n')"
    and "\<And>item eid e w. resolved_entry mc b ss item eid = Inr (Some e, w) \<Longrightarrow> E e"
  shows "\<forall>e\<in>set es. E e"
  using assms
proof (induction mc b ss items n arbitrary: es n' rule: fallback_entries.induct)
  case (2 mc b ss item items n)
  then show ?case
    by (fastforce simp: and_then_Inr entry_lines_def split: option.splits if_splits prod.splits)
qed simp

lemma gathered_entries_all:
  assumes "gather_all mc b ss = Inr (es, g)"
    and "\<And>item eid e w. resolved_entry mc b ss item eid = Inr (Some e, w) \<Longrightarrow> E e"
  shows "\<forall>p\<in>set (ga_playlists g). \<forall>e\<in>set (wp_entries p). E e"
proof -
  obtain n where f: "fallback_entries mc b ss (fallback_items b ss) no_notes = Inr (es, n)"
    and g: "gather mc b ss (all_playlists (ss_playlists ss))
      \<lparr>ga_playlists = [\<lparr>wp_id = FALLBACK_PLAYLIST_ID, wp_name = FALLBACK_PLAYLIST_NAME, wp_entries = es\<rparr>],
       ga_unseen = [], ga_presets_only = [], ga_rotations = [], ga_notes = n\<rparr> = Inr g"
    using gather_all_ok [OF assms(1)] by metis
  show ?thesis
  proof (rule gather_invariant [OF g])
    fix p :: playlist and g' :: gathered and resolved held n'
    assume "\<forall>p\<in>set (ga_playlists g'). \<forall>e\<in>set (wp_entries p). E e"
      and a: "authored_entries mc b ss (pl_entries p) (ga_notes g') = Inr (resolved, held, n')"
    moreover from authored_entries_all [OF a assms(2)] have "\<forall>e\<in>set resolved. E e" .
    ultimately show "\<forall>p\<in>set (ga_playlists (gather_playlist ss p resolved held (g'\<lparr>ga_notes := n'\<rparr>))).
        \<forall>e\<in>set (wp_entries p). E e"
      by (auto simp: gather_playlist_def split: option.split)
  qed (use fallback_entries_all [OF f assms(2)] in simp)
qed

text \<open>For a service that reads presets, a playlist is emitted exactly when one of its entries is kept.\<close>

definition keeps_entry :: "machine \<Rightarrow> build \<Rightarrow> session \<Rightarrow> entry \<Rightarrow> bool" where
  "keeps_entry mc b ss a \<longleftrightarrow>
     (case by_path (library_items (ss_library ss)) (entry_path a) of
        None \<Rightarrow> False
      | Some item \<Rightarrow> (case resolved_entry mc b ss item (entry_id a) of Inr (Some e, _) \<Rightarrow> True | _ \<Rightarrow> False))"

definition entry_judged :: "machine \<Rightarrow> build \<Rightarrow> session \<Rightarrow> entry \<Rightarrow> bool" where
  "entry_judged mc b ss a \<longleftrightarrow>
     (case by_path (library_items (ss_library ss)) (entry_path a) of
        None \<Rightarrow> True | Some item \<Rightarrow> is_ok (resolved_entry mc b ss item (entry_id a)))"

lemma entry_lines_full:
  "bd_presets b \<Longrightarrow> entry_lines mc b ss item eid n = Inr (e, n') \<Longrightarrow>
     \<exists>w. resolved_entry mc b ss item eid = Inr (e, w)"
  by (auto simp: entry_lines_def and_then_Inr)

lemma authored_entries_kept:
  "bd_presets b \<Longrightarrow> authored_entries mc b ss as n = Inr (es, held, n') \<Longrightarrow>
     (es \<noteq> [] \<longleftrightarrow> (\<exists>a\<in>set as. keeps_entry mc b ss a)) \<and> (\<forall>a\<in>set as. entry_judged mc b ss a)"
proof (induction mc b ss as n arbitrary: es held n' rule: authored_entries.induct)
  case (2 mc b ss a rest n)
  show ?case
  proof (cases "by_path (library_items (ss_library ss)) (entry_path a)")
    case None
    with 2 show ?thesis by (simp add: keeps_entry_def entry_judged_def)
  next
    case (Some item)
    from 2(4) Some obtain e n1 where e: "entry_lines mc b ss item (entry_id a) n = Inr (e, n1)"
      and run: "and_then (authored_entries mc b ss rest n1) (\<lambda>(es, held, n2). Inr (case e of
          None \<Rightarrow> (es, (map_of (nt_presets n1) (item_scene item) \<noteq> None \<and> is_preset item) \<or> held, n2)
        | Some e \<Rightarrow> (e # es, held, n2))) = Inr (es, held, n')"
      by (auto simp: and_then_Inr)
    from run obtain es1 held1 n2 where rest: "authored_entries mc b ss rest n1 = Inr (es1, held1, n2)"
      by (auto simp: and_then_Inr)
    with run have es: "es = (case e of None \<Rightarrow> es1 | Some e \<Rightarrow> e # es1)" by (cases e) auto
    from entry_lines_full [OF 2(3) e] obtain w where w: "resolved_entry mc b ss item (entry_id a) = Inr (e, w)" ..
    with Some have "keeps_entry mc b ss a \<longleftrightarrow> e \<noteq> None" "entry_judged mc b ss a"
      by (auto simp: keeps_entry_def entry_judged_def split: option.splits)
    with 2(2) [OF Some 2(3) rest] es show ?thesis by (cases e) auto
  qed
qed simp

lemma gather_emits:
  assumes "bd_presets b" "gather mc b ss ps g = Inr g'"
  shows "map wp_id (ga_playlists g') = map wp_id (ga_playlists g) @
      map pl_id (filter (\<lambda>p. \<exists>a\<in>set (pl_entries p). keeps_entry mc b ss a) ps) \<and>
    (\<forall>p\<in>set ps. \<forall>a\<in>set (pl_entries p). entry_judged mc b ss a)"
  using assms
proof (induction mc b ss ps g rule: gather.induct)
  case (2 mc b ss p ps g)
  then obtain resolved held n where a: "authored_entries mc b ss (pl_entries p) (ga_notes g) = Inr (resolved, held, n)"
    and rest: "gather mc b ss ps (gather_playlist ss p resolved held (g\<lparr>ga_notes := n\<rparr>)) = Inr g'"
    by (auto simp: and_then_Inr)
  let ?g = "gather_playlist ss p resolved held (g\<lparr>ga_notes := n\<rparr>)"
  have "map wp_id (ga_playlists ?g) = map wp_id (ga_playlists g) @ (if resolved = [] then [] else [pl_id p])"
    by (auto simp: gather_playlist_def split: option.split)
  with 2(1) [OF 2(2) rest] authored_entries_kept [OF 2(2) a] show ?case
    by (cases "resolved = []") simp_all
qed simp

lemma gather_all_emits:
  assumes "bd_presets b" "gather_all mc b ss = Inr (es, g)"
  shows "set (map wp_id (ga_playlists g)) = insert FALLBACK_PLAYLIST_ID
      (pl_id ` {p \<in> set (all_playlists (ss_playlists ss)). \<exists>a\<in>set (pl_entries p). keeps_entry mc b ss a})"
    and "p \<in> set (all_playlists (ss_playlists ss)) \<Longrightarrow> a \<in> set (pl_entries p) \<Longrightarrow> entry_judged mc b ss a"
proof -
  obtain n where "gather mc b ss (all_playlists (ss_playlists ss))
      \<lparr>ga_playlists = [\<lparr>wp_id = FALLBACK_PLAYLIST_ID, wp_name = FALLBACK_PLAYLIST_NAME, wp_entries = es\<rparr>],
       ga_unseen = [], ga_presets_only = [], ga_rotations = [], ga_notes = n\<rparr> = Inr g"
    using gather_all_ok [OF assms(2)] by metis
  note g = gather_emits [OF assms(1) this]
  from g show "set (map wp_id (ga_playlists g)) = insert FALLBACK_PLAYLIST_ID
      (pl_id ` {p \<in> set (all_playlists (ss_playlists ss)). \<exists>a\<in>set (pl_entries p). keeps_entry mc b ss a})"
    by (simp add: set_filter)
  from g show "p \<in> set (all_playlists (ss_playlists ss)) \<Longrightarrow> a \<in> set (pl_entries p) \<Longrightarrow> entry_judged mc b ss a"
    by blast
qed

section \<open>References\<close>

text \<open>The playlist of the document that a saved reference stands for.\<close>

definition built_reference :: "pystr list \<Rightarrow> session \<Rightarrow> pystr \<Rightarrow> pystr option" where
  "built_reference ids ss reference =
     (if is_fallback_reference reference then Some FALLBACK_PLAYLIST_ID
      else case find_playlist reference ss of
        None \<Rightarrow> None
      | Some p \<Rightarrow> if pl_id p \<in> set ids then Some (pl_id p) else None)"

text \<open>What is said of one that stands for none.\<close>

definition reference_note :: "reference_view \<Rightarrow> left_owner \<Rightarrow> pystr \<Rightarrow> pystr \<Rightarrow> left_out" where
  "reference_note v owner owner_id reference =
     (case find_playlist reference (rv_session v) of
        None \<Rightarrow> note_left owner owner_id reference [] Does_Not_Exist
      | Some p \<Rightarrow> note_left owner owner_id reference (pl_name p)
          (if pl_id p \<in> set (rv_presets_only v) then Needs_Newer_Service else Nothing_To_Play))"

lemma runtime_playlist_ok:
  "runtime_playlist v owner owner_id quiet reference (left, played) = Inr (found, left1, played1) \<Longrightarrow>
     found = built_reference (rv_emitted v) (rv_session v) reference \<and>
     left1 = left @ (if found = None \<and> \<not> quiet then [reference_note v owner owner_id reference] else [])"
  by (auto simp: runtime_playlist_def built_reference_def reference_note_def and_then_Inr
      split: if_splits option.splits)

lemma runtime_playlist_error:
  "runtime_playlist v owner owner_id quiet reference st = Inl e \<Longrightarrow>
     (e = Err (RuntimeConfig (Fallback_Unseen False)) \<and> rv_fallback_unseen v \<noteq> None) \<or>
     (e = Err (RuntimeConfig Playlist_Unseen) \<and> rv_unseen v \<noteq> [])"
  by (auto simp: runtime_playlist_def require_known_fallback_def check_def and_then_def
      split: if_splits option.splits prod.splits)

text \<open>The rules a mode compiles: those for one display only in independent mode.\<close>

definition compiled_in :: "settings \<Rightarrow> rule \<Rightarrow> bool" where
  "compiled_in s r \<longleftrightarrow> se_display_mode s = INDEPENDENT \<or> rule_connector r = []"

definition emits_rule :: "reference_view \<Rightarrow> settings \<Rightarrow> rule \<Rightarrow> (rule \<times> pystr) option" where
  "emits_rule v s r =
     (if compiled_in s r
      then map_option (Pair r) (built_reference (rv_emitted v) (rv_session v) (rule_playlist r)) else None)"

lemma emitted_schedules_ok:
  "emitted_schedules v s rs (left, played) = Inr (out, left1, played1) \<Longrightarrow>
     out = List.map_filter (emits_rule v s) rs \<and>
     left1 = left @ map (\<lambda>r. reference_note v Schedule_Owner (rule_id r) (rule_playlist r))
       (filter (\<lambda>r. compiled_in s r \<and> rule_enabled r \<and> emits_rule v s r = None) rs)"
proof (induction rs arbitrary: left played out)
  case (Cons r rs)
  show ?case
  proof (cases "compiled_in s r")
    case False
    with Cons show ?thesis
      by (auto simp: compiled_in_def emits_rule_def List.map_filter_simps)
  next
    case True
    with Cons.prems obtain found left' played' out' where
      found: "runtime_playlist v Schedule_Owner (rule_id r) (\<not> rule_enabled r) (rule_playlist r) (left, played) =
        Inr (found, left', played')"
      and rest: "emitted_schedules v s rs (left', played') = Inr (out', left1, played1)"
      and out: "out = (case found of None \<Rightarrow> out' | Some i \<Rightarrow> (r, i) # out')"
      by (auto simp: compiled_in_def and_then_Inr split: if_splits)
    have emits: "emits_rule v s r = map_option (Pair r) found"
      using True runtime_playlist_ok [OF found] by (simp add: emits_rule_def)
    have left: "left' = left @ (if found = None \<and> rule_enabled r
        then [reference_note v Schedule_Owner (rule_id r) (rule_playlist r)] else [])"
      using runtime_playlist_ok [OF found] by simp
    from Cons.IH [OF rest] out True show ?thesis
      by (cases found) (simp_all add: emits left List.map_filter_simps)
  qed
qed (simp add: List.map_filter_simps)

lemma emitted_displays_ok:
  "emitted_displays v as (left, played) = Inr (out, left1, st) \<Longrightarrow>
     out = List.map_filter (\<lambda>(c, reference). map_option (Pair c)
       (built_reference (rv_emitted v) (rv_session v) reference)) as \<and>
     left1 = left @ map (\<lambda>(c, reference). reference_note v Display_Owner c reference)
       (filter (\<lambda>(c, reference). built_reference (rv_emitted v) (rv_session v) reference = None) as)"
proof (induction as arbitrary: left played out)
  case (Cons a as)
  obtain c reference where a: "a = (c, reference)" by (cases a)
  with Cons.prems obtain found left' played' out' where
    found: "runtime_playlist v Display_Owner c False reference (left, played) = Inr (found, left', played')"
    and rest: "emitted_displays v as (left', played') = Inr (out', left1, st)"
    and out: "out = (case found of None \<Rightarrow> out' | Some i \<Rightarrow> (c, i) # out')"
    by (auto simp: and_then_Inr)
  have built: "built_reference (rv_emitted v) (rv_session v) reference = found"
    using runtime_playlist_ok [OF found] by simp
  have left: "left' = left @ (if found = None then [reference_note v Display_Owner c reference] else [])"
    using runtime_playlist_ok [OF found] by simp
  from Cons.IH [OF rest] out show ?case
    by (cases found) (simp_all add: a built left List.map_filter_simps)
qed (simp add: List.map_filter_simps)

lemma default_reference_ok:
  assumes "default_reference v s = Inr (d, left, played)"
  shows "d = (if se_active_playlist s = [] then FALLBACK_PLAYLIST_ID
      else case built_reference (rv_emitted v) (rv_session v) (se_active_playlist s) of
        None \<Rightarrow> FALLBACK_PLAYLIST_ID | Some i \<Rightarrow> i)"
    and "left = (if se_active_playlist s \<noteq> [] \<and>
          built_reference (rv_emitted v) (rv_session v) (se_active_playlist s) = None
        then [reference_note v Default_Owner [] (se_active_playlist s)] else [])"
proof -
  have "d = (if se_active_playlist s = [] then FALLBACK_PLAYLIST_ID
      else case built_reference (rv_emitted v) (rv_session v) (se_active_playlist s) of
        None \<Rightarrow> FALLBACK_PLAYLIST_ID | Some i \<Rightarrow> i) \<and>
    left = (if se_active_playlist s \<noteq> [] \<and>
          built_reference (rv_emitted v) (rv_session v) (se_active_playlist s) = None
        then [reference_note v Default_Owner [] (se_active_playlist s)] else [])"
  proof (cases "se_active_playlist s = []")
    case True
    with assms show ?thesis by (auto simp: default_reference_def and_then_Inr Let_def)
  next
    case False
    with assms obtain found left' played' where
      found: "runtime_playlist v Default_Owner [] False (se_active_playlist s) ([], False) = Inr (found, left', played')"
      and d: "d = (case found of None \<Rightarrow> FALLBACK_PLAYLIST_ID | Some i \<Rightarrow> i)" "left = left'"
      by (auto simp: default_reference_def and_then_Inr Let_def split: if_splits)
    from runtime_playlist_ok [OF found] d False show ?thesis by auto
  qed
  then show "d = (if se_active_playlist s = [] then FALLBACK_PLAYLIST_ID
      else case built_reference (rv_emitted v) (rv_session v) (se_active_playlist s) of
        None \<Rightarrow> FALLBACK_PLAYLIST_ID | Some i \<Rightarrow> i)"
    and "left = (if se_active_playlist s \<noteq> [] \<and>
          built_reference (rv_emitted v) (rv_session v) (se_active_playlist s) = None
        then [reference_note v Default_Owner [] (se_active_playlist s)] else [])" by simp_all
qed

end
