(* ===== verification/Runtime_Text.thy ===== *)
theory Runtime_Text
  imports Runtime_Facts
begin

text \<open>
  The text of a document: every part can be written as UTF-8 where the texts it quotes can, so the
  one that says that nothing plays is always written.
\<close>

named_theorems encodable_parts \<open>texts that can be encoded\<close>

lemma encodable_Cons: "encodable (c # s) \<longleftrightarrow> \<not> cp_surrogate c \<and> encodable s"
  by (simp add: encodable_def)

lemma encodable_concat: "encodable (concat ts) \<longleftrightarrow> list_all encodable ts"
  by (induction ts) simp_all

lemma encodable_join: "list_all encodable ts \<Longrightarrow> encodable sep \<Longrightarrow> encodable (join sep ts)"
  by (induction sep ts rule: join.induct) simp_all

lemma low_encodable: "\<forall>c\<in>set s. c < 55296 \<Longrightarrow> encodable s"
  by (fastforce simp: encodable_def cp_surrogate_def list_all_iff)

lemma encodable_show_nat [encodable_parts]: "encodable (show_nat n)"
  by (rule low_encodable) (auto dest: show_nat_digits)

lemma encodable_numbers [encodable_parts]: "encodable (show_int i)" "encodable (pad2 i)"
  by (simp_all add: show_int_def pad2_def encodable_Cons cp_surrogate_def encodable_show_nat)

lemma encodable_escape: "\<not> cp_surrogate c \<Longrightarrow> encodable (escape_cp c)"
proof -
  have "hex_digit (c div 16) < 55296" "hex_digit (c mod 16) < 55296" if "c < 32"
    using that by (auto simp: hex_digit_def)
  then show "\<not> cp_surrogate c \<Longrightarrow> encodable (escape_cp c)"
    by (auto simp: escape_cp_def encodable_Cons cp_surrogate_def)
qed

lemma encodable_dumps [encodable_parts]: "encodable s \<Longrightarrow> encodable (dumps_str s)"
  unfolding dumps_str_def encodable_Cons encodable_append encodable_concat
  by (auto simp: cp_surrogate_def encodable_Cons list_all_iff encodable_def [of s] intro!: encodable_escape)

lemma encodable_lines: "encodable (lines_text ts) \<longleftrightarrow> encodable (join [10] ts)"
  by (simp add: lines_text_def encodable_Cons cp_surrogate_def)

lemma encodable_inline:
  "\<forall>(k, v)\<in>set pairs. encodable k \<and> encodable v \<Longrightarrow> encodable (inline_table pairs)"
  by (fastforce simp: inline_table_def list_all_iff intro!: encodable_join)

lemma encodable_key_lines [encodable_parts]:
  "encodable v \<Longrightarrow> encodable (key_line key v)" "encodable v \<Longrightarrow> encodable (quote_line key v)"
  "encodable (flag_line key b)" "encodable (int_line key i)"
  by (simp_all add: key_line_def quote_line_def flag_line_def int_line_def encodable_parts)

lemma bounded_encodable: "bounded_text n s \<Longrightarrow> encodable s" "bounded_connector s \<Longrightarrow> encodable s"
  "bounded_name s \<Longrightarrow> encodable s" "absolute_path_ok s \<Longrightarrow> encodable s"
  by (simp_all add: bounded_text_def bounded_connector_def bounded_name_def absolute_path_ok_def)

section \<open>Dials\<close>

lemma choices_encodable: "d \<in> set DIALS \<Longrightarrow> v \<in> set (dial_choices d) \<Longrightarrow> encodable (toml_value v)"
  by (auto simp: DIALS_def choice_dial_def number_dial_def bool_dial_def equalizer_def texts_def
      toml_value_def encodable_Cons cp_surrogate_def encodable_parts)

lemma two_places_encodable [encodable_parts]: "encodable (two_places r)"
  unfolding two_places_def Let_def
  by (simp only: split_beta encodable_append encodable_Cons encodable_parts) (simp add: cp_surrogate_def)

lemma coerced_encodable:
  assumes "d \<in> set DIALS" "dial_coerce d v \<noteq> None"
  shows "encodable (toml_value v)"
proof (cases v)
  case (JStr s)
  with assms(2) have "v \<in> set (dial_choices d)"
    by (auto simp: dial_coerce_def dial_valid_def Let_def is_bool_def split: dial_kind.splits if_splits)
  with choices_encodable [OF assms(1)] show ?thesis by simp
qed (simp_all add: toml_value_def encodable_parts)

lemma settings_dial_encodable:
  assumes "settings_wire_ok s" "d \<in> set DIAL_SETTINGS"
  shows "encodable (toml_value (dial_setting_value s (dial_setting d)))"
proof (rule coerced_encodable)
  show "d \<in> set DIALS" using assms(2) by (simp add: DIAL_SETTINGS_def)
  show "dial_coerce d (dial_setting_value s (dial_setting d)) \<noteq> None"
    using assms by (simp add: settings_wire_ok_def list_all_iff)
qed

lemma renderer_dials_encodable:
  assumes "settings_wire_ok s"
  shows "\<forall>(name, v)\<in>set (renderer_dials_set s). encodable name \<and> encodable (toml_value v)"
proof -
  have "\<forall>d\<in>set DIALS. encodable (dial_setting d)"
    by (simp add: DIALS_def choice_dial_def number_dial_def bool_dial_def equalizer_def)
  then show ?thesis
    using settings_dial_encodable [OF assms]
    by (auto simp: renderer_dials_set_def Let_def List.map_filter_def DIAL_SETTINGS_def split: if_splits)
qed

lemma volume_setting: "\<exists>d\<in>set DIAL_SETTINGS. dial_setting d = lit ''scene_volume''"
proof -
  have "list_ex (\<lambda>d. dial_setting d = lit ''scene_volume'') DIAL_SETTINGS" by code_simp
  then show ?thesis by (simp add: list_ex_iff)
qed

section \<open>The document\<close>

lemma head_encodable:
  assumes "settings_wire_ok s" "programs_ok mc" "encodable (wd_default d)"
    and "\<forall>(name, v)\<in>set (wd_dials d). encodable name \<and> encodable (toml_value v)"
  shows "list_all encodable (document_head mc s d)"
proof -
  have volume: "encodable (toml_value (dial_setting_value s (lit ''scene_volume'')))"
    using settings_dial_encodable [OF assms(1)] volume_setting by metis
  have texts: "se_video_when_hidden s \<in> {lit ''pause'', lit ''stop'', lit ''play''}"
    "se_video_interpolation s \<in> {lit ''off'', lit ''oversample'', lit ''linear''}"
    "se_scene_scaling s \<in> {[], lit ''stretch'', lit ''fit'', lit ''fill''}"
    "se_scene_clamp s \<in> {[], lit ''clamp'', lit ''border'', lit ''repeat''}"
    "se_display_mode s \<in> {MIRRORED, INDEPENDENT}"
    "se_theme_source_connector s = [] \<or> bounded_connector (se_theme_source_connector s)"
    using assms(1) unfolding settings_wire_ok_def by - (elim conjE, assumption)+
  have "encodable (se_video_when_hidden s)" by (rule bspec [OF _ texts(1)]) simp
  moreover have "encodable (se_video_interpolation s)" by (rule bspec [OF _ texts(2)]) simp
  moreover have "encodable (se_scene_scaling s)" by (rule bspec [OF _ texts(3)]) simp
  moreover have "encodable (se_scene_clamp s)" by (rule bspec [OF _ texts(4)]) simp
  moreover have "encodable (se_display_mode s)"
    by (rule bspec [OF _ texts(5)]) (simp add: MIRRORED_def INDEPENDENT_def)
  moreover have "encodable (se_theme_source_connector s)" using texts(6) by (auto dest: bounded_encodable)
  ultimately have choices: "encodable (se_video_when_hidden s)" "encodable (se_video_interpolation s)"
    "encodable (se_scene_scaling s)" "encodable (se_scene_clamp s)" "encodable (se_display_mode s)"
    "encodable (se_theme_source_connector s)" by iprover+
  have programs: "encodable (mc_program mc (lit ''noctalia''))" "encodable (mc_program mc (lit ''mpvpaper''))"
    "encodable (mc_program mc (lit ''linux-wallpaperengine''))"
    using assms(2) by (simp_all add: programs_ok_def bounded_encodable)
  have dials: "list_all encodable (map (\<lambda>(name, v). name @ lit '' = '' @ toml_value v) (wd_dials d))"
    using assms(4) by (auto simp: list_all_iff)
  show ?thesis
    unfolding document_head_def list_all_append
    by (intro conjI dials)
      (simp_all only: list.pred_inject encodable_Nil encodable_lit encodable_parts volume choices programs
        assms(3) if_distrib [of encodable] if_distrib [of "list_all encodable"] if_cancel simp_thms)
qed

lemma encodable_document:
  assumes "settings_wire_ok s" "programs_ok mc" "encodable (wd_default d)"
    and "\<forall>(name, v)\<in>set (wd_dials d). encodable name \<and> encodable (toml_value v)"
    and "\<forall>p\<in>set (wd_playlists d). list_all encodable (playlist_text (wd_nothing d) p)"
    and "\<forall>r\<in>set (wd_schedules d). list_all encodable (schedule_text r)"
    and "\<forall>r\<in>set (wd_displays d). list_all encodable (display_text r)"
  shows "encodable (lines_text (document_lines mc s d))"
  unfolding encodable_lines document_lines_def
  using head_encodable [OF assms(1-4)] assms(5-7)
  by (intro encodable_join) (auto simp: list_all_iff encodable_Cons cp_surrogate_def)

lemma encodable_join_iff: "encodable (join [10] ts) \<longleftrightarrow> list_all encodable ts"
  by (induction "[10] :: pystr" ts rule: join.induct) (simp_all add: encodable_Cons cp_surrogate_def)

lemma encodable_generation:
  "encodable (lines_text ts) \<Longrightarrow> encodable (mc_digest mc (utf8 (lines_text ts))) \<Longrightarrow>
     encodable (with_generation mc ts)"
  unfolding with_generation_def encodable_lines encodable_join_iff list_all_append list.pred_inject
  by (auto simp: list_all_iff encodable_parts dest: in_set_takeD in_set_dropD)

lemma encodable_playlist:
  assumes "encodable (wp_id p)" "encodable (wp_name p)" "encodable nothing"
    and "\<forall>e\<in>set (wp_entries p). list_all encodable (entry_text e)"
  shows "list_all encodable (playlist_text nothing p)"
  using assms by (auto simp: playlist_text_def encodable_parts list_all_iff)

section \<open>A document that plays nothing\<close>

lemma nothing_status:
  assumes "bounded_text MAX_NOTHING_TO_PLAY_BYTES reason"
  shows "status_budget (nothing_to_play_wire s reason) = Inr ()"
proof -
  have widths: "utf8_len FALLBACK_PLAYLIST_ID = 9" "utf8_len FALLBACK_PLAYLIST_NAME = 9"
    "utf8_len NOTHING_TO_PLAY_LABEL = 17" by code_simp+
  have "utf8_len reason \<le> 128"
    using assms by (simp add: bounded_text_def MAX_NOTHING_TO_PLAY_BYTES_def)
  then show ?thesis
    by (simp add: status_budget_def status_bound_def nothing_to_play_wire_def Let_def largest_def identity_bytes_def
        entry_bytes_def widths MAX_WIRE_CONNECTOR_BYTES_def MAX_LIVE_OUTPUTS_def MAX_WIRE_DISPLAYS_def
        STATUS_JSON_ESCAPE_FACTOR_def STATUS_STRUCTURAL_RESERVE_BYTES_def
        STATUS_DIAGNOSTIC_RESERVE_BYTES_def MAX_RUNTIME_RESPONSE_BYTES_def check_def)
qed

lemma nothing_encodable:
  assumes "settings_wire_ok s" "programs_ok mc" "encodable reason"
  shows "encodable (lines_text (document_lines mc s (nothing_to_play_wire s reason)))"
proof (rule encodable_document [OF assms(1,2)])
  have "encodable FALLBACK_PLAYLIST_ID" "encodable FALLBACK_PLAYLIST_NAME"
    by (simp_all add: FALLBACK_PLAYLIST_ID_def FALLBACK_PLAYLIST_NAME_def)
  with assms(3) show "encodable (wd_default (nothing_to_play_wire s reason))"
    "\<forall>p\<in>set (wd_playlists (nothing_to_play_wire s reason)).
       list_all encodable (playlist_text (wd_nothing (nothing_to_play_wire s reason)) p)"
    by (auto simp: nothing_to_play_wire_def intro!: encodable_playlist)
qed (use renderer_dials_encodable [OF assms(1)] in \<open>simp_all add: nothing_to_play_wire_def\<close>)

end
