(* ===== verification/Runtime_Sample.thy ===== *)
theory Runtime_Sample
  imports Runtime_Text Schedule_Precedence
begin

text \<open>
  A small session the compiler is run on: two wallpapers, one playlist that plays and one whose only
  wallpaper is gone, three rules of which one names a playlist that was deleted, and one screen with a
  playlist of its own. The digest is a fixed text, so that a run stays short.
\<close>

definition toy_machine :: machine where
  "toy_machine = \<lparr>mc_program = (\<lambda>name. lit ''/usr/bin/'' @ name), mc_own_value = (\<lambda>item name v. Some v),
     mc_digest = (\<lambda>bytes. concat (replicate 4 (lit ''0123456789abcdef'')))\<rparr>"

definition sea :: library_item where
  "sea = \<lparr>item_path = lit ''/w/sea.mp4'', item_kind = Video, item_scene = [], item_title = [],
     item_paired_still = Some (lit ''/w/sea.png''), item_scene_base = [], item_scene_properties = [],
     item_web_page = False, item_unplayable = False, item_unplayable_reason = []\<rparr>"

definition hill :: library_item where
  "hill = sea\<lparr>item_path := lit ''/w/hill.png'', item_kind := Still, item_paired_still := None\<rparr>"

definition desk_settings :: settings where
  "desk_settings = \<lparr>se_cycle_interval = 600, se_cycle_enabled = True, se_shuffle = False,
     se_dynamics_enabled = True, se_stop_on_battery = False, se_video_muted = True, se_video_volume = 50,
     se_video_when_hidden = lit ''pause'', se_video_interpolation = lit ''off'',
     se_video_hardware_decode = True, se_scene_fps = 30, se_scene_scaling = [], se_scene_clamp = [],
     se_dials = map (\<lambda>d. (dial_setting d, dial_default d)) DIAL_SETTINGS,
     se_display_mode = INDEPENDENT, se_theme_source_connector = lit ''DP-1'', se_output = [],
     se_own_scene_renderer = True, se_allow_web_wallpapers = False, se_active_playlist = lit ''quiet'',
     se_cycle_favourites_only = False, se_roots = [lit ''/w''], se_preview_scheme = lit ''vibrant''\<rparr>"

definition waves :: playlist where
  "waves = \<lparr>pl_id = lit ''a9'', pl_name = lit ''Quiet'',
     pl_entries = [\<lparr>entry_id = lit ''e1'', entry_source = lit ''/w/sea.mp4''\<rparr>], pl_cycle = Some 60,
     pl_shuffle = None\<rparr>"

definition lost :: playlist where
  "lost = \<lparr>pl_id = lit ''c1'', pl_name = lit ''Lost'',
     pl_entries = [\<lparr>entry_id = lit ''e2'', entry_source = lit ''/w/gone.mp4''\<rparr>], pl_cycle = None,
     pl_shuffle = None\<rparr>"

definition by_day :: rule where
  "by_day = always\<lparr>rule_id := lit ''r1'', rule_playlist := lit ''QUIET''\<rparr>"

definition deleted_rule :: rule where
  "deleted_rule = always\<lparr>rule_id := lit ''r2'', rule_playlist := lit ''nowhere'', rule_connector := lit ''DP-2''\<rparr>"

definition all_media_rule :: rule where
  "all_media_rule = always\<lparr>rule_id := lit ''r3'', rule_playlist := lit ''All media'',
     rule_connector := lit ''DP-1'', rule_enabled := False\<rparr>"

definition desk_session :: session where
  "desk_session = \<lparr>ss_settings = desk_settings,
     ss_library = \<lparr>library_items = [sea, hill], library_unseen = [], library_inventory = []\<rparr>,
     ss_playlists = [(lit ''a9'', waves), (lit ''c1'', lost)],
     ss_schedules = [by_day, deleted_rule, all_media_rule],
     ss_displays = \<lparr>assignments = [(lit ''DP-1'', lit ''a9''), (lit ''DP-2'', lit ''c1'')], beats = {lit ''DP-1''}\<rparr>,
     ss_favourites = [], ss_pairings = [], ss_faults = [], ss_unread = []\<rparr>"

definition desk_build :: build where
  "desk_build = full_build desk_settings"

text \<open>What it is compiled to.\<close>

definition sea_entry :: "pystr \<Rightarrow> wire_entry" where
  "sea_entry i = \<lparr>we_id = i, we_kind = Video, we_still = lit ''/w/sea.png'', we_taboo = None,
     we_motion = Some (lit ''/w/sea.mp4''), we_video = [], we_scene_id = None, we_scene_base = [],
     we_properties = [], we_scene = [], we_palette = Adaptive_Palette (lit ''vibrant'') Keep_Mode\<rparr>"

definition hill_entry :: wire_entry where
  "hill_entry = \<lparr>we_id = lit ''0123456789abcdef'', we_kind = Still, we_still = lit ''/w/hill.png'',
     we_taboo = None, we_motion = None, we_video = [], we_scene_id = None, we_scene_base = [],
     we_properties = [], we_scene = [], we_palette = Adaptive_Palette (lit ''vibrant'') Keep_Mode\<rparr>"

definition desk_wire :: wire_document where
  "desk_wire = \<lparr>wd_schema = SCHEMA_VERSION, wd_default = lit ''a9'', wd_web_allowed = False, wd_dials = [],
     wd_scene_muted = True, wd_nothing = [],
     wd_playlists = [\<lparr>wp_id = FALLBACK_PLAYLIST_ID, wp_name = FALLBACK_PLAYLIST_NAME,
        wp_entries = [sea_entry (lit ''0123456789abcdef''), hill_entry]\<rparr>,
       \<lparr>wp_id = lit ''a9'', wp_name = lit ''Quiet'', wp_entries = [sea_entry (lit ''e1'')]\<rparr>],
     wd_schedules = [(by_day, lit ''a9''), (all_media_rule, FALLBACK_PLAYLIST_ID)],
     wd_displays = [(lit ''DP-1'', lit ''a9'')]\<rparr>"

definition desk_left :: "left_out list" where
  "desk_left = [note_left Schedule_Owner (lit ''r2'') (lit ''nowhere'') [] Does_Not_Exist,
     note_left Display_Owner (lit ''DP-2'') (lit ''c1'') (lit ''Lost'') Nothing_To_Play]"

definition desk_gathered :: gathered where
  "desk_gathered = \<lparr>ga_playlists = wd_playlists desk_wire, ga_unseen = [], ga_presets_only = [],
     ga_rotations = [(lit ''a9'', Some 60, None)], ga_notes = no_notes\<rparr>"

lemma desk_wire_compiled:
  "compile_wire toy_machine desk_build desk_session = Inr (desk_wire, desk_gathered, desk_left)"
  by code_simp

lemma desk_status: "status_budget desk_wire = Inr ()"
proof -
  have widths: "utf8_len FALLBACK_PLAYLIST_ID = 9" "utf8_len FALLBACK_PLAYLIST_NAME = 9"
    "utf8_len (lit ''a9'') = 2" "utf8_len (lit ''Quiet'') = 5" "utf8_len (lit ''DP-1'') = 4"
    "utf8_len (lit ''0123456789abcdef'') = 16" "utf8_len (lit ''e1'') = 2"
    "utf8_len (lit ''/w/sea.png'') = 10" "utf8_len (lit ''/w/hill.png'') = 11"
    "utf8_len (rule_id by_day) = 2" "utf8_len (rule_connector by_day) = 0"
    "utf8_len (rule_id all_media_rule) = 2" "utf8_len (rule_connector all_media_rule) = 4"
    by code_simp+
  have names: "FALLBACK_PLAYLIST_ID \<noteq> lit ''Quiet''" "FALLBACK_PLAYLIST_ID \<noteq> lit ''a9''"
    "FALLBACK_PLAYLIST_NAME \<noteq> FALLBACK_PLAYLIST_ID" "lit ''Quiet'' \<noteq> lit ''a9''"
    by code_simp+
  have whole: "wire_window by_day = None" "wire_window all_media_rule = None" by code_simp+
  show ?thesis
    by (simp add: status_budget_def status_bound_def desk_wire_def Let_def largest_def identity_bytes_def
        entry_bytes_def playlist_identity_def schedule_bytes_def sea_entry_def hill_entry_def widths whole
        names names [symmetric] MAX_WIRE_CONNECTOR_BYTES_def MAX_LIVE_OUTPUTS_def MAX_WIRE_DISPLAYS_def
        STATUS_JSON_ESCAPE_FACTOR_def STATUS_STRUCTURAL_RESERVE_BYTES_def
        STATUS_DIAGNOSTIC_RESERVE_BYTES_def MAX_RUNTIME_RESPONSE_BYTES_def check_def)
qed

definition desk_document :: pystr where
  "desk_document = with_generation toy_machine (document_lines toy_machine desk_settings desk_wire)"

lemma rendered_builds:
  assumes "status_budget d = Inr ()" "encodable (lines_text (document_lines mc s d))"
    and "encodable (with_generation mc (document_lines mc s d))"
    and "utf8_len (with_generation mc (document_lines mc s d)) \<le> 2000"
  shows "rendered_document mc s d = Inr (with_generation mc (document_lines mc s d))"
  using assms by (simp add: rendered_document_def document_text_def MAX_RUNTIME_CONFIG_BYTES_def Let_def check_def)

lemma desk_encodable: "encodable (lines_text (document_lines toy_machine desk_settings desk_wire))"
proof (rule encodable_document)
  have "encodable (palette_text (Adaptive_Palette (lit ''vibrant'') Keep_Mode))"
    by (auto simp: palette_text_def mode_value_def encodable_parts intro!: encodable_inline)
  then have "list_all encodable (playlist_text [] p)" if "p \<in> set (wd_playlists desk_wire)" for p
    using that
    by (auto simp: desk_wire_def sea_entry_def hill_entry_def entry_text_def FALLBACK_PLAYLIST_ID_def
        FALLBACK_PLAYLIST_NAME_def kind_value_def encodable_parts intro!: encodable_playlist)
  then show "\<forall>p\<in>set (wd_playlists desk_wire). list_all encodable (playlist_text (wd_nothing desk_wire) p)"
    by (simp add: desk_wire_def)
  show "settings_wire_ok desk_settings" "programs_ok toy_machine" by code_simp+
qed (simp_all add: desk_wire_def schedule_text_def display_text_def by_day_def all_media_rule_def always_def
    wire_window_def FALLBACK_PLAYLIST_ID_def encodable_parts)

lemma desk_rendered: "rendered_document toy_machine desk_settings desk_wire = Inr desk_document"
  unfolding desk_document_def
proof (rule rendered_builds [OF desk_status desk_encodable])
  show "encodable (with_generation toy_machine (document_lines toy_machine desk_settings desk_wire))"
    by (rule encodable_generation [OF desk_encodable]) (simp add: toy_machine_def encodable_concat list_all_iff)
qed code_simp

definition desk_overrides :: pystr where
  "desk_overrides = overrides_text [(lit ''a9'', Some 60, None)] [lit ''DP-1'']"

definition desk_compiled :: compiled where
  "desk_compiled = \<lparr>cp_document = desk_document, cp_wire = desk_wire, cp_overrides = Some desk_overrides,
     cp_left_out = desk_left, cp_nothing = []\<rparr>"

lemma desk_compiles: "compile_runtime toy_machine desk_build desk_session = Inr desk_compiled"
proof -
  have "sort (map fst (filter (\<lambda>(c, p). beats_global_rules (ss_displays desk_session) c) (wd_displays desk_wire))) =
      [lit ''DP-1'']" by code_simp
  moreover have "encodable desk_overrides" "utf8_len desk_overrides \<le> 400" by code_simp+
  then have "overrides_document (ga_rotations desk_gathered) [lit ''DP-1''] = Inr (Some desk_overrides)"
    by (simp add: overrides_document_def desk_gathered_def desk_overrides_def MAX_RUNTIME_OVERRIDES_BYTES_def
        Let_def check_def)
  moreover have "bd_settings desk_build = desk_settings" "wd_nothing desk_wire = []"
    by (simp_all add: desk_build_def full_build_def desk_wire_def)
  ultimately show ?thesis
    by (simp add: compile_runtime_def desk_wire_compiled desk_rendered desk_compiled_def)
qed

text \<open>The same desk without the rule for a deleted playlist.\<close>

definition quiet_session :: session where
  "quiet_session = desk_session\<lparr>ss_schedules := [by_day, all_media_rule]\<rparr>"

definition quiet_left :: "left_out list" where
  "quiet_left = [note_left Display_Owner (lit ''DP-2'') (lit ''c1'') (lit ''Lost'') Nothing_To_Play]"

definition quiet_compiled :: compiled where
  "quiet_compiled = desk_compiled\<lparr>cp_left_out := quiet_left\<rparr>"

lemma quiet_compiles: "compile_runtime toy_machine desk_build quiet_session = Inr quiet_compiled"
proof -
  have "compile_wire toy_machine desk_build quiet_session = Inr (desk_wire, desk_gathered, quiet_left)" by code_simp
  moreover from desk_compiles have "rendered_document toy_machine (bd_settings desk_build) desk_wire = Inr desk_document"
    "overrides_document (ga_rotations desk_gathered) (sort (map fst (filter
       (\<lambda>(c, p). beats_global_rules (ss_displays desk_session) c) (wd_displays desk_wire)))) = Inr (Some desk_overrides)"
    by (auto simp: compile_runtime_def desk_wire_compiled and_then_Inr desk_compiled_def)
  moreover have "ss_displays quiet_session = ss_displays desk_session" by (simp add: quiet_session_def)
  ultimately show ?thesis
    by (simp add: compile_runtime_def quiet_compiled_def desk_compiled_def desk_wire_def)
qed

text \<open>A service that reads every schema is published the full document.\<close>

lemma toy_digest: "mc_digest toy_machine x = mc_digest toy_machine []"
  by (simp add: toy_machine_def)

lemma desk_generation: "document_generation toy_machine desk_settings desk_compiled = Inr (mc_digest toy_machine [])"
proof -
  have "length (mc_digest toy_machine []) = 64 \<and>
      list_all (\<lambda>c. (48 \<le> c \<and> c \<le> 57) \<or> (97 \<le> c \<and> c \<le> 102)) (mc_digest toy_machine [])" by code_simp
  then show ?thesis
    unfolding document_generation_def Let_def toy_digest [of "utf8 _"] by (simp add: check_def)
qed

lemma desk_asked: "list_all (lists_schema status) [6, 7, 8] \<Longrightarrow> asked_build desk_settings status = desk_build"
  by (simp add: asked_build_def desk_build_def full_build_def PRESET_SCHEMA_VERSION_def DIALS_SCHEMA_VERSION_def
      NOTHING_TO_PLAY_SCHEMA_VERSION_def)

lemma desk_published:
  assumes "list_all (lists_schema status) [6, 7, 8]"
  shows "compiled_as_published toy_machine desk_settings desk_session status (mc_digest toy_machine []) = Inr desk_compiled"
proof -
  have builds: "published_builds desk_settings status = desk_build # tl (published_builds desk_settings status)"
    by (simp add: published_builds_def desk_asked [OF assms] desk_build_def full_build_def)
  show ?thesis unfolding compiled_as_published_def by (subst builds) (simp add: desk_compiles desk_generation)
qed

end
