(* ===== verification/Runtime_Guarantees.thy ===== *)
theory Runtime_Guarantees
  imports Runtime_Sample
begin

text \<open>
  What a compiled document is good for: every reference in it means one playlist, nothing saved is
  dropped in silence, and its rules decide as the saved ones do.
\<close>

section \<open>A reference means one playlist\<close>

definition wire_tokens :: "wire_playlist \<Rightarrow> pystr set" where
  "wire_tokens p = {casefold (wp_id p), casefold (wp_name p)}"

text \<open>The playlists of a document that answer to a reference, by id or name in any letter case.\<close>

definition answering :: "wire_playlist list \<Rightarrow> pystr \<Rightarrow> wire_playlist list" where
  "answering ps reference = filter (\<lambda>p. casefold reference \<in> wire_tokens p) ps"

text \<open>Every reference a document makes.\<close>

definition references_of :: "wire_document \<Rightarrow> pystr list" where
  "references_of d = wd_default d # map snd (wd_schedules d) @ map snd (wd_displays d)"

lemma identities_ok_apart:
  assumes "playlist_identities_ok seen i ps = Inr ()" "\<forall>(t, j)\<in>set seen. j < i"
  shows "sorted_wrt (\<lambda>p q. wire_tokens p \<inter> wire_tokens q = {}) ps \<and>
    (\<forall>p\<in>set ps. wire_tokens p \<inter> fst ` set seen = {})"
  using assms
proof (induction seen i ps rule: playlist_identities_ok.induct)
  case (2 seen i p ps)
  have fresh: "t \<notin> fst ` set seen"
    if "\<not> (case map_of seen t of None \<Rightarrow> False | Some j \<Rightarrow> j \<noteq> i)" for t
  proof
    assume "t \<in> fst ` set seen"
    then obtain j where j: "map_of seen t = Some j" by (metis weak_map_of_SomeI imageE prod.collapse)
    then have "j < i" using 2(3) by (auto dest: map_of_SomeD)
    with that j show False by simp
  qed
  let ?seen = "(casefold (wp_name p), i) # (casefold (wp_id p), i) # seen"
  have rest: "playlist_identities_ok ?seen (Suc i) ps = Inr ()" and "wire_tokens p \<inter> fst ` set seen = {}"
    using 2(2) fresh by (auto simp: Let_def and_then_Inr wire_tokens_def)
  moreover have "\<forall>(t, j)\<in>set ?seen. j < Suc i" using 2(3) by fastforce
  ultimately show ?case using 2(1) [OF refl refl refl rest] by (auto simp: wire_tokens_def)
qed simp

lemma identities_answer:
  assumes "playlist_identities_ok [] 0 ps = Inr ()" "p \<in> set ps"
  shows "answering ps (wp_id p) = [p]"
proof -
  have apart: "sorted_wrt (\<lambda>p q. wire_tokens p \<inter> wire_tokens q = {}) ps"
    using identities_ok_apart [OF assms(1)] by simp
  from assms(2) obtain xs ys where ps: "ps = xs @ p # ys" by (meson split_list)
  have mem: "casefold (wp_id p) \<in> wire_tokens p" by (simp add: wire_tokens_def)
  have "casefold (wp_id p) \<notin> wire_tokens q" if "q \<in> set xs \<union> set ys" for q
    using that apart mem unfolding ps sorted_wrt_append by auto
  then show ?thesis using mem by (auto simp: answering_def ps filter_empty_conv)
qed

lemma built_reference_emitted:
  "FALLBACK_PLAYLIST_ID \<in> set ids \<Longrightarrow> built_reference ids ss reference = Some i \<Longrightarrow> i \<in> set ids"
  by (auto simp: built_reference_def split: if_splits option.splits)

text \<open>What a document that was built holds, in terms of what was saved.\<close>

definition wire_ids :: "wire_document \<Rightarrow> pystr list" where
  "wire_ids d = map wp_id (wd_playlists d)"

lemma wire_shape:
  assumes "compile_wire mc b ss = Inr (wire, g, all_left)"
  shows "playlists_bounded (wd_playlists wire) = Inr ()"
    and "FALLBACK_PLAYLIST_ID \<in> set (wire_ids wire)"
    and "wd_default wire = (if se_active_playlist (bd_settings b) = [] then FALLBACK_PLAYLIST_ID
      else case built_reference (wire_ids wire) ss (se_active_playlist (bd_settings b)) of
        None \<Rightarrow> FALLBACK_PLAYLIST_ID | Some i \<Rightarrow> i)"
    and "wd_schedules wire = List.map_filter (\<lambda>r. if compiled_in (bd_settings b) r
      then map_option (Pair r) (built_reference (wire_ids wire) ss (rule_playlist r)) else None) (ss_schedules ss)"
    and "wd_displays wire = List.map_filter (\<lambda>(d, reference).
      map_option (Pair d) (built_reference (wire_ids wire) ss reference)) (display_assignments b ss)"
proof -
  from compile_wire_passed [OF assms] obtain es default_id left played rules left1 played1 displays st2 where
    g: "gather_all mc b ss = Inr (es, g)" "playlists_bounded (ga_playlists g) = Inr ()"
    and d: "default_reference (view_of b ss es g) (bd_settings b) = Inr (default_id, left, played)"
    and s: "emitted_schedules (view_of b ss es g) (bd_settings b) (ss_schedules ss)
       (left @ other_left_out b (ga_notes g) (fallback_nothing b ss es) played, played) =
       Inr (rules, left1, played1)"
    and a: "emitted_displays (view_of b ss es g) (display_assignments b ss) (left1, played1) =
       Inr (displays, all_left, st2)"
    and c: "wire = wire_of b default_id (fallback_nothing b ss es) (ga_playlists g) rules displays"
    by metis
  have ids: "wire_ids wire = map wp_id (ga_playlists g)" by (simp add: c wire_ids_def wire_of_def)
  have v: "rv_session (view_of b ss es g) = ss" "rv_emitted (view_of b ss es g) = map wp_id (ga_playlists g)"
    by (simp_all add: view_of_def)
  have rules: "rules = List.map_filter (emits_rule (view_of b ss es g) (bd_settings b)) (ss_schedules ss)"
    using emitted_schedules_ok [OF s] by simp
  have emits: "emits_rule (view_of b ss es g) (bd_settings b) = (\<lambda>r. if compiled_in (bd_settings b) r
      then map_option (Pair r) (built_reference (map wp_id (ga_playlists g)) ss (rule_playlist r)) else None)"
    by (rule ext) (simp add: emits_rule_def v)
  show "playlists_bounded (wd_playlists wire) = Inr ()" using g(2) by (simp add: c wire_of_def)
  show "FALLBACK_PLAYLIST_ID \<in> set (wire_ids wire)" unfolding ids using gathered_shape(1) [OF g(1)] by auto
  show "wd_default wire = (if se_active_playlist (bd_settings b) = [] then FALLBACK_PLAYLIST_ID
      else case built_reference (wire_ids wire) ss (se_active_playlist (bd_settings b)) of
        None \<Rightarrow> FALLBACK_PLAYLIST_ID | Some i \<Rightarrow> i)"
    unfolding ids using default_reference_ok(1) [OF d] by (simp add: c wire_of_def v)
  show "wd_schedules wire = List.map_filter (\<lambda>r. if compiled_in (bd_settings b) r
      then map_option (Pair r) (built_reference (wire_ids wire) ss (rule_playlist r)) else None) (ss_schedules ss)"
    unfolding ids using rules by (simp add: c wire_of_def emits)
  show "wd_displays wire = List.map_filter (\<lambda>(d, reference).
      map_option (Pair d) (built_reference (wire_ids wire) ss reference)) (display_assignments b ss)"
    unfolding ids using emitted_displays_ok [OF a] by (simp add: c wire_of_def v)
qed

lemma compile_wire_of:
  "compile_runtime mc b ss = Inr c \<Longrightarrow> \<exists>g. compile_wire mc b ss = Inr (cp_wire c, g, cp_left_out c)"
  by (auto simp: compile_runtime_def and_then_Inr)

lemma compiled_shape:
  assumes "compile_runtime mc b ss = Inr c"
  shows "playlists_bounded (wd_playlists (cp_wire c)) = Inr ()"
    and "FALLBACK_PLAYLIST_ID \<in> set (wire_ids (cp_wire c))"
    and "wd_default (cp_wire c) = (if se_active_playlist (bd_settings b) = [] then FALLBACK_PLAYLIST_ID
      else case built_reference (wire_ids (cp_wire c)) ss (se_active_playlist (bd_settings b)) of
        None \<Rightarrow> FALLBACK_PLAYLIST_ID | Some i \<Rightarrow> i)"
    and "wd_schedules (cp_wire c) = List.map_filter (\<lambda>r. if compiled_in (bd_settings b) r
      then map_option (Pair r) (built_reference (wire_ids (cp_wire c)) ss (rule_playlist r)) else None) (ss_schedules ss)"
    and "wd_displays (cp_wire c) = List.map_filter (\<lambda>(d, reference).
      map_option (Pair d) (built_reference (wire_ids (cp_wire c)) ss reference)) (display_assignments b ss)"
  by (insert compile_wire_of [OF assms], elim exE, erule wire_shape)+

lemma in_map_filter: "y \<in> set (List.map_filter f xs) \<longleftrightarrow> (\<exists>x\<in>set xs. f x = Some y)"
  by (force simp: List.map_filter_def)

text \<open>C7: Every reference a built document makes - its default, a rule's, a display's - is the id of one
  of its playlists, and no other playlist of the document answers to it, by id or by name in any letter
  case: the service cannot take it for another, nor fail to find it.\<close>

theorem references_answered_once:
  assumes "compile_runtime mc b ss = Inr c" and "reference \<in> set (references_of (cp_wire c))"
  shows "\<exists>p. answering (wd_playlists (cp_wire c)) reference = [p] \<and> wp_id p = reference"
proof -
  note shape = compiled_shape [OF assms(1)]
  have "reference \<in> set (wire_ids (cp_wire c))"
  proof -
    consider "reference = wd_default (cp_wire c)"
      | r where "(r, reference) \<in> set (wd_schedules (cp_wire c))"
      | d where "(d, reference) \<in> set (wd_displays (cp_wire c))"
      using assms(2) by (auto simp: references_of_def)
    then show ?thesis
    proof cases
      case 1
      with shape(2) show ?thesis by (auto simp: shape(3) dest: built_reference_emitted [OF shape(2)] split: option.splits)
    qed (auto simp: shape(4,5) in_map_filter dest: built_reference_emitted [OF shape(2)] split: if_splits)
  qed
  then obtain p where "p \<in> set (wd_playlists (cp_wire c))" "wp_id p = reference" by (auto simp: wire_ids_def)
  moreover have "playlist_identities_ok [] 0 (wd_playlists (cp_wire c)) = Inr ()"
    using shape(1) by (auto simp: playlists_bounded_def and_then_Inr)
  ultimately show ?thesis using identities_answer by blast
qed

theorem references_answered_once_witness:
  "\<exists>p. answering (wd_playlists desk_wire) (lit ''a9'') = [p] \<and> wp_id p = lit ''a9''"
proof -
  have "cp_wire desk_compiled = desk_wire" by (simp add: desk_compiled_def)
  moreover have "lit ''a9'' \<in> set (references_of desk_wire)" by (simp add: references_of_def desk_wire_def)
  ultimately show ?thesis using references_answered_once [OF desk_compiles, of "lit ''a9''"] by simp
qed

section \<open>Nothing saved is dropped in silence\<close>

text \<open>What was saved and asks to be in the document: the rules of the mode that are switched on, and the
  screens' own playlists. What the document answers: the ones it holds.\<close>

definition asked :: "build \<Rightarrow> session \<Rightarrow> (left_owner \<times> pystr \<times> pystr) list" where
  "asked b ss =
     map (\<lambda>r. (Schedule_Owner, rule_id r, rule_playlist r))
       (filter (\<lambda>r. compiled_in (bd_settings b) r \<and> rule_enabled r) (ss_schedules ss)) @
     map (\<lambda>(d, reference). (Display_Owner, d, reference)) (display_assignments b ss)"

definition answered :: "wire_document \<Rightarrow> (left_owner \<times> pystr) list" where
  "answered d =
     map (\<lambda>(r, _). (Schedule_Owner, rule_id r)) (filter (\<lambda>(r, _). rule_enabled r) (wd_schedules d)) @
     map (\<lambda>(screen, _). (Display_Owner, screen)) (wd_displays d)"

lemma note_owner [simp]:
  "lo_owner (reference_note v owner i reference) = owner" "lo_owner_id (reference_note v owner i reference) = i"
  by (simp_all add: reference_note_def note_left_def split: option.split)

lemma nt_presets_owner:
  "entry_lines mc b ss item eid n = Inr (e, n') \<Longrightarrow> \<forall>(k, l)\<in>set (nt_presets n). lo_owner l = Preset_Owner \<Longrightarrow>
     \<forall>(k, l)\<in>set (nt_presets n'). lo_owner l = Preset_Owner"
  by (auto simp: entry_lines_def note_left_def and_then_Inr split: if_splits)

lemma fallback_presets_owner:
  "fallback_entries mc b ss items n = Inr (es, n') \<Longrightarrow> \<forall>(k, l)\<in>set (nt_presets n). lo_owner l = Preset_Owner \<Longrightarrow>
     \<forall>(k, l)\<in>set (nt_presets n'). lo_owner l = Preset_Owner"
proof (induction mc b ss items n arbitrary: es n' rule: fallback_entries.induct)
  case (2 mc b ss item items n)
  then obtain e n1 es1 where e: "entry_lines mc b ss item (entry_id_for_source mc (item_path item)) n = Inr (e, n1)"
    and rest: "fallback_entries mc b ss items n1 = Inr (es1, n')"
    by (auto simp: and_then_Inr)
  with 2(1) [OF rest nt_presets_owner [OF e 2(3)]] show ?case by simp
qed simp

lemma authored_presets_owner:
  "authored_entries mc b ss as n = Inr (es, held, n') \<Longrightarrow> \<forall>(k, l)\<in>set (nt_presets n). lo_owner l = Preset_Owner \<Longrightarrow>
     \<forall>(k, l)\<in>set (nt_presets n'). lo_owner l = Preset_Owner"
proof (induction mc b ss as n arbitrary: es held n' rule: authored_entries.induct)
  case (2 mc b ss a rest n)
  show ?case
  proof (cases "by_path (library_items (ss_library ss)) (entry_path a)")
    case None
    with 2 show ?thesis by simp
  next
    case (Some item)
    with 2(3) obtain e n1 es1 held1 where e: "entry_lines mc b ss item (entry_id a) n = Inr (e, n1)"
      and rest: "authored_entries mc b ss rest n1 = Inr (es1, held1, n')"
      by (auto simp: and_then_Inr split: option.splits)
    from 2(2) [OF Some rest nt_presets_owner [OF e 2(4)]] show ?thesis .
  qed
qed simp

lemma gathered_presets_owner:
  assumes "gather_all mc b ss = Inr (es, g)"
  shows "\<forall>(k, l)\<in>set (nt_presets (ga_notes g)). lo_owner l = Preset_Owner"
proof -
  obtain n where f: "fallback_entries mc b ss (fallback_items b ss) no_notes = Inr (es, n)"
    and g: "gather mc b ss (all_playlists (ss_playlists ss))
      \<lparr>ga_playlists = [\<lparr>wp_id = FALLBACK_PLAYLIST_ID, wp_name = FALLBACK_PLAYLIST_NAME, wp_entries = es\<rparr>],
       ga_unseen = [], ga_presets_only = [], ga_rotations = [], ga_notes = n\<rparr> = Inr g"
    using gather_all_ok [OF assms] by metis
  show ?thesis
  proof (rule gather_invariant [OF g])
    fix p :: playlist and g' :: gathered and resolved held n'
    assume "\<forall>(k, l)\<in>set (nt_presets (ga_notes g')). lo_owner l = Preset_Owner"
      and "authored_entries mc b ss (pl_entries p) (ga_notes g') = Inr (resolved, held, n')"
    from authored_presets_owner [OF this(2,1)]
    show "\<forall>(k, l)\<in>set (nt_presets (ga_notes (gather_playlist ss p resolved held (g'\<lparr>ga_notes := n'\<rparr>)))).
        lo_owner l = Preset_Owner"
      by (simp add: gather_playlist_def split: option.split)
  qed (use fallback_presets_owner [OF f] in \<open>simp add: no_notes_def\<close>)
qed

lemma left_out_shape:
  assumes "compile_runtime mc b ss = Inr c"
  obtains v others where "\<forall>n\<in>set others. lo_owner n \<noteq> Schedule_Owner \<and> lo_owner n \<noteq> Display_Owner"
    "cp_left_out c = others @
       map (\<lambda>r. reference_note v Schedule_Owner (rule_id r) (rule_playlist r))
         (filter (\<lambda>r. compiled_in (bd_settings b) r \<and> rule_enabled r \<and>
            built_reference (wire_ids (cp_wire c)) ss (rule_playlist r) = None) (ss_schedules ss)) @
       map (\<lambda>(d, reference). reference_note v Display_Owner d reference)
         (filter (\<lambda>(d, reference). built_reference (wire_ids (cp_wire c)) ss reference = None)
            (display_assignments b ss))"
proof -
  from compile_passed [OF assms] obtain g where w: "compile_wire mc b ss = Inr (cp_wire c, g, cp_left_out c)"
    by metis
  from compile_wire_passed [OF this] obtain es default_id left played rules left1 played1 displays st2 where
    g: "gather_all mc b ss = Inr (es, g)"
    and d: "default_reference (view_of b ss es g) (bd_settings b) = Inr (default_id, left, played)"
    and s: "emitted_schedules (view_of b ss es g) (bd_settings b) (ss_schedules ss)
       (left @ other_left_out b (ga_notes g) (fallback_nothing b ss es) played, played) =
       Inr (rules, left1, played1)"
    and a: "emitted_displays (view_of b ss es g) (display_assignments b ss) (left1, played1) =
       Inr (displays, cp_left_out c, st2)"
    and c: "cp_wire c = wire_of b default_id (fallback_nothing b ss es) (ga_playlists g) rules displays"
    by metis
  let ?others = "left @ other_left_out b (ga_notes g) (fallback_nothing b ss es) played"
  have "\<forall>n\<in>set left. lo_owner n = Default_Owner" using default_reference_ok(2) [OF d] by simp
  moreover have "\<forall>n\<in>set (other_left_out b (ga_notes g) (fallback_nothing b ss es) played).
      lo_owner n \<in> {Preset_Owner, Dials_Owner, Nothing_Owner}"
    using gathered_presets_owner [OF g] by (auto simp: other_left_out_def note_left_def)
  ultimately have others: "\<forall>n\<in>set ?others. lo_owner n \<noteq> Schedule_Owner \<and> lo_owner n \<noteq> Display_Owner"
    by fastforce
  have v: "rv_session (view_of b ss es g) = ss" "rv_emitted (view_of b ss es g) = wire_ids (cp_wire c)"
    by (simp_all add: view_of_def wire_ids_def c wire_of_def)
  have none: "(compiled_in (bd_settings b) r \<and> rule_enabled r \<and> emits_rule (view_of b ss es g) (bd_settings b) r = None) =
      (compiled_in (bd_settings b) r \<and> rule_enabled r \<and>
         built_reference (wire_ids (cp_wire c)) ss (rule_playlist r) = None)" for r
    by (auto simp: emits_rule_def v)
  show ?thesis
    using that [OF others, of "view_of b ss es g"] emitted_schedules_ok [OF s] emitted_displays_ok [OF a]
    unfolding none v by simp
qed

lemma in_schedules:
  "compile_runtime mc b ss = Inr c \<Longrightarrow> (r, i) \<in> set (wd_schedules (cp_wire c)) \<longleftrightarrow>
     r \<in> set (ss_schedules ss) \<and> compiled_in (bd_settings b) r \<and>
     built_reference (wire_ids (cp_wire c)) ss (rule_playlist r) = Some i"
  by (auto simp: compiled_shape(4) in_map_filter split: if_splits)

lemma in_displays:
  "compile_runtime mc b ss = Inr c \<Longrightarrow> (d, i) \<in> set (wd_displays (cp_wire c)) \<longleftrightarrow>
     (\<exists>reference. (d, reference) \<in> set (display_assignments b ss) \<and>
        built_reference (wire_ids (cp_wire c)) ss reference = Some i)"
  by (force simp: compiled_shape(5) in_map_filter)

lemma in_asked:
  "(owner, i, reference) \<in> set (asked b ss) \<longleftrightarrow>
     (owner = Schedule_Owner \<and> (\<exists>r\<in>set (ss_schedules ss). compiled_in (bd_settings b) r \<and> rule_enabled r \<and>
        i = rule_id r \<and> reference = rule_playlist r)) \<or>
     (owner = Display_Owner \<and> (i, reference) \<in> set (display_assignments b ss))"
  by (auto simp: asked_def)

lemma in_answered:
  "(owner, i) \<in> set (answered d) \<longleftrightarrow>
     (owner = Schedule_Owner \<and> (\<exists>r k. (r, k) \<in> set (wd_schedules d) \<and> rule_enabled r \<and> i = rule_id r)) \<or>
     (owner = Display_Owner \<and> (\<exists>k. (i, k) \<in> set (wd_displays d)))"
  by (force simp: answered_def)

lemma answered_iff:
  assumes "compile_runtime mc b ss = Inr c"
  shows "(owner, i) \<in> set (answered (cp_wire c)) \<longleftrightarrow>
    (\<exists>reference. (owner, i, reference) \<in> set (asked b ss) \<and>
       built_reference (wire_ids (cp_wire c)) ss reference \<noteq> None)"
  unfolding in_answered in_asked in_schedules [OF assms] in_displays [OF assms] by blast

lemma left_out_iff:
  assumes "compile_runtime mc b ss = Inr c" "owner = Schedule_Owner \<or> owner = Display_Owner"
  shows "(\<exists>n\<in>set (cp_left_out c). lo_owner n = owner \<and> lo_owner_id n = i) \<longleftrightarrow>
    (\<exists>reference. (owner, i, reference) \<in> set (asked b ss) \<and>
       built_reference (wire_ids (cp_wire c)) ss reference = None)"
proof (rule left_out_shape [OF assms(1)])
  fix v others
  assume others: "\<forall>n\<in>set others. lo_owner n \<noteq> Schedule_Owner \<and> lo_owner n \<noteq> Display_Owner"
    and left: "cp_left_out c = others @
       map (\<lambda>r. reference_note v Schedule_Owner (rule_id r) (rule_playlist r))
         (filter (\<lambda>r. compiled_in (bd_settings b) r \<and> rule_enabled r \<and>
            built_reference (wire_ids (cp_wire c)) ss (rule_playlist r) = None) (ss_schedules ss)) @
       map (\<lambda>(d, reference). reference_note v Display_Owner d reference)
         (filter (\<lambda>(d, reference). built_reference (wire_ids (cp_wire c)) ss reference = None)
            (display_assignments b ss))"
  show ?thesis
    using assms(2)
  proof
    assume owner: "owner = Schedule_Owner"
    show ?thesis unfolding left in_asked owner using others by (auto simp: bex_Un)
  next
    assume owner: "owner = Display_Owner"
    show ?thesis unfolding left in_asked owner using others by (auto simp: bex_Un split_beta intro: bexI [of _ "(i, _)"])
  qed
qed

text \<open>Everything saved that names a playlist for a time or a screen: the rules that are switched on and the
  screens' own playlists, with whether it is for one screen only.\<close>

definition saved_uses :: "session \<Rightarrow> (left_owner \<times> pystr \<times> bool) list" where
  "saved_uses ss =
     map (\<lambda>r. (Schedule_Owner, rule_id r, rule_connector r \<noteq> [])) (filter rule_enabled (ss_schedules ss)) @
     map (\<lambda>(d, reference). (Display_Owner, d, True)) (assignments (ss_displays ss))"

lemma in_display_assignments:
  "(d, reference) \<in> set (display_assignments b ss) \<longleftrightarrow>
     se_display_mode (bd_settings b) = INDEPENDENT \<and> (d, reference) \<in> set (assignments (ss_displays ss))"
  by (simp add: display_assignments_def all_assignments_def)

lemma saved_use_asked:
  assumes "distinct (map rule_id (ss_schedules ss))" "distinct (map fst (assignments (ss_displays ss)))"
    and "(owner, i, one) \<in> set (saved_uses ss)"
  shows "if one \<and> se_display_mode (bd_settings b) \<noteq> INDEPENDENT then \<forall>reference. (owner, i, reference) \<notin> set (asked b ss)
    else \<exists>!reference. (owner, i, reference) \<in> set (asked b ss)"
proof -
  consider r where "owner = Schedule_Owner" "r \<in> set (ss_schedules ss)" "rule_enabled r" "i = rule_id r"
      "one = (rule_connector r \<noteq> [])"
    | reference where "owner = Display_Owner" "(i, reference) \<in> set (assignments (ss_displays ss))" "one"
    using assms(3) by (auto simp: saved_uses_def)
  then show ?thesis
  proof cases
    case (1 r)
    have "r' = r" if "r' \<in> set (ss_schedules ss)" "rule_id r' = rule_id r" for r'
      using assms(1) 1(2) that by (meson distinct_map inj_onD)
    then have "(owner, i, reference) \<in> set (asked b ss) \<longleftrightarrow> compiled_in (bd_settings b) r \<and> reference = rule_playlist r"
      for reference unfolding in_asked 1(1,4) using 1(2,3) left_owner.distinct by metis
    with 1(5) show ?thesis by (auto simp: compiled_in_def)
  next
    case (2 reference)
    have "(i, p) \<in> set (assignments (ss_displays ss)) \<longleftrightarrow> p = reference" for p
      using 2(2) eq_key_imp_eq_value [OF assms(2)] by blast
    then have "(owner, i, p) \<in> set (asked b ss) \<longleftrightarrow>
        se_display_mode (bd_settings b) = INDEPENDENT \<and> p = reference" for p
      unfolding in_asked in_display_assignments 2(1) by simp
    with 2(3) show ?thesis by auto
  qed
qed

text \<open>C8: What becomes of every saved rule that is switched on and of every screen's own playlist (of rules
  with distinct ids, and screens named once). One for every screen, or any in independent mode, is either
  in the built document or among what was left out and is said, and never both. One for a single screen
  while the screens are not independent is neither in the document nor reported: the mode sets it aside.\<close>

theorem nothing_dropped_silently:
  assumes "compile_runtime mc b ss = Inr c" and "(owner, i, one_screen) \<in> set (saved_uses ss)"
    and "distinct (map rule_id (ss_schedules ss))" and "distinct (map fst (assignments (ss_displays ss)))"
  shows "let inside = (owner, i) \<in> set (answered (cp_wire c));
      noted = (\<exists>n\<in>set (cp_left_out c). lo_owner n = owner \<and> lo_owner_id n = i)
    in if one_screen \<and> se_display_mode (bd_settings b) \<noteq> INDEPENDENT then \<not> inside \<and> \<not> noted else inside \<noteq> noted"
proof -
  have owner: "owner = Schedule_Owner \<or> owner = Display_Owner" using assms(2) by (auto simp: saved_uses_def)
  from saved_use_asked [OF assms(3,4,2), of b] show ?thesis
    unfolding answered_iff [OF assms(1)] left_out_iff [OF assms(1) owner] Let_def by (auto split: if_splits)
qed

theorem nothing_dropped_silently_witness:
  "((Schedule_Owner, lit ''r2'') \<in> set (answered desk_wire)) \<noteq>
    (\<exists>n\<in>set desk_left. lo_owner n = Schedule_Owner \<and> lo_owner_id n = lit ''r2'')"
proof -
  have "(Schedule_Owner, lit ''r2'', True) \<in> set (saved_uses desk_session)"
    "distinct (map rule_id (ss_schedules desk_session))"
    "distinct (map fst (assignments (ss_displays desk_session)))" by code_simp+
  from nothing_dropped_silently [OF desk_compiles this] show ?thesis
    by (simp add: desk_compiled_def desk_build_def desk_settings_def full_build_def)
qed

section \<open>The document decides as the saved rules do\<close>

text \<open>The rules the service reads: each as saved, naming the playlist its reference stands for.\<close>

definition document_rules :: "wire_document \<Rightarrow> rule list" where
  "document_rules d = map (\<lambda>(r, i). r\<lparr>rule_playlist := i\<rparr>) (wd_schedules d)"

lemma resolve_rule_compiled:
  assumes "\<forall>r\<in>set rs. matches r at conn \<longrightarrow> P r \<and> B (rule_playlist r) \<noteq> None"
  shows "resolve_rule (map (\<lambda>(r, i). r\<lparr>rule_playlist := i\<rparr>)
        (List.map_filter (\<lambda>r. if P r then map_option (Pair r) (B (rule_playlist r)) else None) rs)) at conn
      (map_option (\<lambda>r. r\<lparr>rule_playlist := the (B (rule_playlist r))\<rparr>) chosen) =
    map_option (\<lambda>r. r\<lparr>rule_playlist := the (B (rule_playlist r))\<rparr>) (resolve_rule rs at conn chosen)"
  using assms
proof (induction rs arbitrary: chosen)
  case (Cons r rs)
  note IH = Cons.IH [where chosen = "if matches r at conn then Some r else chosen"]
  show ?case
  proof (cases "P r \<and> B (rule_playlist r) \<noteq> None")
    case True
    with IH Cons.prems show ?thesis by (auto simp: List.map_filter_simps split: if_splits)
  next
    case False
    then have "\<not> matches r at conn" using Cons.prems by auto
    with False IH Cons.prems show ?thesis by (auto simp: List.map_filter_simps)
  qed
qed (simp add: List.map_filter_simps)

text \<open>C6: Where no rule had to be left out, the built document puts in force, at every time and on every
  screen the mode knows, exactly the playlist that the saved rules do, under the id it has in the
  document; and nothing where they put nothing.\<close>

theorem document_decides_as_saved:
  assumes "compile_runtime mc b ss = Inr c" and "\<forall>n\<in>set (cp_left_out c). lo_owner n \<noteq> Schedule_Owner"
    and "se_display_mode (bd_settings b) = INDEPENDENT \<or> conn = []"
  shows "in_force (document_rules (cp_wire c)) at conn =
    map_option (\<lambda>reference. the (built_reference (wire_ids (cp_wire c)) ss reference)) (in_force (ss_schedules ss) at conn)"
proof -
  let ?B = "built_reference (wire_ids (cp_wire c)) ss"
  have "compiled_in (bd_settings b) r \<and> ?B (rule_playlist r) \<noteq> None"
    if r: "r \<in> set (ss_schedules ss)" "matches r at conn" for r
  proof -
    have "aimed_at r conn" "rule_enabled r" using r(2) by (simp_all add: matches_parts)
    with assms(3) have on: "compiled_in (bd_settings b) r" "rule_enabled r"
      by (auto simp: aimed_at_def compiled_in_def)
    with r(1) have "(Schedule_Owner, rule_id r, rule_playlist r) \<in> set (asked b ss)" by (auto simp: in_asked)
    then have "?B (rule_playlist r) \<noteq> None"
      using left_out_iff [OF assms(1), of Schedule_Owner "rule_id r", simplified] assms(2) by auto
    with on show ?thesis by simp
  qed
  then have "\<forall>r\<in>set (ss_schedules ss). matches r at conn \<longrightarrow>
      compiled_in (bd_settings b) r \<and> ?B (rule_playlist r) \<noteq> None" by blast
  from resolve_rule_compiled [OF this, where chosen = None] show ?thesis
    by (simp add: in_force_def document_rules_def compiled_shape(4) [OF assms(1)] option.map_comp comp_def)
qed

theorem document_decides_as_saved_witness:
  "in_force (document_rules desk_wire) new_year (lit ''DP-2'') = Some (lit ''a9'') \<and>
   in_force (ss_schedules quiet_session) new_year (lit ''DP-2'') = Some (lit ''QUIET'')"
proof -
  have saved: "in_force (ss_schedules quiet_session) new_year (lit ''DP-2'') = Some (lit ''QUIET'')" by code_simp
  have "built_reference (wire_ids desk_wire) quiet_session (lit ''QUIET'') = Some (lit ''a9'')" by code_simp
  moreover have "\<forall>n\<in>set (cp_left_out quiet_compiled). lo_owner n \<noteq> Schedule_Owner"
    by (simp add: quiet_compiled_def quiet_left_def note_left_def)
  moreover have "se_display_mode (bd_settings desk_build) = INDEPENDENT"
    by (simp add: desk_build_def full_build_def desk_settings_def)
  ultimately show ?thesis
    using document_decides_as_saved [OF quiet_compiles, of "lit ''DP-2''" new_year] saved
    by (simp add: quiet_compiled_def desk_compiled_def)
qed

end
