(* ===== verification/Runtime_Edits.thy ===== *)
theory Runtime_Edits
  imports Runtime_Guarantees Runtime_Guards
begin

text \<open>
  What the guards promise of the compiler: a reference they accept is one it builds, an edit they allow
  leaves every saved reference usable, and the document the service holds is found among those that
  publishing makes.
\<close>

section \<open>An entry is kept whatever its id\<close>

definition renamed_entry :: "pystr \<Rightarrow> entry_result \<Rightarrow> entry_result" where
  "renamed_entry eid r = and_then r (\<lambda>(kept, withheld). Inr (map_option (we_id_update (\<lambda>_. eid)) kept, withheld))"

lemma renamed_entry_simps [simp]:
  "renamed_entry eid (Inl e) = Inl e" "renamed_entry eid (Inr (None, w)) = Inr (None, w)"
  "renamed_entry eid (Inr (Some k, w)) = Inr (Some (k\<lparr>we_id := eid\<rparr>), w)"
  by (simp_all add: renamed_entry_def)

lemma renamed_check [simp]:
  "renamed_entry eid (and_then (check cause passed) f) = and_then (check cause passed) (\<lambda>u. renamed_entry eid (f u))"
  by (cases passed) (simp_all add: check_def)

lemma start_renamed: "start_entry item eid still h = (start_entry item e1 still h)\<lparr>we_id := eid\<rparr>"
  by (simp add: start_entry_def)

lemma video_renamed: "video_entry b item bd (e\<lparr>we_id := eid\<rparr>) = renamed_entry eid (video_entry b item bd e)"
  by (cases e) (simp add: video_entry_def Let_def split: option.split)

lemma scene_renamed: "scene_entry mc b item bd (e\<lparr>we_id := eid\<rparr>) = renamed_entry eid (scene_entry mc b item bd e)"
  by (cases e) (simp add: scene_entry_def Let_def split: option.split)

lemma finish_renamed:
  "finish_entry policy generator (e\<lparr>we_id := eid\<rparr>) w = renamed_entry eid (finish_entry policy generator e w)"
  by (cases e; cases "wire_palette_of policy generator") (simp_all add: finish_entry_def)

lemma renamed_finish:
  "and_then (renamed_entry eid r) (\<lambda>(kept, withheld). case kept of None \<Rightarrow> Inr (None, withheld)
       | Some e \<Rightarrow> finish_entry policy generator e withheld) =
   renamed_entry eid (and_then r (\<lambda>(kept, withheld). case kept of None \<Rightarrow> Inr (None, withheld)
       | Some e \<Rightarrow> finish_entry policy generator e withheld))"
  by (cases r) (auto simp: finish_renamed split: option.split)

lemma resolved_renamed:
  assumes "bounded_text MAX_WIRE_IDENTIFIER_BYTES e1" "bounded_text MAX_WIRE_IDENTIFIER_BYTES e2"
  shows "resolved_entry mc b ss item e2 = renamed_entry e2 (resolved_entry mc b ss item e1)"
proof -
  have body: "(case item_kind item of Still \<Rightarrow> Inr (Some (start_entry item e2 still h), [])
      | Video \<Rightarrow> video_entry b item bd (start_entry item e2 still h)
      | Scene \<Rightarrow> scene_entry mc b item bd (start_entry item e2 still h)) =
    renamed_entry e2 (case item_kind item of Still \<Rightarrow> Inr (Some (start_entry item e1 still h), [])
      | Video \<Rightarrow> video_entry b item bd (start_entry item e1 still h)
      | Scene \<Rightarrow> scene_entry mc b item bd (start_entry item e1 still h))" for still h bd
    by (simp add: start_renamed [of item e2 still h e1] video_renamed scene_renamed split: kind.split)
  show ?thesis
    using assms by (simp add: resolved_entry_def Let_def check_def body renamed_finish split: option.split)
qed

lemma probe_bounded: "bounded_text MAX_WIRE_IDENTIFIER_BYTES PROBE_ENTRY_ID"
  unfolding PROBE_ENTRY_ID_def by code_simp

definition kept_as :: "machine \<Rightarrow> build \<Rightarrow> session \<Rightarrow> library_item \<Rightarrow> pystr \<Rightarrow> bool" where
  "kept_as mc b ss item eid \<longleftrightarrow> (case resolved_entry mc b ss item eid of Inr (Some e, _) \<Rightarrow> True | _ \<Rightarrow> False)"

lemma kept_as_probe:
  assumes "is_ok (resolved_entry mc b ss item eid)"
  shows "kept_as mc b ss item eid = kept_as mc b ss item PROBE_ENTRY_ID"
proof (cases "web_off item (allow_web b)")
  case False
  with assms have "bounded_text MAX_WIRE_IDENTIFIER_BYTES eid"
    by (auto simp: resolved_entry_def and_then_def check_def split: if_splits)
  from resolved_renamed [OF this probe_bounded, of mc b ss item] show ?thesis
    using assms by (auto simp: kept_as_def split: sum.splits option.splits)
qed (simp add: kept_as_def resolved_entry_def)

text \<open>What the guards call compiling is what the compiler keeps, for every entry it could judge.\<close>

lemma compiles_iff_kept:
  assumes "entry_judged mc (full_build (ss_settings ss)) ss a"
  shows "pb_compiles (entry_playability mc ss (library_index ss (entry_path a))) \<longleftrightarrow>
    keeps_entry mc (full_build (ss_settings ss)) ss a"
proof (cases "by_path (library_items (ss_library ss)) (entry_path a)")
  case None
  then show ?thesis by (simp add: library_index_def entry_playability_def keeps_entry_def)
next
  case (Some item)
  let ?b = "full_build (ss_settings ss)"
  have ok: "is_ok (resolved_entry mc ?b ss item (entry_id a))" using assms Some by (simp add: entry_judged_def)
  have keeps: "keeps_entry mc ?b ss a = kept_as mc ?b ss item (entry_id a)"
    using Some by (simp add: keeps_entry_def kept_as_def)
  show ?thesis
  proof (cases "never_played item (se_allow_web_wallpapers (ss_settings ss))")
    case True
    then have "\<not> kept_as mc ?b ss item (entry_id a)"
      by (auto simp: kept_as_def resolved_entry_def never_played_def allow_web_def full_build_def and_then_def check_def)
    with Some True keeps show ?thesis by (simp add: library_index_def entry_playability_def)
  next
    case False
    with Some keeps kept_as_probe [OF ok] show ?thesis
      by (simp add: library_index_def entry_playability_def Let_def kept_as_def)
  qed
qed

section \<open>A reference the guards accept is one the compiler builds\<close>

lemma all_playlists_stored:
  assumes "wf_authored d" "p \<in> set (all_playlists d)"
  shows "map_of d (pl_id p) = Some p"
proof -
  from assms(2) obtain k where "(k, p) \<in> set d" by (auto simp: all_playlists_def)
  moreover have "distinct (map fst d)" using assms(1) by (simp add: wf_authored_def)
  ultimately have "map_of d k = Some p" by simp
  with wf_authoredD(2) [OF assms(1) this] show ?thesis by simp
qed

lemma find_playlist_in:
  assumes "wf_authored (ss_playlists ss)" "find_playlist reference ss = Some p"
  shows "map_of (ss_playlists ss) (pl_id p) = Some p"
proof (cases "map_of (ss_playlists ss) reference")
  case None
  with assms(2) have "by_name (ss_playlists ss) reference = Some p" by (simp add: find_playlist_def)
  then have "p \<in> set (all_playlists (ss_playlists ss))" unfolding by_name_def by (rule find_SomeD [THEN conjunct1])
  with assms(1) show ?thesis by (rule all_playlists_stored)
qed (use assms wf_authoredD(2) [OF assms(1)] in \<open>auto simp: find_playlist_def\<close>)

lemma stored_in_all: "map_of d k = Some p \<Longrightarrow> p \<in> set (all_playlists d)"
  by (force simp: all_playlists_def dest: map_of_SomeD)

lemma compile_gathered:
  assumes "compile_wire mc b ss = Inr (wire, g, left)"
  shows "\<exists>es. gather_all mc b ss = Inr (es, g) \<and> wd_playlists wire = ga_playlists g"
  by (rule compile_wire_passed [OF assms]) (simp add: wire_of_def)

lemma in_image_once:
  assumes "p \<in> A" "\<And>q. q \<in> A \<Longrightarrow> f q = f p \<Longrightarrow> q = p"
  shows "f p \<in> f ` {q \<in> A. K q} \<longleftrightarrow> K p"
proof
  assume "f p \<in> f ` {q \<in> A. K q}"
  then obtain q where "q \<in> A" "K q" "f p = f q" by blast
  with assms(2) [of q] show "K p" by simp
qed (use assms(1) in blast)

lemma emitted_iff:
  assumes "compile_runtime mc (full_build (ss_settings ss)) ss = Inr c" "wf_authored (ss_playlists ss)"
    and "map_of (ss_playlists ss) (pl_id p) = Some p"
  shows "pl_id p \<in> set (wire_ids (cp_wire c)) \<longleftrightarrow>
    list_ex pb_compiles (playlist_playability mc ss (pl_entries p)) \<or> pl_id p = FALLBACK_PLAYLIST_ID"
proof (cases "pl_id p = FALLBACK_PLAYLIST_ID")
  case other: False
  let ?b = "full_build (ss_settings ss)"
  from compile_passed [OF assms(1)] obtain g where "compile_wire mc ?b ss = Inr (cp_wire c, g, cp_left_out c)"
    by metis
  from compile_gathered [OF this] obtain es where g: "gather_all mc ?b ss = Inr (es, g)"
    and w: "wd_playlists (cp_wire c) = ga_playlists g" by blast
  have ids: "wire_ids (cp_wire c) = map wp_id (ga_playlists g)" by (simp add: wire_ids_def w)
  have b: "bd_presets ?b" by (simp add: full_build_def)
  note emits = gather_all_emits(1) [OF b g] and judged = gather_all_emits(2) [OF b g]
  have all: "p \<in> set (all_playlists (ss_playlists ss))" using stored_in_all [OF assms(3)] .
  have "q = p" if q: "q \<in> set (all_playlists (ss_playlists ss))" "pl_id q = pl_id p" for q
    using all_playlists_stored [OF assms(2) q(1)] assms(3) unfolding q(2) by (metis option.inject)
  from in_image_once [OF all this] other have "pl_id p \<in> set (wire_ids (cp_wire c)) \<longleftrightarrow> (\<exists>a\<in>set (pl_entries p). keeps_entry mc ?b ss a)"
    unfolding ids emits by simp
  also have "\<dots> \<longleftrightarrow> list_ex pb_compiles (playlist_playability mc ss (pl_entries p))"
    using compiles_iff_kept [OF judged [OF all]] by (auto simp: playlist_playability_def list_ex_iff)
  finally show ?thesis using other by simp
qed (simp add: compiled_shape(2) [OF assms(1)])

text \<open>C13: For a service that reads everything, and playlists as the reader gives them for any file, the
  pages and the compiler agree: a saved reference stands for a playlist of the document the compiler
  builds exactly when \<open>use_refusal\<close> neither says that the playlist no longer exists nor that it has
  nothing to play - with one exception. A playlist whose id is the one of All media, \<open>all-media\<close>, which
  no operation makes but the reader takes from a file, always stands for All media in the document, so
  the two disagree where it has nothing to play.\<close>

theorem guard_agrees_with_compiler:
  assumes "compile_runtime mc (full_build (ss_settings ss)) ss = Inr c" and "wf_authored (ss_playlists ss)"
  shows "(\<exists>i. built_reference (wire_ids (cp_wire c)) ss reference = Some i) \<longleftrightarrow>
    (use_refusal mc reference ss \<noteq> Some No_Longer_Exists \<and> use_refusal mc reference ss \<noteq> Some Nothing_To_Play_Yet) \<or>
    (\<exists>p. find_playlist reference ss = Some p \<and> pl_id p = FALLBACK_PLAYLIST_ID)"
proof (cases "is_fallback_reference reference")
  case False
  show ?thesis
  proof (cases "find_playlist reference ss")
    case (Some p)
    from emitted_iff [OF assms find_playlist_in [OF assms(2) Some]] Some False show ?thesis
      by (auto simp: built_reference_def use_refusal_def Let_def)
  qed (use False in \<open>simp add: built_reference_def use_refusal_def\<close>)
qed (simp add: built_reference_def use_refusal_def)

lemma desk_good: "good_playlists (ss_playlists desk_session)"
proof -
  have "wf_authored (ss_playlists desk_session)" "unambiguous (ss_playlists desk_session)"
    "capped (ss_playlists desk_session)" by code_simp+
  then show ?thesis by (simp add: good_playlists_def)
qed

theorem guard_agrees_with_compiler_witness:
  "(\<exists>i. built_reference (wire_ids desk_wire) desk_session (lit ''Lost'') = Some i) \<longleftrightarrow>
    use_refusal toy_machine (lit ''Lost'') desk_session \<noteq> Some No_Longer_Exists \<and>
    use_refusal toy_machine (lit ''Lost'') desk_session \<noteq> Some Nothing_To_Play_Yet"
proof -
  have "case find_playlist (lit ''Lost'') desk_session of None \<Rightarrow> True | Some p \<Rightarrow> pl_id p \<noteq> FALLBACK_PLAYLIST_ID"
    by code_simp
  then have plain: "\<not> (\<exists>p. find_playlist (lit ''Lost'') desk_session = Some p \<and> pl_id p = FALLBACK_PLAYLIST_ID)" by auto
  have wf: "wf_authored (ss_playlists desk_session)" using desk_good by (simp add: good_playlists_def)
  have "compile_runtime toy_machine (full_build (ss_settings desk_session)) desk_session = Inr desk_compiled"
    using desk_compiles by (simp add: desk_build_def desk_session_def)
  from guard_agrees_with_compiler [OF this wf, of "lit ''Lost''"] plain show ?thesis
    by (simp only: desk_compiled_def compiled.simps simp_thms)
qed

section \<open>An edit the guards allow keeps every saved reference usable\<close>

text \<open>The session with the entries of one playlist replaced, and every reference that is saved.\<close>

definition with_entries :: "playlist \<Rightarrow> entry list \<Rightarrow> session \<Rightarrow> session" where
  "with_entries p entries ss =
     ss\<lparr>ss_playlists := AList.update (pl_id p) (p\<lparr>pl_entries := entries\<rparr>) (ss_playlists ss)\<rparr>"

definition saved_references :: "session \<Rightarrow> pystr list" where
  "saved_references ss =
     (if se_active_playlist (ss_settings ss) = [] then [] else [se_active_playlist (ss_settings ss)]) @
     map rule_playlist (ss_schedules ss) @ map snd (all_assignments (ss_displays ss))"

lemma find_playlist_replaced:
  assumes "good_playlists (ss_playlists ss)" "map_of (ss_playlists ss) (pl_id p) = Some p"
    and "wf_playlist (p\<lparr>pl_entries := entries\<rparr>)"
  shows "find_playlist reference (with_entries p entries ss) =
    map_option (\<lambda>x. if pl_id x = pl_id p then p\<lparr>pl_entries := entries\<rparr> else x) (find_playlist reference ss)"
proof -
  let ?d = "ss_playlists ss" and ?q = "p\<lparr>pl_entries := entries\<rparr>"
  let ?d' = "AList.update (pl_id p) ?q ?d"
  have good': "good_playlists ?d'" using good_replace [OF assms(1,2), of ?q] assms(3) by simp
  have keys: "distinct (map fst ?d)" using assms(1) by (simp add: good_playlists_def wf_authored_def)
  show ?thesis
  proof (cases "map_of ?d reference")
    case (Some x)
    then have "pl_id x = reference" using good_authoredD [OF assms(1)] by blast
    with Some show ?thesis by (auto simp: find_playlist_def with_entries_def)
  next
    case None
    then have other: "reference \<noteq> pl_id p" using assms(2) by auto
    with None have find: "find_playlist reference (with_entries p entries ss) = by_name ?d' reference"
      "find_playlist reference ss = by_name ?d reference"
      by (simp_all add: find_playlist_def with_entries_def)
    show ?thesis
    proof (cases "by_name ?d reference")
      case (Some x)
      then obtain k where x: "(k, x) \<in> set ?d" "strip (casefold reference) = casefold (pl_name x)"
        using by_name_SomeD by blast
      then have "map_of ?d k = Some x" "pl_id x = k"
        using keys good_authoredD [OF assms(1)] by auto
      then have "map_of ?d' k = Some (if k = pl_id p then ?q else x)" by simp
      moreover have "pl_name (if k = pl_id p then ?q else x) = pl_name x"
        using \<open>map_of ?d k = Some x\<close> assms(2) by auto
      ultimately have "by_name ?d' reference = Some (if k = pl_id p then ?q else x)"
        using by_name_only [OF good'] x(2) by (metis map_of_SomeD)
      with Some \<open>pl_id x = k\<close> show ?thesis unfolding find by simp
    next
      case no: None
      have "by_name ?d' reference = None"
      proof (rule ccontr)
        assume "by_name ?d' reference \<noteq> None"
        then obtain y where y: "by_name ?d' reference = Some y" by blast
        from by_name_SomeD [OF y] obtain k where k: "(k, y) \<in> set ?d'"
          "strip (casefold reference) = casefold (pl_name y)" by blast
        from set_update_wf [OF keys k(1)] have "\<exists>j z. (j, z) \<in> set ?d \<and> pl_name z = pl_name y"
          using assms(2) map_of_SomeD by fastforce
        with by_name_only [OF assms(1)] k(2) no show False by (metis option.simps(3))
      qed
      with no show ?thesis unfolding find by simp
    qed
  qed
qed

lemma with_entries_playability [simp]:
  "playlist_playability mc (with_entries p entries ss) = playlist_playability mc ss"
proof -
  have same: "ss_settings (with_entries p entries ss) = ss_settings ss"
    "ss_pairings (with_entries p entries ss) = ss_pairings ss" "ss_library (with_entries p entries ss) = ss_library ss"
    by (simp_all add: with_entries_def)
  have "resolved_entry mc b (with_entries p entries ss) item eid = resolved_entry mc b ss item eid" for b item eid
    unfolding resolved_entry_def same ..
  note resolved = this
  show ?thesis
    by (rule ext) (unfold playlist_playability_def entry_playability_def library_index_def same resolved, rule refl)
qed

lemma entries_refusal_answer:
  "entries_refusal mc p after s ss taking_away = Inr (answer, noted) \<Longrightarrow>
     answer = change_problem (playlist_playability mc ss (pl_entries p)) (playlist_playability mc ss after)
       (playlist_uses (pl_id p) s ss \<noteq> [])"
  by (cases taking_away) (auto simp: entries_refusal_def uses_that_decide_def Let_def and_then_Inr)

lemma plays_compiles: "pb_plays (entry_playability mc ss found) \<Longrightarrow> pb_compiles (entry_playability mc ss found)"
  by (auto simp: entry_playability_def Let_def split: option.splits if_splits)

lemma some_plays_compiles:
  "list_ex pb_plays (playlist_playability mc ss as) \<Longrightarrow> list_ex pb_compiles (playlist_playability mc ss as)"
  using plays_compiles by (auto simp: playlist_playability_def list_ex_iff)

text \<open>A saved reference to a playlist is one of its uses.\<close>

lemma saved_reference_use:
  assumes "reference \<in> set (saved_references ss)" "find_playlist reference ss = Some q"
  shows "playlist_uses (pl_id q) (ss_settings ss) ss \<noteq> []"
proof -
  consider "reference = se_active_playlist (ss_settings ss)" "se_active_playlist (ss_settings ss) \<noteq> []"
    | r where "r \<in> set (ss_schedules ss)" "reference = rule_playlist r"
    | d where "(d, reference) \<in> set (all_assignments (ss_displays ss))"
    using assms(1) by (auto simp: saved_references_def split: if_splits)
  then show ?thesis
  proof cases
    case 1
    with assms(2) show ?thesis by (simp add: playlist_uses_def Let_def)
  next
    case 2
    with assms(2) have "filter (\<lambda>r. case find_playlist (rule_playlist r) ss of None \<Rightarrow> False | Some p \<Rightarrow> pl_id p = pl_id q)
        (ss_schedules ss) \<noteq> []" by (auto simp: filter_empty_conv intro!: bexI [of _ r])
    then show ?thesis by (simp add: playlist_uses_def Let_def)
  next
    case 3
    with assms(2) have "filter (\<lambda>(c, p). case find_playlist p ss of None \<Rightarrow> False | Some p \<Rightarrow> pl_id p = pl_id q)
        (all_assignments (ss_displays ss)) \<noteq> []"
      by (auto simp: filter_empty_conv intro!: bexI [of _ "(d, reference)"])
    then show ?thesis by (simp add: playlist_uses_def Let_def)
  qed
qed

text \<open>C11: Where \<open>entries_refusal\<close> allows new entries for a playlist, every saved reference - the default's,
  a rule's, a screen's - that could be used before the edit still can after it.\<close>

theorem allowed_edit_keeps_uses:
  assumes "good_playlists (ss_playlists ss)" and "map_of (ss_playlists ss) (pl_id p) = Some p"
    and "wf_playlist (p\<lparr>pl_entries := entries\<rparr>)"
    and "entries_refusal mc p entries (ss_settings ss) ss taking_away = Inr (None, noted)"
    and "reference \<in> set (saved_references ss)" and "use_refusal mc reference ss = None"
  shows "use_refusal mc reference (with_entries p entries ss) = None"
proof (cases "is_fallback_reference reference")
  case False
  then obtain q where q: "find_playlist reference ss = Some q"
    and plays: "list_ex pb_plays (playlist_playability mc ss (pl_entries q))"
    using assms(6) by (auto simp: use_refusal_def Let_def split: option.splits if_splits)
  note found = find_playlist_replaced [OF assms(1-3), of reference, unfolded q, simplified]
  show ?thesis
  proof (cases "pl_id q = pl_id p")
    case True
    have "wf_authored (ss_playlists ss)" using assms(1) by (simp add: good_playlists_def)
    from find_playlist_in [OF this q] True assms(2) have "q = p" by (metis option.inject)
    have "change_problem (playlist_playability mc ss (pl_entries p)) (playlist_playability mc ss entries) True = None"
      using entries_refusal_answer [OF assms(4)] saved_reference_use [OF assms(5) q] True by simp
    then have "list_ex pb_plays (playlist_playability mc ss entries)"
      using plays by (auto simp: \<open>q = p\<close> change_problem_def leaves_nothing_to_play_def split: if_splits)
    with some_plays_compiles [OF this] found True False show ?thesis by (simp add: use_refusal_def Let_def)
  next
    case other: False
    with found plays some_plays_compiles [OF plays] False show ?thesis by (simp add: use_refusal_def Let_def)
  qed
qed (simp add: use_refusal_def)

definition two_entries :: "entry list" where
  "two_entries = [\<lparr>entry_id = lit ''e3'', entry_source = lit ''/w/gone.mp4''\<rparr>,
     \<lparr>entry_id = lit ''e4'', entry_source = lit ''/w/hill.png''\<rparr>]"

theorem allowed_edit_keeps_uses_witness:
  "use_refusal toy_machine (lit ''QUIET'') (with_entries waves two_entries desk_session) = None"
proof -
  have "map_of (ss_playlists desk_session) (pl_id waves) = Some waves" by (simp add: desk_session_def waves_def)
  moreover have "wf_playlist (waves\<lparr>pl_entries := two_entries\<rparr>)" by code_simp
  moreover have "entries_refusal toy_machine waves two_entries (ss_settings desk_session) desk_session True = Inr (None, False)"
    by code_simp
  moreover have "lit ''QUIET'' \<in> set (saved_references desk_session)" by code_simp
  moreover have "use_refusal toy_machine (lit ''QUIET'') desk_session = None" by code_simp
  ultimately show ?thesis by (rule allowed_edit_keeps_uses [OF desk_good])
qed

section \<open>The document the service holds\<close>

lemma find_published_right:
  assumes "b \<in> set bs" "compile_runtime mc b ss = Inr c" "generation_of c = Inr generation"
    and "find_published mc ss generation_of generation first refused bs = Inr c'"
  shows "\<exists>b'\<in>set bs. compile_runtime mc b' ss = Inr c' \<and> generation_of c' = Inr generation"
  using assms(1,4)
proof (induction bs arbitrary: first refused)
  case (Cons b0 bs)
  show ?case
  proof (cases "b = b0")
    case True
    with Cons.prems(2) assms(2,3) show ?thesis by auto
  next
    case False
    with Cons.prems(1) have mem: "b \<in> set bs" by simp
    show ?thesis
    proof (cases "compile_runtime mc b0 ss")
      case (Inl e)
      with Cons.prems(2) Cons.IH [OF mem] show ?thesis by (auto split: if_splits)
    next
      case (Inr c0)
      with Cons.prems(2) obtain token where token: "generation_of c0 = Inr token" by (auto simp: and_then_Inr)
      show ?thesis
      proof (cases "token = generation")
        case True
        with Inr Cons.prems(2) token show ?thesis by auto
      next
        case other: False
        with Inr Cons.prems(2) token Cons.IH [OF mem] show ?thesis by auto
      qed
    qed
  qed
qed simp

text \<open>Where any of the documents that publishing makes has the generation the service reports, the
  compile that \<open>compiled_as_published\<close> answers with is one of those documents and has that generation:
  a step down for an older service is never mistaken for stores that moved on.\<close>

theorem published_document_found:
  assumes "b \<in> set (published_builds s status)" and "compile_runtime mc b ss = Inr c"
    and "document_generation mc s c = Inr generation"
    and "compiled_as_published mc s ss status generation = Inr c'"
  shows "\<exists>b'\<in>set (published_builds s status).
    compile_runtime mc b' ss = Inr c' \<and> document_generation mc s c' = Inr generation"
  using find_published_right [OF assms(1,2), of "document_generation mc s"] assms(3,4)
  by (simp add: compiled_as_published_def)

definition all_schemas :: json where
  "all_schemas = JObj [(lit ''status_version'', JInt 2),
     (lit ''supported_config_schemas'', JArr [JInt 6, JInt 7, JInt 8])]"

theorem published_document_found_witness:
  "\<exists>c'. compiled_as_published toy_machine desk_settings desk_session all_schemas (mc_digest toy_machine []) = Inr c' \<and>
     (\<exists>b'\<in>set (published_builds desk_settings all_schemas).
        compile_runtime toy_machine b' desk_session = Inr c' \<and>
        document_generation toy_machine desk_settings c' = Inr (mc_digest toy_machine []))"
proof -
  have schemas: "list_all (lists_schema all_schemas) [6, 7, 8]" by code_simp
  have mem: "desk_build \<in> set (published_builds desk_settings all_schemas)"
    by (simp add: published_builds_def desk_asked [OF schemas])
  from desk_published [OF schemas] have
    "compiled_as_published toy_machine desk_settings desk_session all_schemas (mc_digest toy_machine []) = Inr desk_compiled" .
  with published_document_found [OF mem desk_compiles desk_generation this] show ?thesis by blast
qed

end
