(* ===== verification/Runtime_Bounds.thy ===== *)
theory Runtime_Bounds
  imports Runtime_Guarantees
begin

text \<open>
  What a built document is made of: entries the service can play, within every bound of the wire.
\<close>

section \<open>Every entry is one the service can play\<close>

definition table_typed :: "string \<Rightarrow> (pystr \<times> json) list \<Rightarrow> bool" where
  "table_typed renderer table \<longleftrightarrow>
     distinct (map fst table) \<and>
     list_all (\<lambda>(k, v). list_ex (\<lambda>d. dial_key d = k \<and> dial_valid d v) (per_wallpaper (lit renderer))) table"

definition wf_wire_entry :: "wire_entry \<Rightarrow> bool" where
  "wf_wire_entry e \<longleftrightarrow>
     bounded_text MAX_WIRE_IDENTIFIER_BYTES (we_id e) \<and> absolute_path_ok (we_still e) \<and>
     (case we_taboo e of None \<Rightarrow> True
      | Some (reason, source) \<Rightarrow> bounded_text MAX_HEALTH_REASON reason \<and> bounded_text MAX_HEALTH_SOURCE source) \<and>
     (case we_motion e of None \<Rightarrow> we_kind e \<noteq> Video | Some m \<Rightarrow> we_kind e = Video \<and> absolute_path_ok m) \<and>
     (case we_scene_id e of None \<Rightarrow> we_kind e \<noteq> Scene | Some i \<Rightarrow> we_kind e = Scene \<and> is_workshop_id i) \<and>
     (we_scene_base e \<noteq> [] \<longrightarrow> we_kind e = Scene \<and> is_workshop_id (we_scene_base e)) \<and>
     (we_properties e \<noteq> [] \<longrightarrow> we_kind e = Scene \<and> length (we_properties e) \<le> MAX_PROPERTIES) \<and>
     distinct (map fst (we_properties e)) \<and>
     list_all (\<lambda>(name, v). property_name name \<and> valid_property_value v) (we_properties e) \<and>
     (we_video e \<noteq> [] \<longrightarrow> we_kind e = Video) \<and> table_typed ''video'' (we_video e) \<and>
     (we_scene e \<noteq> [] \<longrightarrow> we_kind e = Scene) \<and> table_typed ''scene'' (we_scene e)"

lemma distinct_map_filter_keys:
  "distinct (map key xs) \<Longrightarrow> (\<And>x y. f x = Some y \<Longrightarrow> fst y = key x) \<Longrightarrow>
     distinct (map fst (List.map_filter f xs)) \<and> fst ` set (List.map_filter f xs) \<subseteq> key ` set xs"
proof (induction xs)
  case (Cons x xs)
  then show ?case by (cases "f x") (fastforce simp: List.map_filter_simps)+
qed (simp add: List.map_filter_simps)

lemma applied_wf:
  assumes "renderer = ''video'' \<or> renderer = ''scene''"
  shows "table_typed renderer (applied_dials own (lit renderer))"
proof -
  have "distinct (map dial_key (per_wallpaper (lit renderer)))"
    using dial_keys_distinct assms unfolding dial_keys_def by (elim disjE) simp_all
  then have "distinct (map fst (overrides (lit renderer) raw))" for raw
    unfolding overrides_def by (rule distinct_map_filter_keys [THEN conjunct1]) (auto split: option.splits)
  moreover have "list_all (\<lambda>(k, v). list_ex (\<lambda>d. dial_key d = k \<and> dial_valid d v) (per_wallpaper (lit renderer)))
      (overrides (lit renderer) raw)" for raw
    unfolding list_all_iff list_ex_iff by (auto dest: overrides_sound)
  ultimately show ?thesis by (simp add: table_typed_def applied_dials_def)
qed

lemma coerce_integer: "dial_kind d = Int_Dial \<Longrightarrow> dial_coerce d v = (if dial_valid d v then Some v else None)"
  by (simp add: dial_coerce_def)

lemma own_scene_dials_wf:
  assumes "settings_wire_ok s"
  shows "table_typed ''scene'' (own_scene_dials own s)"
proof -
  let ?table = "applied_dials own (lit ''scene'')" and ?v = "dial_setting_value s (lit ''scene_volume'')"
  let ?all = "?table @ [(lit ''volume'', ?v)]"
  have table: "table_typed ''scene'' ?table" by (rule applied_wf) simp
  have "list_ex (\<lambda>d. dial_setting d = lit ''scene_volume'' \<and> dial_key d = lit ''volume'' \<and> dial_kind d = Int_Dial \<and>
      d \<in> set (per_wallpaper (lit ''scene''))) DIAL_SETTINGS" by code_simp
  then obtain d where d: "d \<in> set DIAL_SETTINGS" "dial_setting d = lit ''scene_volume''"
    "dial_key d = lit ''volume''" "dial_kind d = Int_Dial" "d \<in> set (per_wallpaper (lit ''scene''))"
    by (auto simp: list_ex_iff)
  have "dial_coerce d (dial_setting_value s (dial_setting d)) \<noteq> None"
    using assms d(1) by (simp add: settings_wire_ok_def list_all_iff)
  then have "dial_coerce d ?v \<noteq> None" unfolding d(2) .
  then have "dial_valid d ?v" using coerce_integer [OF d(4)] by (simp split: if_splits)
  with d(3,5) have volume: "list_ex (\<lambda>d. dial_key d = lit ''volume'' \<and> dial_valid d ?v) (per_wallpaper (lit ''scene''))"
    by (auto simp: list_ex_iff)
  have "table_typed ''scene'' (in_dial_order (lit ''scene'') ?all)" if "lit ''volume'' \<notin> fst ` set ?table"
  proof -
    have "table_typed ''scene'' ?all" using table volume that by (auto simp: table_typed_def)
    moreover have "mset (map fst (in_dial_order (lit ''scene'') ?all)) = mset (map fst ?all)"
      by (simp add: in_dial_order_def)
    then have "distinct (map fst (in_dial_order (lit ''scene'') ?all)) = distinct (map fst ?all)"
      by (rule mset_eq_imp_distinct_iff)
    ultimately show ?thesis by (simp add: table_typed_def list_all_iff in_dial_order_def)
  qed
  with table show ?thesis by (simp add: own_scene_dials_def Let_def)
qed

lemma scene_properties_wf:
  assumes "scene_properties vs = Some ps"
  shows "length ps \<le> MAX_PROPERTIES \<and> distinct (map fst ps) \<and>
    list_all (\<lambda>(name, v). property_name name \<and> valid_property_value v) ps"
proof -
  have "mset (map fst (sort_key fst vs)) = mset (map fst vs)" by simp
  from mset_eq_imp_distinct_iff [OF this] show ?thesis
    using assms by (auto simp: scene_properties_def list_all_iff split: if_splits)
qed

lemma table_typed_Nil [simp]: "table_typed renderer []"
  by (simp add: table_typed_def)

lemma wf_palette [simp]: "wf_wire_entry (e\<lparr>we_palette := p\<rparr>) = wf_wire_entry e"
  by (simp add: wf_wire_entry_def cong: option.case_cong)

text \<open>What \<open>start_entry\<close> was checked for before the renderer's part goes in.\<close>

definition started :: "library_item \<Rightarrow> wire_entry \<Rightarrow> bool" where
  "started item e \<longleftrightarrow>
     (\<exists>eid still h. e = start_entry item eid still h \<and> bounded_text MAX_WIRE_IDENTIFIER_BYTES eid \<and>
        absolute_path_ok still \<and> health_bounded h)"

lemma video_entry_wf:
  assumes "video_entry b item bd e = Inr (Some e', w)" "started item e" "item_kind item = Video"
  shows "wf_wire_entry e'"
proof -
  from assms(2) obtain eid still h where e: "e = start_entry item eid still h"
    and ok: "bounded_text MAX_WIRE_IDENTIFIER_BYTES eid" "absolute_path_ok still" "health_bounded h"
    by (auto simp: started_def)
  from assms(1) obtain motion where m: "absolute_path_ok motion"
    and e': "e' = e\<lparr>we_motion := Some motion,
      we_video := (if bd_dials b then applied_dials (pr_renderer bd) (lit ''video'') else [])\<rparr>"
    by (auto simp: video_entry_def and_then_Inr Let_def split: option.splits if_splits)
  have "table_typed ''video'' (applied_dials (pr_renderer bd) (lit ''video''))" by (rule applied_wf) simp
  then show ?thesis
    using ok m assms(3) unfolding e' e
    by (simp add: wf_wire_entry_def start_entry_def health_bounded_def split: health.splits)
qed

lemma scene_kept:
  "(if \<not> workshop then Inr (None, []) else and_then (check cause bounded) (\<lambda>_.
      if unbased then Inr (None, []) else case (if vs = [] then Some [] else scene_properties vs) of
        None \<Rightarrow> Inr (None, withheld) | Some ps \<Rightarrow> Inr (Some (f ps), withheld'))) = Inr (Some e', w) \<Longrightarrow>
     workshop \<and> \<not> unbased \<and> (\<exists>ps. (if vs = [] then Some [] else scene_properties vs) = Some ps \<and> e' = f ps)"
  by (auto simp: and_then_Inr split: if_splits option.splits)

lemma scene_entry_wf:
  assumes "scene_entry mc b item bd e = Inr (Some e', w)" "started item e" "item_kind item = Scene"
    and "settings_wire_ok (bd_settings b)"
  shows "wf_wire_entry e'"
proof -
  from assms(2) obtain eid still h where e: "e = start_entry item eid still h"
    and ok: "bounded_text MAX_WIRE_IDENTIFIER_BYTES eid" "absolute_path_ok still" "health_bounded h"
    by (auto simp: started_def)
  from scene_kept [OF assms(1) [unfolded scene_entry_def Let_def]] obtain vs properties where
    scene: "is_workshop_id (item_scene item)" "item_scene_base item \<noteq> [] \<longrightarrow> is_workshop_id (item_scene_base item)"
    and properties: "(if vs = [] then Some [] else scene_properties vs) = Some properties"
    and e': "e' = e\<lparr>we_scene_id := Some (item_scene item), we_scene_base := item_scene_base item,
      we_properties := properties,
      we_scene := (if bd_dials b then own_scene_dials (pr_renderer bd) (bd_settings b) else [])\<rparr>"
    by blast
  have "length properties \<le> MAX_PROPERTIES \<and> distinct (map fst properties) \<and>
      list_all (\<lambda>(name, v). property_name name \<and> valid_property_value v) properties"
    using properties scene_properties_wf by (cases "vs = []") auto
  moreover have "table_typed ''scene'' (own_scene_dials (pr_renderer bd) (bd_settings b))"
    by (rule own_scene_dials_wf [OF assms(4)])
  ultimately show ?thesis
    using ok scene assms(3) unfolding e' e
    by (simp add: wf_wire_entry_def start_entry_def health_bounded_def split: health.splits)
qed

lemma resolved_entry_wf:
  assumes "resolved_entry mc b ss item eid = Inr (Some e, w)" "settings_wire_ok (bd_settings b)"
  shows "wf_wire_entry e"
proof -
  let ?pair = "resolve_accepted (ss_pairings ss) (ss_library ss) item"
  from assms(1) obtain still k w' where
    start: "bounded_text MAX_WIRE_IDENTIFIER_BYTES eid" "absolute_path_ok still" "health_bounded (pr_health ?pair)"
    and body: "(case item_kind item of Still \<Rightarrow> Inr (Some (start_entry item eid still (pr_health ?pair)), [])
      | Video \<Rightarrow> video_entry b item ?pair (start_entry item eid still (pr_health ?pair))
      | Scene \<Rightarrow> scene_entry mc b item ?pair (start_entry item eid still (pr_health ?pair))) = Inr (Some k, w')"
    and finish: "finish_entry (pr_palette ?pair) (se_preview_scheme (ss_settings ss)) k w' = Inr (Some e, w)"
    unfolding resolved_entry_def Let_def
    by (auto simp: and_then_Inr split: if_split_asm option.split_asm)
  have started: "started item (start_entry item eid still (pr_health ?pair))"
    using start unfolding started_def by blast
  have "wf_wire_entry k"
  proof (cases "item_kind item")
    case Still
    with body start show ?thesis
      by (auto simp: wf_wire_entry_def start_entry_def health_bounded_def split: health.splits)
  next
    case Video
    with body video_entry_wf [OF _ started Video] show ?thesis by simp
  next
    case Scene
    with body scene_entry_wf [OF _ started Scene assms(2)] show ?thesis by simp
  qed
  moreover from finish obtain p where "e = k\<lparr>we_palette := p\<rparr>" by (auto simp: finish_entry_def and_then_Inr)
  ultimately show ?thesis by simp
qed

text \<open>C14: Every entry of a built document is well typed for the service: an absolute still in bounds; a
  motion exactly for a video and a Workshop id exactly for a scene; a scene's values under names and
  texts the engine takes, each once and at most 512 of them; and renderer settings only of the renderer
  that plays it, each one of its dials, once, with a value of that dial.\<close>

theorem entries_well_typed:
  assumes "compile_runtime mc b ss = Inr c" and "p \<in> set (wd_playlists (cp_wire c))" and "e \<in> set (wp_entries p)"
  shows "wf_wire_entry e"
proof -
  from compile_passed [OF assms(1)] obtain g where w: "compile_wire mc b ss = Inr (cp_wire c, g, cp_left_out c)"
    by metis
  show ?thesis
  proof (rule compile_wire_passed [OF w])
    fix es default_id left rules displays
    assume ok: "settings_wire_ok (bd_settings b)" and g: "gather_all mc b ss = Inr (es, g)"
      and c: "cp_wire c = wire_of b default_id (fallback_nothing b ss es) (ga_playlists g) rules displays"
    have "wf_wire_entry e" if "resolved_entry mc b ss item eid = Inr (Some e, w)" for item eid e w
      using resolved_entry_wf [OF that ok] .
    from gathered_entries_all [OF g, of wf_wire_entry, OF this] assms(2,3) show ?thesis
      by (simp add: c wire_of_def)
  qed
qed

theorem entries_well_typed_witness: "wf_wire_entry hill_entry"
proof -
  have "wd_playlists desk_wire ! 0 \<in> set (wd_playlists (cp_wire desk_compiled))"
    by (simp add: desk_compiled_def desk_wire_def)
  from entries_well_typed [OF desk_compiles this, of hill_entry] show ?thesis by (simp add: desk_wire_def)
qed

section \<open>Bounds\<close>

lemma identities_bounded:
  "playlist_identities_ok seen i ps = Inr () \<Longrightarrow>
     \<forall>p\<in>set ps. bounded_text MAX_WIRE_IDENTIFIER_BYTES (wp_id p) \<and> bounded_name (wp_name p)"
  by (induction seen i ps rule: playlist_identities_ok.induct) (simp_all add: Let_def and_then_Inr)

lemma schedules_bounded:
  "schedules_ok seen rs = Inr () \<Longrightarrow> \<forall>(r, i)\<in>set rs. bounded_text MAX_WIRE_IDENTIFIER_BYTES (rule_id r) \<and>
     bounded_text MAX_REFERENCE_BYTES i \<and> (rule_connector r = [] \<or> bounded_connector (rule_connector r))"
  by (induction seen rs rule: schedules_ok.induct) (auto simp: and_then_Inr)

lemma schedules_apart:
  "schedules_ok seen rs = Inr () \<Longrightarrow> distinct (map (rule_id \<circ> fst) rs) \<and> (rule_id \<circ> fst) ` set rs \<inter> set seen = {}"
  by (induction seen rs rule: schedules_ok.induct) (auto simp: and_then_Inr)

lemma displays_bounded:
  "displays_ok seen as = Inr () \<Longrightarrow>
     \<forall>(d, i)\<in>set as. bounded_connector d \<and> bounded_text MAX_REFERENCE_BYTES i"
  by (induction seen as rule: displays_ok.induct) (auto simp: and_then_Inr)

lemma displays_apart: "displays_ok seen as = Inr () \<Longrightarrow> distinct (map fst as) \<and> fst ` set as \<inter> set seen = {}"
  by (induction seen as rule: displays_ok.induct) (auto simp: and_then_Inr)

lemma bounded_texts: "bounded_text MAX_WIRE_IDENTIFIER_BYTES t \<Longrightarrow> strip t \<noteq> [] \<and> utf8_len t \<le> 256 \<and> \<not> has_control t"
  "bounded_text MAX_REFERENCE_BYTES t \<Longrightarrow> strip t \<noteq> [] \<and> utf8_len t \<le> 480 \<and> \<not> has_control t"
  "bounded_connector t \<Longrightarrow> strip t \<noteq> [] \<and> utf8_len t \<le> 256 \<and> \<not> has_control t \<and> \<not> list_ex cp_isspace t"
  "bounded_name t \<Longrightarrow> strip t \<noteq> [] \<and> length t \<le> 120 \<and> \<not> has_control t"
  by (simp_all add: bounded_text_def bounded_connector_def bounded_name_def MAX_WIRE_IDENTIFIER_BYTES_def
      MAX_REFERENCE_BYTES_def MAX_WIRE_NAME_def MAX_WIRE_CONNECTOR_BYTES_def)

definition plain_text :: "nat \<Rightarrow> pystr \<Rightarrow> bool" where
  "plain_text n t \<longleftrightarrow> strip t \<noteq> [] \<and> utf8_len t \<le> n \<and> \<not> has_control t"

text \<open>C37: What bounds a built document keeps. At most 578 playlists of at most 10,000 entries each, every
  playlist with an id of at most 256 bytes and a name of at most 120 characters; at most 512 rules, of
  distinct ids of at most 256 bytes, each naming a playlist in at most 480 bytes and, where it is for one
  screen, a connector of at most 256 bytes with no white space; at most 64 screens, of distinct such
  connectors; none of these texts blank or with a control character; 8 MiB of text, a status the service
  can always answer with inside 1 MiB, and overrides of at most 1 MiB.\<close>

theorem document_fits:
  assumes "compile_runtime mc b ss = Inr c"
  shows "length (wd_playlists (cp_wire c)) \<le> 578 \<and>
    (\<forall>p\<in>set (wd_playlists (cp_wire c)). length (wp_entries p) \<le> 10000 \<and> plain_text 256 (wp_id p) \<and>
       strip (wp_name p) \<noteq> [] \<and> length (wp_name p) \<le> 120 \<and> \<not> has_control (wp_name p)) \<and>
    length (wd_schedules (cp_wire c)) \<le> 512 \<and> distinct (map (rule_id \<circ> fst) (wd_schedules (cp_wire c))) \<and>
    (\<forall>(r, playlist)\<in>set (wd_schedules (cp_wire c)). plain_text 256 (rule_id r) \<and> plain_text 480 playlist \<and>
       (rule_connector r = [] \<or> plain_text 256 (rule_connector r) \<and> \<not> list_ex cp_isspace (rule_connector r))) \<and>
    length (wd_displays (cp_wire c)) \<le> 64 \<and> distinct (map fst (wd_displays (cp_wire c))) \<and>
    (\<forall>(connector, playlist)\<in>set (wd_displays (cp_wire c)). plain_text 256 connector \<and>
       \<not> list_ex cp_isspace connector \<and> plain_text 480 playlist) \<and>
    utf8_len (cp_document c) \<le> 8388608 \<and> (\<exists>n. status_bound (cp_wire c) = Some n \<and> n \<le> 1048576) \<and>
    (case cp_overrides c of None \<Rightarrow> True | Some t \<Rightarrow> utf8_len t \<le> 1048576)"
proof -
  from compile_passed [OF assms] obtain g where w: "compile_wire mc b ss = Inr (cp_wire c, g, cp_left_out c)"
    and r: "rendered_document mc (bd_settings b) (cp_wire c) = Inr (cp_document c)"
    and o: "overrides_document (ga_rotations g) (sort (map fst (filter
       (\<lambda>(c, p). beats_global_rules (ss_displays ss) c) (wd_displays (cp_wire c))))) = Inr (cp_overrides c)"
    by metis
  have lists: "length (wd_schedules (cp_wire c)) \<le> 512 \<and> schedules_ok [] (wd_schedules (cp_wire c)) = Inr () \<and>
      length (wd_displays (cp_wire c)) \<le> 64 \<and> displays_ok [] (wd_displays (cp_wire c)) = Inr ()"
    by (rule compile_wire_passed [OF w]) (simp add: wire_of_def MAX_WIRE_SCHEDULES_def MAX_WIRE_DISPLAYS_def)
  have counts: "length (wd_playlists (cp_wire c)) \<le> 578"
    "\<forall>p\<in>set (wd_playlists (cp_wire c)). length (wp_entries p) \<le> 10000"
    and names: "playlist_identities_ok [] 0 (wd_playlists (cp_wire c)) = Inr ()"
    using compiled_shape(1) [OF assms]
    by (auto simp: playlists_bounded_def and_then_Inr list_all_iff MAX_WIRE_PLAYLISTS_def MAX_WIRE_ENTRIES_def)
  have playlists: "\<forall>p\<in>set (wd_playlists (cp_wire c)). length (wp_entries p) \<le> 10000 \<and> plain_text 256 (wp_id p) \<and>
      strip (wp_name p) \<noteq> [] \<and> length (wp_name p) \<le> 120 \<and> \<not> has_control (wp_name p)"
    using counts(2) identities_bounded [OF names] bounded_texts(1,4) unfolding plain_text_def by blast
  have rules: "\<forall>(r, playlist)\<in>set (wd_schedules (cp_wire c)). plain_text 256 (rule_id r) \<and> plain_text 480 playlist \<and>
      (rule_connector r = [] \<or> plain_text 256 (rule_connector r) \<and> \<not> list_ex cp_isspace (rule_connector r))"
    using schedules_bounded lists bounded_texts(1-3) unfolding plain_text_def by blast
  have screens: "\<forall>(connector, playlist)\<in>set (wd_displays (cp_wire c)). plain_text 256 connector \<and>
      \<not> list_ex cp_isspace connector \<and> plain_text 480 playlist"
    using displays_bounded lists bounded_texts(2,3) unfolding plain_text_def by blast
  have apart: "distinct (map (rule_id \<circ> fst) (wd_schedules (cp_wire c)))" "distinct (map fst (wd_displays (cp_wire c)))"
    using schedules_apart displays_apart lists by blast+
  have size: "utf8_len (cp_document c) \<le> 8388608"
    using r by (auto simp: rendered_document_def and_then_Inr MAX_RUNTIME_CONFIG_BYTES_def)
  have status: "\<exists>n. status_bound (cp_wire c) = Some n \<and> n \<le> 1048576"
    using r by (auto simp: rendered_document_def document_text_def status_budget_def and_then_Inr
        MAX_RUNTIME_RESPONSE_BYTES_def split: option.splits)
  have "case cp_overrides c of None \<Rightarrow> True | Some t \<Rightarrow> utf8_len t \<le> 1048576"
    using o by (cases "cp_overrides c")
      (auto simp: overrides_document_def Let_def and_then_Inr MAX_RUNTIME_OVERRIDES_BYTES_def split: if_splits)
  with counts(1) playlists lists rules screens apart size status show ?thesis by blast
qed

theorem document_fits_witness:
  "length (wd_schedules desk_wire) \<le> 512 \<and> distinct (map (rule_id \<circ> fst) (wd_schedules desk_wire)) \<and>
   list_all (\<lambda>p. plain_text 256 (wp_id p)) (wd_playlists desk_wire)"
  using document_fits [OF desk_compiles] by (simp add: desk_compiled_def list_all_iff)

end
