(* ===== verification/Runtime_Refusals.thy ===== *)
theory Runtime_Refusals
  imports Runtime_Bounds
begin

text \<open>
  Why a compile is refused: where the scan could look everywhere and the service reads the document
  that plays nothing, only for a bound or for a file that could not be read. The proofs go through
  the passes by what each may fail with. The document that plays nothing is never refused.
\<close>

section \<open>What a computation may fail with\<close>

definition fails_only :: "exn set \<Rightarrow> 'a result \<Rightarrow> bool" where
  "fails_only E r \<longleftrightarrow> (\<forall>e. r = Inl e \<longrightarrow> e \<in> E)"

lemma fails_only_Inr [simp, intro]: "fails_only E (Inr x)"
  by (simp add: fails_only_def)

lemma fails_only_check: "(\<not> passed \<Longrightarrow> Err (RuntimeConfig cause) \<in> E) \<Longrightarrow> fails_only E (check cause passed)"
  by (simp add: fails_only_def check_def)

lemma fails_only_and_then:
  "fails_only E r \<Longrightarrow> (\<And>x. r = Inr x \<Longrightarrow> fails_only E (f x)) \<Longrightarrow> fails_only E (and_then r f)"
  by (cases r) (auto simp: fails_only_def)

lemma fails_only_mono: "fails_only E r \<Longrightarrow> E \<subseteq> F \<Longrightarrow> fails_only F r"
  by (auto simp: fails_only_def)

definition text_bound :: "exn set" where
  "text_bound = {Err (RuntimeConfig Text_Bound)}"

lemma fails_only_text: "fails_only text_bound (check Text_Bound passed)"
  by (rule fails_only_check) (simp add: text_bound_def)

section \<open>Gathering fails only at a text\<close>

lemma finish_fails: "fails_only text_bound (finish_entry policy generator e w)"
  unfolding finish_entry_def wire_palette_of_def Let_def
  by (intro fails_only_and_then) (auto intro!: fails_only_and_then fails_only_text)

lemma video_fails: "fails_only text_bound (video_entry b item bd e)"
  unfolding video_entry_def Let_def
  by (auto intro!: fails_only_and_then fails_only_text split: option.split)

lemma scene_fails_core:
  "fails_only text_bound (if \<not> workshop then Inr (None, []) else and_then (check Text_Bound bounded) (\<lambda>_.
      if unbased then Inr (None, []) else case r of
        None \<Rightarrow> Inr (None, withheld) | Some ps \<Rightarrow> Inr (Some (f ps), withheld')))"
  by (auto intro!: fails_only_and_then fails_only_text split: option.split)

lemma scene_fails: "fails_only text_bound (scene_entry mc b item bd e)"
  unfolding scene_entry_def Let_def by (rule scene_fails_core)

lemma resolved_fails: "fails_only text_bound (resolved_entry mc b ss item eid)"
proof -
  have kept: "fails_only text_bound (case kept of None \<Rightarrow> Inr (None, w) | Some e \<Rightarrow> finish_entry policy generator e w)"
    for kept w policy generator
    by (cases kept) (simp_all add: finish_fails)
  have body: "fails_only text_bound (case item_kind item of Still \<Rightarrow> Inr (Some e, []) | Video \<Rightarrow> video_entry b item bd e
      | Scene \<Rightarrow> scene_entry mc b item bd e)" for e bd
    by (cases "item_kind item") (simp_all add: video_fails scene_fails)
  show ?thesis
    unfolding resolved_entry_def Let_def
    by (auto intro!: fails_only_and_then fails_only_text kept body split: option.split)
qed

lemma entry_lines_fails: "fails_only text_bound (entry_lines mc b ss item eid n)"
  unfolding entry_lines_def by (auto intro!: fails_only_and_then resolved_fails)

lemma fallback_fails: "fails_only text_bound (fallback_entries mc b ss items n)"
  by (induction mc b ss items n rule: fallback_entries.induct)
    (auto intro!: fails_only_and_then entry_lines_fails)

lemma authored_fails: "fails_only text_bound (authored_entries mc b ss as n)"
proof (induction mc b ss as n rule: authored_entries.induct)
  case (2 mc b ss a rest n)
  then show ?case
    by (cases "by_path (library_items (ss_library ss)) (entry_path a)")
      (auto intro!: fails_only_and_then entry_lines_fails)
qed simp

lemma gather_fails: "fails_only text_bound (gather mc b ss ps g)"
  by (induction mc b ss ps g rule: gather.induct) (auto intro!: fails_only_and_then authored_fails)

lemma gather_all_fails: "fails_only text_bound (gather_all mc b ss)"
  unfolding gather_all_def by (auto intro!: fails_only_and_then fallback_fails gather_fails)

section \<open>References fail only where the scan could not look\<close>

definition looked_everywhere :: "session \<Rightarrow> bool" where
  "looked_everywhere ss \<longleftrightarrow> list_all (\<lambda>place. \<not> could_not_look (unseen_kind place)) (library_unseen (ss_library ss))"

lemma view_sees:
  assumes "looked_everywhere ss" "gather_all mc b ss = Inr (es, g)"
  shows "rv_unseen (view_of b ss es g) = [] \<and> rv_fallback_unseen (view_of b ss es g) = None"
proof -
  have none: "\<not> (\<exists>place\<in>set (library_unseen (ss_library ss)). could_not_look (unseen_kind place))"
    using assms(1) by (auto simp: looked_everywhere_def list_all_iff)
  then have "ga_unseen g = []" using gathered_shape(3) [OF assms(2)] by blast
  moreover have "unseen_folder sources (library_unseen (ss_library ss)) = None" for sources
    using none unseen_folder_Some [of sources "library_unseen (ss_library ss)"] by (cases "unseen_folder sources (library_unseen (ss_library ss))") auto
  moreover have "find (\<lambda>p. could_not_look (unseen_kind p)) (library_unseen (ss_library ss)) = None"
    using none by (auto simp: find_None_iff)
  ultimately show ?thesis by (simp add: view_of_def fallback_unseen_def)
qed

lemma runtime_playlist_returns:
  assumes "rv_unseen v = [] \<and> rv_fallback_unseen v = None"
  shows "fails_only E (runtime_playlist v owner owner_id quiet reference st)"
  using assms runtime_playlist_error [of v owner owner_id quiet reference st] by (auto simp: fails_only_def)

lemma emitted_schedules_return:
  "rv_unseen v = [] \<and> rv_fallback_unseen v = None \<Longrightarrow> fails_only E (emitted_schedules v s rs st)"
  by (induction v s rs st rule: emitted_schedules.induct)
    (auto intro!: fails_only_and_then runtime_playlist_returns)

lemma emitted_displays_return:
  "rv_unseen v = [] \<and> rv_fallback_unseen v = None \<Longrightarrow> fails_only E (emitted_displays v as st)"
  by (induction v as st rule: emitted_displays.induct)
    (auto intro!: fails_only_and_then runtime_playlist_returns)

lemma default_reference_returns:
  assumes "rv_unseen v = [] \<and> rv_fallback_unseen v = None"
  shows "fails_only E (default_reference v s)"
  using assms unfolding default_reference_def Let_def require_known_fallback_def
  by (auto intro!: fails_only_and_then runtime_playlist_returns fails_only_check)

section \<open>The checks\<close>

definition bounded_causes :: "exn set" where
  "bounded_causes = (\<lambda>cause. Err (RuntimeConfig cause)) `
     {Settings_Wire, Stores_Unreadable, Text_Bound, Count_Bound, Names_Conflict, Status_Budget, Document_Size,
      Override_Interval}"

lemma fails_only_bounded:
  "cause \<in> {Settings_Wire, Stores_Unreadable, Text_Bound, Count_Bound, Names_Conflict, Status_Budget, Document_Size,
     Override_Interval} \<Longrightarrow> fails_only bounded_causes (check cause passed)"
  by (rule fails_only_check) (auto simp: bounded_causes_def)

lemma text_bound_bounded: "fails_only text_bound r \<Longrightarrow> fails_only bounded_causes r"
  by (erule fails_only_mono) (auto simp: text_bound_def bounded_causes_def)

lemma identities_fail: "fails_only bounded_causes (playlist_identities_ok seen i ps)"
  by (induction seen i ps rule: playlist_identities_ok.induct)
    (auto simp: Let_def intro!: fails_only_and_then fails_only_bounded)

lemma schedules_ok_fail: "fails_only bounded_causes (schedules_ok seen rs)"
  by (induction seen rs rule: schedules_ok.induct) (auto intro!: fails_only_and_then fails_only_bounded)

lemma displays_ok_fail: "fails_only bounded_causes (displays_ok seen as)"
  by (induction seen as rule: displays_ok.induct) (auto intro!: fails_only_and_then fails_only_bounded)

lemma check_True: "check cause True = Inr ()"
  by simp

lemma compile_wire_fails:
  assumes "looked_everywhere ss" "bd_nothing b"
  shows "fails_only bounded_causes (compile_wire mc b ss)"
  unfolding compile_wire_def Let_def playlists_bounded_def
  by (auto simp: assms(2) check_True intro!: fails_only_and_then fails_only_bounded text_bound_bounded [OF gather_all_fails]
      identities_fail schedules_ok_fail displays_ok_fail default_reference_returns emitted_schedules_return
      emitted_displays_return view_sees [OF assms(1)])

section \<open>The text of a document that was compiled\<close>

lemma palette_written:
  assumes "wire_palette_of policy generator = Inr p"
  shows "encodable (palette_text p)"
proof -
  have mode: "encodable (mode_value m)" for m by (simp add: mode_value_def split: palette_mode.split)
  consider m where "p = Keep_Palette m"
    | scheme m where "p = Adaptive_Palette scheme m" "encodable scheme"
    | kind name m where "p = Named_Palette kind name m" "encodable kind" "encodable name"
    using assms
    by (auto simp: wire_palette_of_def Let_def and_then_Inr bounded_encodable split: if_splits)
  then show ?thesis
    by cases (auto simp: palette_text_def mode encodable_parts intro!: encodable_inline)
qed

lemma valid_coerced: "dial_valid d v \<Longrightarrow> dial_coerce d v \<noteq> None"
  by (auto simp: dial_coerce_def dial_valid_def split: dial_kind.splits json.splits)

lemma table_encodable:
  assumes "table_typed renderer table"
  shows "encodable (dial_table table)"
proof -
  have key: "encodable (dial_key d)" if "d \<in> set DIALS" for d
    using that by (auto simp: DIALS_def choice_dial_def number_dial_def bool_dial_def equalizer_def)
  have "encodable k \<and> encodable (toml_value v)" if entry: "(k, v) \<in> set table" for k v
  proof -
    from entry assms obtain d where "d \<in> set (per_wallpaper (lit renderer))" "dial_key d = k" "dial_valid d v"
      by (auto simp: table_typed_def list_all_iff list_ex_iff)
    moreover then have "d \<in> set DIALS" by (simp add: per_wallpaper_def)
    ultimately show ?thesis using coerced_encodable [OF _ valid_coerced] key by blast
  qed
  then show ?thesis unfolding dial_table_def by (intro encodable_inline) auto
qed

lemma property_name_encodable: "property_name s \<Longrightarrow> encodable s"
  by (rule low_encodable) (auto simp: property_name_def Let_def list_all_iff split: list.splits)

lemma entry_written:
  assumes "wf_wire_entry e" "encodable (palette_text (we_palette e))"
  shows "list_all encodable (entry_text e)"
proof -
  have tables: "encodable (dial_table (we_video e))" "encodable (dial_table (we_scene e))"
    using assms(1) by (auto simp: wf_wire_entry_def intro: table_encodable)
  have base: "encodable (we_scene_base e)" "we_scene_id e = Some i \<Longrightarrow> encodable i" for i
  proof -
    have "encodable s" if "is_workshop_id s" for s
      using that by (intro low_encodable) (auto simp: is_workshop_id_def list_all_iff)
    then show "encodable (we_scene_base e)" "we_scene_id e = Some i \<Longrightarrow> encodable i"
      using assms(1) by (cases "we_scene_base e = []"; auto simp: wf_wire_entry_def)+
  qed
  have "encodable name \<and> encodable (dumps_str v)" if "(name, v) \<in> set (we_properties e)" for name v
  proof -
    from that assms(1) have "property_name name" "valid_property_value v"
      by (auto simp: wf_wire_entry_def list_all_iff)
    then show ?thesis
      using property_name_encodable by (simp add: valid_property_value_def valid_text_def encodable_parts)
  qed
  then have "encodable (inline_table (map (\<lambda>(k, v). (k, dumps_str v)) (we_properties e)))"
    by (intro encodable_inline) auto
  moreover have "encodable (we_id e)" "encodable (we_still e)" "we_motion e = Some m \<Longrightarrow> encodable m"
    "we_taboo e = Some (x, y) \<Longrightarrow> encodable x \<and> encodable y" for m x y
    using assms(1) by (auto simp: wf_wire_entry_def bounded_encodable)
  ultimately show ?thesis
    using base tables assms(2)
    by (auto simp: entry_text_def encodable_parts kind_value_def split: option.split kind.split
        intro!: encodable_inline encodable_parts)
qed

lemma resolved_palette:
  assumes "resolved_entry mc b ss item eid = Inr (Some e, w)"
  shows "encodable (palette_text (we_palette e))"
proof -
  from assms obtain policy generator k w' where "finish_entry policy generator k w' = Inr (Some e, w)"
    unfolding resolved_entry_def Let_def
    by (auto simp: and_then_Inr split: if_split_asm option.split_asm)
  then obtain p where "wire_palette_of policy generator = Inr p" "e = k\<lparr>we_palette := p\<rparr>"
    by (auto simp: finish_entry_def and_then_Inr)
  with palette_written show ?thesis by simp
qed

lemma schedule_written:
  assumes "encodable (rule_id r)" "encodable i" "encodable (rule_connector r)"
  shows "list_all encodable (schedule_text (r, i))"
proof -
  have numbers: "encodable (numbers_text ns)" for ns
    by (auto simp: numbers_text_def encodable_Cons cp_surrogate_def list_all_iff encodable_parts intro!: encodable_join)
  have clock: "encodable (clock_text m)" for m
    by (simp add: clock_text_def encodable_Cons cp_surrogate_def encodable_parts)
  have "encodable (34 # a @ [34]) \<and> encodable (34 # z @ [34])" if "wire_window r = Some (a, z)" for a z
    using that clock by (auto simp: wire_window_def encodable_Cons cp_surrogate_def split: option.splits)
  then show ?thesis
    using assms numbers by (auto simp: schedule_text_def encodable_parts split: option.split)
qed

lemma compile_wire_programs: "compile_wire mc b ss = Inr (wire, g, left) \<Longrightarrow> programs_ok mc"
  by (auto simp: compile_wire_def Let_def and_then_Inr)

lemma reference_of_emitted:
  assumes "compile_wire mc b ss = Inr (wire, g, left)"
  shows "wd_default wire \<in> set (wire_ids wire) \<and> (\<forall>(r, i)\<in>set (wd_schedules wire). i \<in> set (wire_ids wire))"
  using wire_shape(2-4) [OF assms] built_reference_emitted [OF wire_shape(2) [OF assms]]
  by (auto simp: in_map_filter split: if_splits option.splits)

lemma compiled_written:
  assumes "compile_wire mc b ss = Inr (wire, g, all_left)"
  shows "encodable (lines_text (document_lines mc (bd_settings b) wire))"
proof (rule compile_wire_passed [OF assms])
  fix es default_id left played rules left1 played1 displays st2
  assume ok: "settings_wire_ok (bd_settings b)" and g: "gather_all mc b ss = Inr (es, g)"
    and rules: "schedules_ok [] rules = Inr ()" and displays: "displays_ok [] displays = Inr ()"
    and w: "wire = wire_of b default_id (fallback_nothing b ss es) (ga_playlists g) rules displays"
  have parts: "wd_playlists wire = ga_playlists g" "wd_schedules wire = rules" "wd_displays wire = displays"
    "wd_nothing wire = fallback_nothing b ss es" "wd_dials wire = dial_lines b"
    by (simp_all add: w wire_of_def)
  have "playlist_identities_ok [] 0 (wd_playlists wire) = Inr ()"
    using wire_shape(1) [OF assms] by (auto simp: playlists_bounded_def and_then_Inr)
  from identities_bounded [OF this] have names: "\<forall>p\<in>set (wd_playlists wire). encodable (wp_id p) \<and> encodable (wp_name p)"
    by (blast dest: bounded_encodable)
  have kept: "wf_wire_entry e \<and> encodable (palette_text (we_palette e))"
    if "resolved_entry mc b ss item eid = Inr (Some e, x)" for item eid e x
    using resolved_entry_wf [OF that ok] resolved_palette [OF that] ..
  have "\<forall>p\<in>set (ga_playlists g). \<forall>e\<in>set (wp_entries p).
      wf_wire_entry e \<and> encodable (palette_text (we_palette e))"
    by (rule gathered_entries_all [OF g]) (rule kept)
  then have entries: "\<forall>p\<in>set (wd_playlists wire). \<forall>e\<in>set (wp_entries p). list_all encodable (entry_text e)"
    unfolding parts by (blast intro: entry_written)
  have reason: "encodable (wd_nothing wire)"
    by (simp add: parts fallback_nothing_def WEB_OFF_REASON_def FAVOURITES_REASON_def EMPTY_LIBRARY_REASON_def)
  show ?thesis
  proof (rule encodable_document [OF ok compile_wire_programs [OF assms]])
    show "encodable (wd_default wire)"
      using reference_of_emitted [OF assms] names by (auto simp: wire_ids_def)
    show "\<forall>(name, v)\<in>set (wd_dials wire). encodable name \<and> encodable (toml_value v)"
      unfolding parts dial_lines_def using renderer_dials_encodable [OF ok] by simp
    show "\<forall>p\<in>set (wd_playlists wire). list_all encodable (playlist_text (wd_nothing wire) p)"
      using names entries reason by (blast intro: encodable_playlist)
    show "\<forall>r\<in>set (wd_schedules wire). list_all encodable (schedule_text r)"
      using schedules_bounded [OF rules] unfolding parts
      by (auto intro!: schedule_written dest!: bspec dest: bounded_encodable)
    show "\<forall>r\<in>set (wd_displays wire). list_all encodable (display_text r)"
      using displays_bounded [OF displays] unfolding parts
      by (auto simp: display_text_def dest!: bspec intro!: encodable_parts dest: bounded_encodable)
  qed
qed

lemma status_counted:
  assumes "compile_wire mc b ss = Inr (wire, g, left)"
  shows "status_bound wire \<noteq> None"
proof -
  have "schedule_bytes (playlist_identity (wd_playlists wire)) (r, i) \<noteq> None" if "(r, i) \<in> set (wd_schedules wire)" for r i
  proof -
    from that reference_of_emitted [OF assms] have "i \<in> wp_id ` set (wd_playlists wire)" by (auto simp: wire_ids_def)
    then have "i \<in> fst ` set (playlist_identity (wd_playlists wire))" by (force simp: playlist_identity_def)
    then show ?thesis by (auto simp: schedule_bytes_def map_of_eq_None_iff)
  qed
  then have "None \<notin> set (map (schedule_bytes (playlist_identity (wd_playlists wire))) (wd_schedules wire))"
    by (auto simp del: not_None_eq) (metis)
  then show ?thesis by (simp add: status_bound_def Let_def)
qed

lemma rendered_fails:
  assumes "compile_wire mc b ss = Inr (wire, g, left)"
  shows "fails_only bounded_causes (rendered_document mc (bd_settings b) wire)"
proof -
  obtain bound where "status_bound wire = Some bound" using status_counted [OF assms] by blast
  then show ?thesis
    unfolding rendered_document_def document_text_def status_budget_def Let_def
    by (auto simp: compiled_written [OF assms] intro!: fails_only_and_then fails_only_bounded)
qed

lemma overrides_fail: "fails_only bounded_causes (overrides_document rotations beating)"
  unfolding overrides_document_def Let_def
  by (auto intro!: fails_only_and_then fails_only_bounded)

text \<open>C10: Where the scan could look at every place, and the service is known to read a document that
  plays nothing, a compile is refused only for a setting, a file or a bound, each one of the named
  causes: never because a playlist plays nothing, is missing or is empty, never by a text that cannot be
  encoded, and never because its own rules name a playlist it does not hold.\<close>

theorem refused_only_for_bounds:
  assumes "compile_runtime mc b ss = Inl e" and "looked_everywhere ss" and "bd_nothing b"
  shows "e \<in> bounded_causes"
proof -
  have "fails_only bounded_causes (compile_runtime mc b ss)"
    unfolding compile_runtime_def
    by (auto intro!: fails_only_and_then compile_wire_fails [OF assms(2,3)] rendered_fails overrides_fail)
  with assms(1) show ?thesis by (simp add: fails_only_def)
qed

text \<open>A rule's id of 257 bytes, which the wire does not take.\<close>

definition wide_session :: session where
  "wide_session = desk_session\<lparr>ss_schedules := [by_day\<lparr>rule_id := replicate 257 97\<rparr>]\<rparr>"

theorem refused_only_for_bounds_witness:
  "compile_runtime toy_machine desk_build wide_session = Inl (Err (RuntimeConfig Text_Bound)) \<and>
   Err (RuntimeConfig Text_Bound) \<in> bounded_causes"
proof -
  have "compile_wire toy_machine desk_build wide_session = Inl (Err (RuntimeConfig Text_Bound))" by code_simp
  then have refused: "compile_runtime toy_machine desk_build wide_session = Inl (Err (RuntimeConfig Text_Bound))"
    by (simp add: compile_runtime_def)
  have "looked_everywhere wide_session" by code_simp
  moreover have "bd_nothing desk_build" by (simp add: desk_build_def full_build_def)
  ultimately show ?thesis using refused_only_for_bounds [OF refused] refused by simp
qed

section \<open>A document that plays nothing is always built\<close>

text \<open>C9: Whatever the library and the stores hold, the document that plays nothing is built from
  settings the wire takes: nothing about it can exceed a bound or fail to be encoded, so playback can
  always be stopped.\<close>

theorem nothing_to_play_always_built:
  assumes "settings_wire_ok s" and "programs_ok mc" and "bounded_text MAX_NOTHING_TO_PLAY_BYTES reason"
  shows "\<exists>document. nothing_to_play_document mc s reason = Inr document"
proof -
  have "encodable reason" using assms(3) by (rule bounded_encodable)
  with assms show ?thesis
    by (simp add: nothing_to_play_document_def document_text_def nothing_status nothing_encodable Let_def check_def)
qed

theorem nothing_to_play_always_built_witness:
  "\<exists>document. nothing_to_play_document toy_machine desk_settings WEB_OFF_REASON = Inr document"
proof (rule nothing_to_play_always_built)
  show "settings_wire_ok desk_settings" "programs_ok toy_machine" by code_simp+
  have "bounded_text 128 WEB_OFF_REASON" by code_simp
  then show "bounded_text MAX_NOTHING_TO_PLAY_BYTES WEB_OFF_REASON" by (simp add: MAX_NOTHING_TO_PLAY_BYTES_def)
qed

end
