(* ===== verification/Runtime_Web.thy ===== *)
theory Runtime_Web
  imports Runtime_Wire "HOL-Library.List_Lexorder"
begin

text \<open>
  \<open>runtime_config.py\<close>, what a published document may still play while web wallpapers are off: the
  Workshop ids named anywhere in it, which of them the scan knows for web pages, and which it cannot
  tell. A document is what reading it gave: nothing, a text that is not TOML 1.0, or its tables, as JSON
  (a date or a time is like any other scalar here).
\<close>

datatype document_read = Unread | Not_Toml | Parsed json

record workshop_item = library_item +
  item_workshop_type :: pystr

definition SCENE_KEYS :: "pystr list" where
  "SCENE_KEYS = [lit ''scene_id'', lit ''scene_base'']"

section \<open>The ids a document names\<close>

text \<open>One item of a table: a Workshop id, or a value that is looked at later. The stack is kept with its
  top first.\<close>

definition scan_field :: "json list \<times> pystr set \<Rightarrow> pystr \<times> json \<Rightarrow> json list \<times> pystr set" where
  "scan_field = (\<lambda>(pending, named) (key, v).
     case v of
       JStr s \<Rightarrow> if key \<in> set SCENE_KEYS then (pending, insert s named) else (v # pending, named)
     | _ \<Rightarrow> (v # pending, named))"

definition scan_node :: "json \<Rightarrow> json list \<times> pystr set \<Rightarrow> json list \<times> pystr set" where
  "scan_node node st =
     (case node of
        JObj table \<Rightarrow> foldl scan_field st table
      | JArr vs \<Rightarrow> (rev vs @ fst st, snd st)
      | _ \<Rightarrow> st)"

text \<open>The loop \<open>while pending\<close>.\<close>

partial_function (option) scene_ids_loop :: "json list \<Rightarrow> pystr set \<Rightarrow> pystr set option" where
  "scene_ids_loop pending named =
     (case pending of
        [] \<Rightarrow> Some named
      | node # rest \<Rightarrow> (case scan_node node (rest, named) of (pending, named) \<Rightarrow> scene_ids_loop pending named))"

declare scene_ids_loop.simps [code]

definition scene_ids :: "json \<Rightarrow> pystr set option" where
  "scene_ids document = scene_ids_loop [document] {}"

text \<open>\<open>named_scenes\<close> of a text at hand, parsed or not TOML 1.0.\<close>

definition named_scenes :: "json option \<Rightarrow> pystr set option" where
  "named_scenes parsed = (case parsed of None \<Rightarrow> None | Some document \<Rightarrow> scene_ids document)"

text \<open>The loop always returns (below), so what it names is what it returns.\<close>

definition named_scenes_of :: "document_read \<Rightarrow> pystr set" where
  "named_scenes_of d = (case d of Parsed document \<Rightarrow> the (scene_ids document) | _ \<Rightarrow> {})"

section \<open>What the scan says of them\<close>

definition web_scenes :: "workshop_item list \<Rightarrow> pystr set" where
  "web_scenes items =
     set (map item_scene (filter (\<lambda>i. item_web_page i \<or> item_workshop_type i = lit ''web'') items))"

definition web_titles :: "pystr set \<Rightarrow> workshop_item list \<Rightarrow> pystr list" where
  "web_titles named items =
     sort_key casefold (map (\<lambda>i. item_name (library_item.truncate i))
       (filter (\<lambda>i. item_scene i \<in> named \<and> (item_scene i \<in> web_scenes items \<or> item_scene_base i \<in> web_scenes items))
          items))"

text \<open>The dictionary by Workshop id: the last of an id wins.\<close>

definition listed :: "workshop_item list \<Rightarrow> pystr \<Rightarrow> workshop_item option" where
  "listed items = map_of (rev (map (\<lambda>i. (item_scene i, i)) items))"

definition unchecked_ids :: "pystr set \<Rightarrow> workshop_item list \<Rightarrow> pystr list" where
  "unchecked_ids named items =
     sorted_list_of_set (Set.filter (\<lambda>s. listed items s = None) named \<union>
       Set.filter (\<lambda>base. base \<noteq> [] \<and> listed items base = None)
         ((\<lambda>s. case listed items s of None \<Rightarrow> [] | Some i \<Rightarrow> item_scene_base i) ` named))"

definition retained_web_wallpapers :: "document_read \<Rightarrow> workshop_item list \<Rightarrow> pystr list" where
  "retained_web_wallpapers d items =
     (let named = named_scenes_of d in if named = {} then [] else web_titles named items)"

definition unchecked_scene_wallpapers :: "document_read \<Rightarrow> workshop_item list \<Rightarrow> pystr list" where
  "unchecked_scene_wallpapers d items =
     (let named = named_scenes_of d in if named = {} then [] else unchecked_ids named items)"

definition web_wallpapers_in :: "document_read list \<Rightarrow> workshop_item list \<Rightarrow> pystr list \<times> pystr list" where
  "web_wallpapers_in ds items =
     (let named = \<Union> (set (map named_scenes_of ds))
      in if named = {} then ([], []) else (web_titles named items, unchecked_ids named items))"

definition allows_web_wallpapers :: "document_read \<Rightarrow> bool" where
  "allows_web_wallpapers d =
     (case d of
        Unread \<Rightarrow> False
      | Not_Toml \<Rightarrow> True
      | Parsed (JObj document) \<Rightarrow>
          (case map_of document (lit ''settings'') of
             Some (JObj settings) \<Rightarrow> map_of settings (lit ''allow_web_wallpapers'') = Some (JBool True)
           | _ \<Rightarrow> False)
      | Parsed _ \<Rightarrow> False)"

definition not_toml_1_0 :: "document_read \<Rightarrow> bool" where
  "not_toml_1_0 d \<longleftrightarrow> d = Not_Toml"

section \<open>The loop returns exactly the ids the document mentions\<close>

text \<open>What it means to be named: a text under one of the two keys, in any table at any depth.\<close>

inductive mentions :: "json \<Rightarrow> pystr \<Rightarrow> bool" where
  here: "(key, JStr s) \<in> set table \<Longrightarrow> key \<in> set SCENE_KEYS \<Longrightarrow> mentions (JObj table) s"
| in_table: "(key, v) \<in> set table \<Longrightarrow> mentions v s \<Longrightarrow> mentions (JObj table) s"
| in_array: "v \<in> set vs \<Longrightarrow> mentions v s \<Longrightarrow> mentions (JArr vs) s"

inductive_simps mentions_simps [simp]:
  "mentions JNull s" "mentions (JBool b) s" "mentions (JInt i) s" "mentions (JFloat r t) s" "mentions (JStr x) s"
  "mentions (JArr vs) s" "mentions (JObj table) s"

definition pending_names :: "json list \<Rightarrow> pystr set" where
  "pending_names pending = {s. \<exists>v\<in>set pending. mentions v s}"

lemma pending_names_simps [simp]:
  "pending_names [] = {}" "pending_names (v # vs) = {s. mentions v s} \<union> pending_names vs"
  "pending_names (us @ vs) = pending_names us \<union> pending_names vs"
  "pending_names (rev vs) = pending_names vs"
  by (auto simp: pending_names_def)

text \<open>A step keeps what is named or still to be found, and shrinks what is pending.\<close>

definition weight :: "json list \<Rightarrow> nat" where
  "weight pending = sum_list (map (\<lambda>v. Suc (size v)) pending)"

lemma scan_fields:
  "foldl scan_field (pending, named) table = (pending', named') \<Longrightarrow>
     named' \<union> pending_names pending' = named \<union> pending_names pending \<union> {s. mentions (JObj table) s} \<and>
     weight pending' \<le> weight pending + sum_list (map (\<lambda>(k, v). Suc (size v)) table)"
proof (induction table arbitrary: pending named)
  case (Cons f table)
  obtain key v where f: "f = (key, v)" by (cases f)
  obtain p n where step: "scan_field (pending, named) f = (p, n)" by fastforce
  have "n \<union> pending_names p = named \<union> pending_names pending \<union>
      {s. (v = JStr s \<and> key \<in> set SCENE_KEYS) \<or> mentions v s} \<and> weight p \<le> weight pending + Suc (size v)"
    using step by (auto simp: f scan_field_def weight_def split: json.splits if_splits)
  moreover have "{s. mentions (JObj (f # table)) s} =
      {s. (v = JStr s \<and> key \<in> set SCENE_KEYS) \<or> mentions v s} \<union> {s. mentions (JObj table) s}"
    by (auto simp: f)
  ultimately show ?case using Cons.IH [of p n] Cons.prems step by (auto simp: f)
qed auto

lemma scan_step:
  assumes "scan_node node (rest, named) = (pending', named')"
  shows "named' \<union> pending_names pending' = named \<union> pending_names (node # rest) \<and> weight pending' < weight (node # rest)"
proof (cases node)
  case (JObj table)
  have "sum_list (map (\<lambda>(k, v). Suc (size v)) table) \<le> size node"
    unfolding JObj by (induction table) auto
  with scan_fields [of rest named table pending' named'] assms JObj show ?thesis
    by (auto simp: scan_node_def weight_def)
next
  case (JArr vs)
  have "sum_list (map (\<lambda>v. Suc (size v)) vs) \<le> size node"
    unfolding JArr by (induction vs) auto
  moreover have "weight (rev vs @ rest) = sum_list (map (\<lambda>v. Suc (size v)) vs) + weight rest"
    by (simp add: weight_def rev_map [symmetric] sum_list_rev)
  ultimately show ?thesis
    using assms JArr by (auto simp: scan_node_def weight_def pending_names_def)
qed (use assms in \<open>auto simp: scan_node_def weight_def\<close>)

lemma scene_ids_loop_total:
  "scene_ids_loop pending named = Some (named \<union> pending_names pending)"
proof (induction "weight pending" arbitrary: pending named rule: less_induct)
  case less
  show ?case
  proof (cases pending)
    case (Cons node rest)
    obtain p n where step: "scan_node node (rest, named) = (p, n)" by fastforce
    from scan_step [OF this] less [of p n] show ?thesis
      by (simp add: Cons scene_ids_loop.simps [of "node # rest"] step)
  qed (simp add: scene_ids_loop.simps)
qed

text \<open>C39: The loop over a parsed document ends, whatever the document holds, and returns exactly the
  Workshop ids it mentions: the texts under \<open>scene_id\<close> and \<open>scene_base\<close> in any table at any depth.\<close>

theorem scene_ids_returns:
  "\<exists>named. scene_ids document = Some named \<and> (\<forall>s. s \<in> named \<longleftrightarrow> mentions document s)"
  by (simp add: scene_ids_def scene_ids_loop_total)

lemma named_scenes_parsed: "named_scenes_of (Parsed document) = {s. mentions document s}"
  by (simp add: named_scenes_of_def scene_ids_def scene_ids_loop_total)

lemma finite_mentions [simp]: "finite {s. mentions v s}"
proof (induction v)
  case (JObj table)
  have "{s. mentions (JObj table) s} \<subseteq> (\<Union>(key, v)\<in>set table. {s. v = JStr s} \<union> {s. mentions v s})"
    by fastforce
  moreover have "finite {s. v = JStr s}" for v by (cases v) auto
  moreover have "finite {s. mentions v s}" if "(key, v) \<in> set table" for key v
    using JObj [of "(key, v)" v] that by simp
  ultimately show ?case
    by (elim finite_subset) auto
next
  case (JArr vs)
  have "{s. mentions (JArr vs) s} = (\<Union>v\<in>set vs. {s. mentions v s})" by auto
  with JArr show ?case by simp
qed simp_all

lemma finite_named_scenes [simp]: "finite (named_scenes_of d)"
  by (cases d) (simp_all add: named_scenes_parsed, simp_all add: named_scenes_of_def)

section \<open>What the guard lets pass\<close>

lemma web_titles_none:
  assumes "web_titles named items = []" and "i \<in> set items" "item_scene i \<in> named"
  shows "item_scene i \<notin> web_scenes items \<and> item_scene_base i \<notin> web_scenes items"
proof -
  from assms(1) have "set (web_titles named items) = {}" by simp
  with assms(2,3) show ?thesis unfolding web_titles_def by (simp add: set_empty [symmetric] del: set_empty)
qed

lemma unchecked_none:
  assumes "unchecked_ids named items = []" "finite named" "s \<in> named"
  shows "\<exists>i. listed items s = Some i \<and> (item_scene_base i = [] \<or> listed items (item_scene_base i) \<noteq> None)"
proof -
  from assms(1,2) have no: "Set.filter (\<lambda>s. listed items s = None) named \<union>
       Set.filter (\<lambda>base. base \<noteq> [] \<and> listed items base = None)
         ((\<lambda>s. case listed items s of None \<Rightarrow> [] | Some i \<Rightarrow> item_scene_base i) ` named) = {}"
    unfolding unchecked_ids_def by (subst (asm) sorted_list_of_set_eq_Nil_iff) simp_all
  from no assms(3) obtain i where "listed items s = Some i" by (cases "listed items s") auto
  with no assms(3) show ?thesis by (force simp: set_eq_iff)
qed

lemma listed_item: "listed items s = Some i \<Longrightarrow> i \<in> set items \<and> item_scene i = s"
  by (auto simp: listed_def dest!: map_of_SomeD)

text \<open>C38: Documents the guard finds nothing in play no web page while web wallpapers are off: every
  Workshop id any of them mentions, at any depth, is one the scan lists, is not a web page itself, and
  rests on no preset base that is a web page or that the scan does not list.\<close>

theorem web_guard_sound:
  assumes "web_wallpapers_in ds items = ([], [])" and "Parsed document \<in> set ds" and "mentions document s"
  shows "\<exists>i. listed items s = Some i \<and> s \<notin> web_scenes items \<and> item_scene_base i \<notin> web_scenes items \<and>
           (item_scene_base i = [] \<or> listed items (item_scene_base i) \<noteq> None)"
proof -
  let ?named = "\<Union> (set (map named_scenes_of ds))"
  have s: "s \<in> ?named" using assms(2,3) by (force simp: named_scenes_parsed)
  with assms(1) have "web_titles ?named items = []" "unchecked_ids ?named items = []"
    by (auto simp: web_wallpapers_in_def Let_def split: if_splits)
  with s show ?thesis
    using unchecked_none [of ?named items s] web_titles_none [of ?named items] listed_item [of items s] by fastforce
qed

text \<open>A document playing a scene from a preset's base, with both scanned as plain scenes.\<close>

definition scanned :: "pystr \<Rightarrow> pystr \<Rightarrow> pystr \<Rightarrow> workshop_item" where
  "scanned scene base workshop_type =
     \<lparr>item_path = lit ''/w'', item_kind = Scene, item_scene = scene, item_title = scene, item_paired_still = None,
      item_scene_base = base, item_scene_properties = [], item_web_page = False, item_unplayable = False,
      item_unplayable_reason = [], item_workshop_type = workshop_type\<rparr>"

definition scanned_document :: json where
  "scanned_document = JObj [(lit ''playlists'', JArr [JObj [(lit ''entries'', JArr [JObj
     [(lit ''kind'', JStr (lit ''wallpaper_engine'')), (lit ''scene_id'', JStr (lit ''11''))]])]])]"

lemma scanned_names: "named_scenes_of (Parsed scanned_document) = {lit ''11''}"
  by (auto simp: named_scenes_parsed scanned_document_def SCENE_KEYS_def lit_def)

theorem web_guard_sound_witness:
  "\<exists>i. listed [scanned (lit ''11'') (lit ''12'') [], scanned (lit ''12'') [] []] (lit ''11'') = Some i \<and>
     lit ''11'' \<notin> web_scenes [scanned (lit ''11'') (lit ''12'') [], scanned (lit ''12'') [] []]"
proof -
  let ?items = "[scanned (lit ''11'') (lit ''12'') [], scanned (lit ''12'') [] []]"
  have "web_wallpapers_in [Unread, Parsed scanned_document] ?items = ([], [])"
  proof -
    have "web_titles {lit ''11''} ?items = []" "unchecked_ids {lit ''11''} ?items = []"
      by (auto simp: web_titles_def web_scenes_def unchecked_ids_def listed_def scanned_def lit_def)
    then show ?thesis using scanned_names by (simp add: web_wallpapers_in_def named_scenes_of_def)
  qed
  moreover have "mentions scanned_document (lit ''11'')"
    by (simp add: scanned_document_def SCENE_KEYS_def lit_def)
  ultimately show ?thesis
    using web_guard_sound [of "[Unread, Parsed scanned_document]" ?items scanned_document "lit ''11''"] by auto
qed

end
