(* ===== verification/Runtime_Health.thy ===== *)
theory Runtime_Health
  imports Runtime_Guards
begin

text \<open>
  \<open>runtime_health.py\<close>, and the step of \<open>cli.py\<close> that uses it: reading one status snapshot of the
  playback service strictly, mapping the entries it skips back to wallpapers of the library, and marking
  those broken in the pairings. A snapshot is what \<open>json.loads\<close> made of the reply, or nothing where that
  raised.
\<close>

definition RUNTIME_INSTANCE_HEX_CHARS :: nat where "RUNTIME_INSTANCE_HEX_CHARS = 32"
definition CONFIG_GENERATION_HEX_CHARS :: nat where "CONFIG_GENERATION_HEX_CHARS = 64"
definition MAX_RUNTIME_EPOCH :: int where "MAX_RUNTIME_EPOCH = 2 ^ 64 - 1"

section \<open>Reading a snapshot\<close>

text \<open>The one \<open>RuntimeHealthError\<close>, by what it says.\<close>

datatype status_complaint =
    Not_Json | Not_An_Object | No_Generation | No_Instance | No_Epoch | No_Config_Path | Bad_Source
  | Bad_Omitted | Bad_Inventory | Bad_Entry

definition hex_text :: "nat \<Rightarrow> pystr \<Rightarrow> bool" where
  "hex_text n t \<longleftrightarrow> length t = n \<and> list_all (\<lambda>c. (48 \<le> c \<and> c \<le> 57) \<or> (97 \<le> c \<and> c \<le> 102)) t"

definition is_generation :: "json option \<Rightarrow> bool" where
  "is_generation v = (case v of Some (JStr t) \<Rightarrow> hex_text CONFIG_GENERATION_HEX_CHARS t | _ \<Rightarrow> False)"

definition is_epoch :: "json option \<Rightarrow> bool" where
  "is_epoch v = (case v of Some (JInt i) \<Rightarrow> 1 \<le> i \<and> i \<le> MAX_RUNTIME_EPOCH | _ \<Rightarrow> False)"

record raw_report =
  ra_playlist :: pystr
  ra_entry :: pystr
  ra_reason :: pystr
  ra_source :: pystr
  ra_durable :: bool
  ra_epoch :: int

text \<open>One entry of \<open>taboo_entries\<close>, with the checks both readers make of it.\<close>

definition some_text :: "json option \<Rightarrow> pystr option" where
  "some_text v = (case v of Some (JStr t) \<Rightarrow> if t = [] then None else Some t | _ \<Rightarrow> None)"

definition raw_report_of :: "json \<Rightarrow> raw_report option" where
  "raw_report_of j =
     (case j of
        JObj d \<Rightarrow>
          (case (some_text (map_of d (lit ''playlist_id'')), some_text (map_of d (lit ''entry_id'')),
                 some_text (map_of d (lit ''reason'')), some_text (map_of d (lit ''source'')),
                 map_of d (lit ''durable''), map_of d (lit ''observed_config_epoch'')) of
             (Some p, Some e, Some r, Some s, Some (JBool b), Some (JInt n)) \<Rightarrow>
               (if is_epoch (Some (JInt n))
                then Some \<lparr>ra_playlist = p, ra_entry = e, ra_reason = r, ra_source = s, ra_durable = b, ra_epoch = n\<rparr>
                else None)
           | _ \<Rightarrow> None)
      | _ \<Rightarrow> None)"

definition status_path_ok :: "json option \<Rightarrow> bool" where
  "status_path_ok v =
     (case v of Some (JStr t) \<Rightarrow> is_absolute t \<and> \<not> list_ex (\<lambda>c. c < 32 \<or> c = 127) t | _ \<Rightarrow> False)"

definition status_source_ok :: "json option \<Rightarrow> bool" where
  "status_source_ok v \<longleftrightarrow>
     v = None \<or> v = Some JNull \<or>
     v \<in> {Some (JStr (lit ''manual'')), Some (JStr (lit ''schedule'')), Some (JStr (lit ''mixed''))}"

definition parse_status :: "json option \<Rightarrow> status_complaint + dict" where
  "parse_status message =
     (case message of
        None \<Rightarrow> Inl Not_Json
      | Some (JObj d) \<Rightarrow>
          (if \<not> is_generation (map_of d (lit ''config_generation'')) then Inl No_Generation
           else if (case map_of d (lit ''runtime_instance'') of
                      Some (JStr t) \<Rightarrow> \<not> hex_text RUNTIME_INSTANCE_HEX_CHARS t | _ \<Rightarrow> True) then Inl No_Instance
           else if \<not> is_epoch (map_of d (lit ''config_epoch'')) then Inl No_Epoch
           else if \<not> status_path_ok (map_of d (lit ''config_path'')) then Inl No_Config_Path
           else if \<not> status_source_ok (map_of d (lit ''source'')) then Inl Bad_Source
           else if (case map_of d (lit ''taboo_entries_omitted'') of
                      None \<Rightarrow> False | Some (JInt i) \<Rightarrow> i < 0 | _ \<Rightarrow> True) then Inl Bad_Omitted
           else (case map_of d (lit ''taboo_entries'') of
                   None \<Rightarrow> Inr d
                 | Some (JArr raws) \<Rightarrow>
                     (if list_all (\<lambda>raw. raw_report_of raw \<noteq> None) raws then Inr d else Inl Bad_Entry)
                 | _ \<Rightarrow> Inl Bad_Inventory))
      | _ \<Rightarrow> Inl Not_An_Object)"

section \<open>Mapping the skipped entries to wallpapers\<close>

record taboo_report =
  tr_item :: library_item
  tr_playlist :: pystr
  tr_entry :: pystr
  tr_reason :: pystr
  tr_source :: pystr
  tr_durable :: bool
  tr_epoch :: int

record health_inventory =
  in_reports :: "taboo_report list"
  in_omitted :: int
  in_unmapped :: nat
  in_stale :: nat

text \<open>The generated All-media list names an entry by its source's hash. Of two wallpapers with one hash
  neither is meant. The source compares every field of \<open>MediaItem\<close>, here only those of \<open>library_item\<close> are,
  which tells the same apart in a library that lists each path once.\<close>

definition generated_step :: "machine \<Rightarrow> (pystr \<times> library_item option) list \<Rightarrow> library_item \<Rightarrow>
    (pystr \<times> library_item option) list" where
  "generated_step mc d item =
     (let i = entry_id_for_source mc (item_path item)
      in case map_of d i of
           None \<Rightarrow> AList.update i (Some item) d
         | Some other \<Rightarrow> if other = Some item then d else AList.update i None d)"

definition generated_entries :: "machine \<Rightarrow> library_item list \<Rightarrow> (pystr \<times> library_item option) list" where
  "generated_entries mc items = foldl (generated_step mc) [] items"

definition mapped_item :: "machine \<Rightarrow> playlist list \<Rightarrow> library_item list \<Rightarrow> raw_report \<Rightarrow> library_item option" where
  "mapped_item mc ps items raw =
     (if ra_playlist raw = FALLBACK_PLAYLIST_ID
      then (case map_of (generated_entries mc items) (ra_entry raw) of Some m \<Rightarrow> m | None \<Rightarrow> None)
      else case map_of (rev (map (\<lambda>p. (pl_id p, p)) ps)) (ra_playlist raw) of
             None \<Rightarrow> None
           | Some p \<Rightarrow>
               (case find (\<lambda>e. entry_id e = ra_entry raw) (pl_entries p) of
                  None \<Rightarrow> None
                | Some e \<Rightarrow> by_path items (entry_path e)))"

text \<open>\<open>observed_config_epoch != status_epoch\<close>: an epoch of an unchecked status may be any value.\<close>

definition same_epoch :: "int \<Rightarrow> json option \<Rightarrow> bool" where
  "same_epoch n v = (case v of Some j \<Rightarrow> same_value (JInt n) j | None \<Rightarrow> False)"

text \<open>A second report of a wallpaper only tells whether the first is durable.\<close>

definition put_report :: "library_item \<Rightarrow> raw_report \<Rightarrow> taboo_report list \<Rightarrow> taboo_report list" where
  "put_report item raw reports =
     (if list_ex (\<lambda>r. item_path (tr_item r) = item_path item) reports
      then map (\<lambda>r. if item_path (tr_item r) = item_path item \<and> \<not> ra_durable raw
                   then r\<lparr>tr_durable := False\<rparr> else r) reports
      else reports @
        [\<lparr>tr_item = item, tr_playlist = ra_playlist raw, tr_entry = ra_entry raw, tr_reason = ra_reason raw,
          tr_source = ra_source raw, tr_durable = ra_durable raw, tr_epoch = ra_epoch raw\<rparr>])"

definition inventory_step ::
  "machine \<Rightarrow> playlist list \<Rightarrow> library_item list \<Rightarrow> json option \<Rightarrow> health_inventory \<Rightarrow> json \<Rightarrow> health_inventory"
where
  "inventory_step mc ps items epoch so_far j =
     (case raw_report_of j of
        None \<Rightarrow> so_far
      | Some raw \<Rightarrow>
          (if \<not> same_epoch (ra_epoch raw) epoch then so_far\<lparr>in_stale := Suc (in_stale so_far)\<rparr>
           else case mapped_item mc ps items raw of
                  None \<Rightarrow> so_far\<lparr>in_unmapped := Suc (in_unmapped so_far)\<rparr>
                | Some item \<Rightarrow> so_far\<lparr>in_reports := put_report item raw (in_reports so_far)\<rparr>))"

definition taboo_inventory ::
  "machine \<Rightarrow> dict option \<Rightarrow> playlist list \<Rightarrow> library_item list \<Rightarrow> health_inventory"
where
  "taboo_inventory mc status ps items =
     (case status of
        None \<Rightarrow> \<lparr>in_reports = [], in_omitted = 0, in_unmapped = 0, in_stale = 0\<rparr>
      | Some d \<Rightarrow>
          (let start = \<lparr>in_reports = [],
                 in_omitted = (case map_of d (lit ''taboo_entries_omitted'') of
                                 Some (JInt i) \<Rightarrow> if 0 < i then i else 0 | _ \<Rightarrow> 0),
                 in_unmapped = 0, in_stale = 0\<rparr>
           in case map_of d (lit ''taboo_entries'') of
                Some (JArr raws) \<Rightarrow>
                  foldl (inventory_step mc ps items (map_of d (lit ''config_epoch''))) start raws
              | _ \<Rightarrow> start))"

section \<open>The sync of the unattended writer\<close>

text \<open>
  \<open>_sync_runtime_health\<close> up to the write of the markers. \<open>opened\<close> is the session read from the stores and
  the settings, under the compiler's lock, or what reading them raised; \<open>expected\<close> the document's own
  path; \<open>installed\<close> the generation the document on disk declares, or why it could not be read. What is
  published afterwards is a compile like any other.
\<close>

datatype sync_refusal = Bad_Status status_complaint | Stores_Not_Read | Other_Document | Other_Generation | Refused exn

datatype sync_outcome =
    Sync_Refused sync_refusal
  | Nothing_Reported int
  | Older_Than_Authoring
  | Synced nat health_inventory

definition status_text :: "dict \<Rightarrow> string \<Rightarrow> pystr" where
  "status_text d key = (case map_of d (lit key) of Some (JStr t) \<Rightarrow> t | _ \<Rightarrow> [])"

definition status_reports :: "dict \<Rightarrow> json list" where
  "status_reports d = (case map_of d (lit ''taboo_entries'') of Some (JArr raws) \<Rightarrow> raws | _ \<Rightarrow> [])"

definition status_omitted :: "dict \<Rightarrow> int" where
  "status_omitted d = (case map_of d (lit ''taboo_entries_omitted'') of Some (JInt i) \<Rightarrow> i | _ \<Rightarrow> 0)"

definition mark_reported ::
  "env \<Rightarrow> health_inventory \<Rightarrow> pairing_records store \<Rightarrow> world \<Rightarrow> sync_outcome \<times> pairing_records store \<times> world"
where
  "mark_reported env v st w =
     (if in_reports v = [] then (Synced 0 v, st, w)
      else case mark_borked_many env (map (\<lambda>r. (tr_item r, tr_reason r, tr_source r)) (in_reports v)) st w of
             (Inl e, st1, w1) \<Rightarrow> (Sync_Refused (Refused e), st1, w1)
           | (Inr n, st1, w1) \<Rightarrow> (Synced n v, st1, w1))"

definition sync_runtime_health ::
  "env \<Rightarrow> machine \<Rightarrow> pystr \<Rightarrow> pystr result \<Rightarrow> session result \<Rightarrow> json option \<Rightarrow> pairing_records store \<Rightarrow> world \<Rightarrow>
     sync_outcome \<times> pairing_records store \<times> world"
where
  "sync_runtime_health env mc expected installed opened message st w =
     (case parse_status message of
        Inl c \<Rightarrow> (Sync_Refused (Bad_Status c), st, w)
      | Inr d \<Rightarrow>
          (if status_reports d = [] then (Nothing_Reported (status_omitted d), st, w)
           else case opened of
             Inl e \<Rightarrow> (Sync_Refused (Refused e), st, w)
           | Inr ss \<Rightarrow>
               (if authoring_faults ss \<noteq> [] then (Sync_Refused Stores_Not_Read, st, w)
                else if path_text (status_text d ''config_path'') \<noteq> expected
                  then (Sync_Refused Other_Document, st, w)
                else case installed of
                  Inl e \<Rightarrow> (Sync_Refused (Refused e), st, w)
                | Inr generation \<Rightarrow>
                    (if status_text d ''config_generation'' \<noteq> generation
                     then (Sync_Refused Other_Generation, st, w)
                     else case and_then (compiled_as_published mc (ss_settings ss) ss (JObj d) generation)
                                 (document_generation mc (ss_settings ss)) of
                       Inl e \<Rightarrow> (Sync_Refused (Refused e), st, w)
                     | Inr authored \<Rightarrow>
                         (if authored \<noteq> generation then (Older_Than_Authoring, st, w)
                          else mark_reported env
                                 (taboo_inventory mc (Some d) (all_playlists (ss_playlists ss))
                                   (library_items (ss_library ss))) st w)))))"

end
