(* ===== verification/Health_Guarantees.thy ===== *)
theory Health_Guarantees
  imports Runtime_Health Pairing_Guarantees Runtime_Sample
begin

text \<open>
  What the health sync promises: its inventory tells exactly the wallpapers the service skips, and a
  wallpaper is marked broken only by a snapshot of the very document the stores compile to, that
  reports an entry playing it.
\<close>

section \<open>The inventory\<close>

lemma generated_step_at:
  "map_of (generated_step mc d x) i =
     (if entry_id_for_source mc (item_path x) \<noteq> i then map_of d i
      else case map_of d i of None \<Rightarrow> Some (Some x) | Some other \<Rightarrow> Some (if other = Some x then other else None))"
  by (auto simp: generated_step_def Let_def update_conv' split: option.split)

lemma generated_entries_one:
  "(map_of (generated_entries mc items) i = None \<longleftrightarrow>
      (\<forall>other\<in>set items. entry_id_for_source mc (item_path other) \<noteq> i)) \<and>
   (map_of (generated_entries mc items) i = Some (Some item) \<longrightarrow>
     item \<in> set items \<and> entry_id_for_source mc (item_path item) = i \<and>
     (\<forall>other\<in>set items. entry_id_for_source mc (item_path other) = i \<longrightarrow> other = item))"
proof (induction items arbitrary: item rule: rev_induct)
  case (snoc x items)
  have step: "generated_entries mc (items @ [x]) = generated_step mc (generated_entries mc items) x"
    by (simp add: generated_entries_def)
  show ?case
    unfolding step generated_step_at
    using snoc.IH [of item] by (cases "map_of (generated_entries mc items) i") (simp_all, blast+)
qed (simp add: generated_entries_def)

text \<open>The reports of this configuration, and those of them that name a wallpaper, with it.\<close>

definition current_reports :: "dict \<Rightarrow> raw_report list" where
  "current_reports d =
     filter (\<lambda>raw. same_epoch (ra_epoch raw) (map_of d (lit ''config_epoch'')))
       (List.map_filter raw_report_of (status_reports d))"

definition skipped :: "machine \<Rightarrow> playlist list \<Rightarrow> library_item list \<Rightarrow> dict \<Rightarrow> (library_item \<times> raw_report) list" where
  "skipped mc ps items d =
     List.map_filter (\<lambda>raw. map_option (\<lambda>item. (item, raw)) (mapped_item mc ps items raw)) (current_reports d)"

lemma inventory_fold:
  "foldl (inventory_step mc ps items epoch) v raws =
     (let rs = List.map_filter raw_report_of raws; now = filter (\<lambda>raw. same_epoch (ra_epoch raw) epoch) rs
      in v\<lparr>in_reports := foldl (\<lambda>reports (item, raw). put_report item raw reports) (in_reports v)
             (List.map_filter (\<lambda>raw. map_option (\<lambda>item. (item, raw)) (mapped_item mc ps items raw)) now),
           in_unmapped := in_unmapped v + length (filter (\<lambda>raw. mapped_item mc ps items raw = None) now),
           in_stale := in_stale v + length (filter (\<lambda>raw. \<not> same_epoch (ra_epoch raw) epoch) rs)\<rparr>)"
  by (induction raws arbitrary: v)
    (auto simp: inventory_step_def List.map_filter_simps Let_def split: option.split)

lemma put_reports:
  assumes "reports = foldl (\<lambda>reports (item, raw). put_report item raw reports) [] occ"
  shows "distinct (map (item_path \<circ> tr_item) reports) \<and>
    item_path ` tr_item ` set reports = item_path ` fst ` set occ \<and>
    (\<forall>r\<in>set reports.
      (\<exists>raw. (tr_item r, raw) \<in> set occ \<and> tr_reason r = ra_reason raw \<and> tr_source r = ra_source raw) \<and>
      (tr_durable r \<longleftrightarrow> (\<forall>(item, raw)\<in>set occ. item_path item = item_path (tr_item r) \<longrightarrow> ra_durable raw)))"
  using assms
proof (induction occ arbitrary: reports rule: rev_induct)
  case (snoc x occ)
  obtain item raw where x: "x = (item, raw)" by fastforce
  define before where "before = foldl (\<lambda>reports (item, raw). put_report item raw reports) [] occ"
  note IH = snoc.IH [OF before_def]
  have reports: "reports = put_report item raw before" using snoc.prems by (simp add: x before_def)
  show ?case
  proof (cases "list_ex (\<lambda>r. item_path (tr_item r) = item_path item) before")
    case True
    let ?f = "\<lambda>r. if item_path (tr_item r) = item_path item \<and> \<not> ra_durable raw then r\<lparr>tr_durable := False\<rparr> else r"
    have same: "tr_item (?f r) = tr_item r" "tr_reason (?f r) = tr_reason r" "tr_source (?f r) = tr_source r" for r
      by simp_all
    have r: "reports = map ?f before" using True by (simp add: reports put_report_def)
    have maps: "map (item_path \<circ> tr_item) reports = map (item_path \<circ> tr_item) before" by (simp add: r same comp_def)
    have "item_path item \<in> item_path ` tr_item ` set before" using True unfolding list_ex_iff by (metis image_eqI)
    then have paths: "item_path ` tr_item ` set reports = item_path ` fst ` set (occ @ [x])"
      using IH arg_cong [OF maps, of set] by (auto simp: x image_comp insert_absorb)
    have "distinct (map (item_path \<circ> tr_item) reports)" using IH by (simp add: r same comp_def)
    moreover have "(\<exists>raw. (tr_item q, raw) \<in> set (occ @ [x]) \<and> tr_reason q = ra_reason raw \<and> tr_source q = ra_source raw) \<and>
        (tr_durable q \<longleftrightarrow> (\<forall>(i, raw)\<in>set (occ @ [x]). item_path i = item_path (tr_item q) \<longrightarrow> ra_durable raw))"
      if q: "q \<in> set reports" for q
    proof -
      from q obtain q' where q': "q' \<in> set before" "q = ?f q'" by (auto simp: r)
      then have "tr_durable q \<longleftrightarrow> tr_durable q' \<and> (item_path item = item_path (tr_item q') \<longrightarrow> ra_durable raw)" by auto
      moreover have "tr_item q = tr_item q'" "tr_reason q = tr_reason q'" "tr_source q = tr_source q'"
        unfolding q'(2) by (rule same)+
      moreover from IH q'(1) have "\<exists>raw. (tr_item q', raw) \<in> set occ \<and> tr_reason q' = ra_reason raw \<and> tr_source q' = ra_source raw"
        "tr_durable q' \<longleftrightarrow> (\<forall>(i, raw)\<in>set occ. item_path i = item_path (tr_item q') \<longrightarrow> ra_durable raw)" by blast+
      ultimately show ?thesis unfolding x set_append by (simp add: ball_Un) blast
    qed
    ultimately show ?thesis using paths by blast
  next
    case False
    then have fresh: "item_path item \<notin> item_path ` fst ` set occ"
    proof -
      have "item_path item \<notin> item_path ` tr_item ` set before" using False by (auto simp: list_ex_iff)
      with IH show ?thesis by simp
    qed
    define new where "new = \<lparr>tr_item = item, tr_playlist = ra_playlist raw, tr_entry = ra_entry raw,
      tr_reason = ra_reason raw, tr_source = ra_source raw, tr_durable = ra_durable raw, tr_epoch = ra_epoch raw\<rparr>"
    have other: "\<forall>r\<in>set before. item_path (tr_item r) \<noteq> item_path item" using False by (simp add: list_ex_iff)
    have r: "reports = before @ [new]" "tr_item new = item" using False by (simp_all add: reports put_report_def new_def)
    have "distinct (map (item_path \<circ> tr_item) reports)" using IH other by (auto simp: r comp_def)
    moreover have "item_path ` tr_item ` set reports = item_path ` fst ` set (occ @ [x])" using IH by (simp add: r x)
    moreover have "(\<exists>raw. (tr_item q, raw) \<in> set (occ @ [x]) \<and> tr_reason q = ra_reason raw \<and> tr_source q = ra_source raw) \<and>
        (tr_durable q \<longleftrightarrow> (\<forall>(i, raw)\<in>set (occ @ [x]). item_path i = item_path (tr_item q) \<longrightarrow> ra_durable raw))"
      if "q \<in> set reports" for q
    proof (cases "q = new")
      case True
      have "item_path i \<noteq> item_path item" if "(i, raw) \<in> set occ" for i raw
        using that fresh by (metis fst_conv image_eqI)
      then show ?thesis by (auto simp: True r new_def x)
    next
      case False
      with that r have q: "q \<in> set before" by simp
      with other have "item_path item \<noteq> item_path (tr_item q)" by metis
      with IH q show ?thesis by (auto simp: x)
    qed
    ultimately show ?thesis by blast
  qed
qed simp

lemma length_map_filter:
  "length (List.map_filter (\<lambda>x. map_option (f x) (g x)) xs) + length (filter (\<lambda>x. g x = None) xs) = length xs"
  by (induction xs) (auto simp: List.map_filter_simps split: option.split)

lemma inventory_of:
  assumes "taboo_inventory mc (Some d) ps items = v"
  shows "in_reports v = foldl (\<lambda>reports (item, raw). put_report item raw reports) [] (skipped mc ps items d) \<and>
    in_unmapped v = length (filter (\<lambda>raw. mapped_item mc ps items raw = None) (current_reports d)) \<and>
    in_stale v + length (current_reports d) = length (List.map_filter raw_report_of (status_reports d))"
proof -
  have "length (filter (\<lambda>raw. \<not> P raw) xs) + length (filter P xs) = length xs" for P and xs :: "raw_report list"
    using sum_length_filter_compl [of P xs] by simp
  then show ?thesis
    unfolding assms [symmetric]
    by (auto simp: taboo_inventory_def status_reports_def skipped_def current_reports_def inventory_fold Let_def
        List.map_filter_simps split: option.splits json.splits)
qed

text \<open>C40: The inventory of a snapshot tells exactly which wallpapers its current reports name: each of them
  once, and no other; durable exactly where every current report of it is; and every report read is one
  of those, or counted as one that names no wallpaper, or as one of another configuration.\<close>

theorem inventory_exact:
  assumes "taboo_inventory mc (Some d) ps items = v"
  shows "distinct (map (item_path \<circ> tr_item) (in_reports v)) \<and>
    item_path ` tr_item ` set (in_reports v) = item_path ` fst ` set (skipped mc ps items d) \<and>
    (\<forall>r\<in>set (in_reports v). tr_durable r \<longleftrightarrow>
      (\<forall>(item, raw)\<in>set (skipped mc ps items d). item_path item = item_path (tr_item r) \<longrightarrow> ra_durable raw)) \<and>
    length (skipped mc ps items d) + in_unmapped v + in_stale v =
      length (List.map_filter raw_report_of (status_reports d))"
proof -
  note of_v = inventory_of [OF assms]
  have "length (skipped mc ps items d) + in_unmapped v = length (current_reports d)"
    using of_v by (simp add: skipped_def length_map_filter)
  then show ?thesis
    using of_v put_reports [of "in_reports v" "skipped mc ps items d"] by auto
qed

section \<open>What a sync marks\<close>

lemma by_path_item: "by_path items p = Some m \<Longrightarrow> m \<in> set items"
  by (auto simp: by_path_def dest!: map_of_SomeD)

lemma mapped_item_listed: "mapped_item mc ps items raw = Some item \<Longrightarrow> item \<in> set items"
  using generated_entries_one [of mc items "ra_entry raw" item]
  by (auto simp: mapped_item_def dest: by_path_item split: if_splits option.splits)

lemma borked_requests_from:
  assumes "borked_requests findings = Inr requested" and "map_of requested k = Some (i, h)"
  shows "\<exists>item reason source. (item, reason, source) \<in> set findings \<and> k = identity_key (media_id_of item) \<and>
    i = media_id_of item \<and> h = borked reason source"
proof -
  let ?step = "\<lambda>d (item, reason, source). AList.update (identity_key (media_id_of item)) (media_id_of item, borked reason source) d"
  have "\<exists>item reason source. (item, reason, source) \<in> set fs \<and>
      k = identity_key (media_id_of item) \<and> i = media_id_of item \<and> h = borked reason source"
    if "map_of (foldl ?step [] fs) k = Some (i, h)" for fs :: "finding list"
    using that
  proof (induction fs rule: rev_induct)
    case (snoc f fs)
    obtain item reason source where f: "f = (item, reason, source)" by (cases f)
    show ?case
    proof (cases "k = identity_key (media_id_of item)")
      case True
      with snoc.prems have "i = media_id_of item \<and> h = borked reason source" by (simp add: f update_conv')
      with True show ?thesis by (intro exI [of _ item] exI [of _ reason] exI [of _ source]) (simp add: f)
    next
      case False
      with snoc.prems have "map_of (foldl ?step [] fs) k = Some (i, h)" by (simp add: f update_conv')
      from snoc.IH [OF this] show ?thesis unfolding set_append by blast
    qed
  qed simp
  with assms show ?thesis by (auto simp: borked_requests_def split: if_splits)
qed

lemma borked_requests_some:
  assumes "borked_requests findings = Inr requested"
  shows "requested = [] \<longleftrightarrow> findings = []"
  using assms
  by (cases findings rule: rev_cases)
    (auto simp: borked_requests_def update_conv' dest!: arg_cong [where f = map_of] split: if_splits prod.splits)

lemma marked_many_effect:
  assumes "mark_borked_many env findings st w = (Inr n, st1, w1)" and "findings \<noteq> []"
    and "read_pairings (w_node w) = Inr r" and "map_of (st_value st1) k \<noteq> map_of (r_value r) k"
  shows "\<exists>item reason source. (item, reason, source) \<in> set findings \<and> k = identity_key (media_id_of item) \<and>
    map_of (st_value st1) k = Some (with_health (r_value r) k (media_id_of item) (borked reason source))"
proof -
  obtain requested where req: "borked_requests findings = Inr requested"
    using assms(1) by (cases "borked_requests findings") (auto simp: mark_borked_many_def)
  have some: "requested \<noteq> []" using borked_requests_some [OF req] assms(2) by simp
  from assms(1) req some have "mutate_pairings env True False
      (\<lambda>carried d. let (changed, v) = apply_borked requested d in Inr (changed, 0 < changed, v)) st w = (Inr n, st1, w1)"
    by (simp add: mark_borked_many_def)
  from mutate_pairings_ok [OF this] obtain r' b where "read_pairings (w_node w) = Inr r'"
    "(let (changed, v) = apply_borked requested (r_value r') in Inr (changed, 0 < changed, v)) =
      (Inr (n, b, st_value st1) :: _ result)" by blast
  with assms(3) have "apply_borked requested (r_value r) = (n, st_value st1)"
    by (cases "apply_borked requested (r_value r)") simp
  from apply_borked_effect [OF borked_requests_distinct [OF req] this, of k] assms(4)
  obtain i h where "map_of requested k = Some (i, h)" "map_of (st_value st1) k = Some (with_health (r_value r) k i h)"
    by (auto split: option.splits)
  with borked_requests_from [OF req this(1)] show ?thesis by blast
qed

lemma sync_synced:
  assumes "sync_runtime_health env mc expected installed opened message st w = (Synced n v, st1, w1)"
  obtains d ss generation c where "parse_status message = Inr d" "opened = Inr ss" "installed = Inr generation"
    "path_text (status_text d ''config_path'') = expected" "status_text d ''config_generation'' = generation"
    "compiled_as_published mc (ss_settings ss) ss (JObj d) generation = Inr c"
    "document_generation mc (ss_settings ss) c = Inr generation" "authoring_faults ss = []"
    "v = taboo_inventory mc (Some d) (all_playlists (ss_playlists ss)) (library_items (ss_library ss))"
    "mark_reported env v st w = (Synced n v, st1, w1)"
proof -
  have run: "sync_outcome = fst (sync_outcome, st1, w1)" for sync_outcome :: sync_outcome by simp
  have v: "mark_reported env u st w = (Synced n v, st1, w1) \<Longrightarrow> u = v" for u
    by (auto simp: mark_reported_def split: if_splits sum.splits prod.splits)
  show thesis
    using assms that v unfolding sync_runtime_health_def
    by (simp split: sum.splits if_splits) (metis and_then_Inr)
qed

lemma marked_many_refused:
  assumes "mark_borked_many env findings st w = (Inl e, st1, w1)"
  shows "st_value st1 = st_value st \<and> w1 = w"
proof (cases "borked_requests findings")
  case (Inr requested)
  with assms have "mutate_pairings env True False
      (\<lambda>carried d. let (changed, v) = apply_borked requested d in Inr (changed, 0 < changed, v)) st w = (Inl e, st1, w1)"
    by (simp add: mark_borked_many_def split: if_splits)
  from mutate_pairings_error [OF this] show ?thesis by simp
qed (use assms in \<open>simp add: mark_borked_many_def\<close>)

lemma sync_not_synced:
  assumes "sync_runtime_health env mc expected installed opened message st w = (out, st1, w1)"
    and "\<forall>n v. out \<noteq> Synced n v"
  shows "st_value st1 = st_value st \<and> w1 = w"
proof -
  have "st_value st1 = st_value st \<and> w1 = w" if "mark_reported env v st w = (out, st1, w1)" for v
    using that assms(2) marked_many_refused by (auto simp: mark_reported_def split: if_splits sum.splits prod.splits)
  with assms(1) show ?thesis unfolding sync_runtime_health_def by (auto split: sum.splits if_splits)
qed

lemma marked_many_reads:
  assumes "mark_borked_many env findings st w = (Inr n, st1, w1)" and "findings \<noteq> []"
  shows "\<exists>r. read_pairings (w_node w) = Inr r"
proof -
  obtain requested where req: "borked_requests findings = Inr requested"
    using assms(1) by (cases "borked_requests findings") (auto simp: mark_borked_many_def)
  have "requested \<noteq> []" using borked_requests_some [OF req] assms(2) by simp
  with assms(1) req have "mutate_pairings env True False
      (\<lambda>carried d. let (changed, v) = apply_borked requested d in Inr (changed, 0 < changed, v)) st w = (Inr n, st1, w1)"
    by (simp add: mark_borked_many_def)
  from mutate_pairings_ok [OF this] show ?thesis by blast
qed

text \<open>C12: A health sync marks a wallpaper broken only by a snapshot of the very document the stores compile
  to now: at the configuration's own path, of the generation the file declares, the service runs and the
  compiler makes again. What it marks is a wallpaper of the library that a report of that configuration
  names, with that report's words; every other record is as the file held it. Where it marks none, nothing
  is written. In every other outcome - an answer that is no status, nothing reported, a store that cannot be
  read, another document or generation, stores that moved on since the document was made - no record and
  no byte of the file changes.\<close>

theorem sync_marks_observed:
  assumes "sync_runtime_health env mc expected installed opened message st w = (out, st1, w1)"
  shows "case out of
      Synced n v \<Rightarrow> (\<exists>d ss. parse_status message = Inr d \<and> opened = Inr ss \<and>
        (\<exists>generation c. status_text d ''config_generation'' = generation \<and> installed = Inr generation \<and>
          compiled_as_published mc (ss_settings ss) ss (JObj d) generation = Inr c \<and>
          document_generation mc (ss_settings ss) c = Inr generation) \<and>
        path_text (status_text d ''config_path'') = expected \<and>
        (in_reports v = [] \<longrightarrow> st1 = st \<and> w1 = w) \<and>
        (in_reports v \<noteq> [] \<longrightarrow> (\<exists>r. read_pairings (w_node w) = Inr r \<and>
          (\<forall>k. map_of (st_value st1) k = map_of (r_value r) k \<or>
            (\<exists>item\<in>set (library_items (ss_library ss)). \<exists>raw\<in>set (current_reports d).
               mapped_item mc (all_playlists (ss_playlists ss)) (library_items (ss_library ss)) raw = Some item \<and>
               k = identity_key (media_id_of item) \<and>
               map_of (st_value st1) k =
                 Some (with_health (r_value r) k (media_id_of item) (borked (ra_reason raw) (ra_source raw))))))))
    | _ \<Rightarrow> st_value st1 = st_value st \<and> w1 = w"
proof (cases out)
  case out: (Synced n v)
  obtain d ss generation c where got: "parse_status message = Inr d" "opened = Inr ss" "installed = Inr generation"
    and facts: "path_text (status_text d ''config_path'') = expected" "status_text d ''config_generation'' = generation"
    "compiled_as_published mc (ss_settings ss) ss (JObj d) generation = Inr c"
    "document_generation mc (ss_settings ss) c = Inr generation" "authoring_faults ss = []"
    and v: "v = taboo_inventory mc (Some d) (all_playlists (ss_playlists ss)) (library_items (ss_library ss))"
    and run: "mark_reported env v st w = (Synced n v, st1, w1)"
    by (rule sync_synced [OF assms [unfolded out]])
  let ?ps = "all_playlists (ss_playlists ss)" and ?items = "library_items (ss_library ss)"
  let ?fs = "map (\<lambda>r. (tr_item r, tr_reason r, tr_source r)) (in_reports v)"
  have none: "st1 = st \<and> w1 = w" if "in_reports v = []" using run that by (simp add: mark_reported_def)
  have marked: "mark_borked_many env ?fs st w = (Inr n, st1, w1)" if "in_reports v \<noteq> []"
    using run that by (auto simp: mark_reported_def split: prod.splits sum.splits)
  have some: "map_of (st_value st1) k = map_of (r_value r) k \<or>
      (\<exists>item\<in>set ?items. \<exists>raw\<in>set (current_reports d). mapped_item mc ?ps ?items raw = Some item \<and>
         k = identity_key (media_id_of item) \<and> map_of (st_value st1) k =
           Some (with_health (r_value r) k (media_id_of item) (borked (ra_reason raw) (ra_source raw))))"
    if reports: "in_reports v \<noteq> []" and read: "read_pairings (w_node w) = Inr r" for k r
  proof (cases "map_of (st_value st1) k = map_of (r_value r) k")
    case changed: False
    from marked_many_effect [OF marked [OF reports] _ read changed] reports obtain q where q: "q \<in> set (in_reports v)"
      "k = identity_key (media_id_of (tr_item q))"
      "map_of (st_value st1) k = Some (with_health (r_value r) k (media_id_of (tr_item q)) (borked (tr_reason q) (tr_source q)))"
      by auto
    from put_reports [OF conjunct1 [OF inventory_of [OF v [symmetric]]]] q(1) obtain raw
      where raw: "(tr_item q, raw) \<in> set (skipped mc ?ps ?items d)" "tr_reason q = ra_reason raw" "tr_source q = ra_source raw"
      by blast
    from raw(1) have m: "raw \<in> set (current_reports d)" "mapped_item mc ?ps ?items raw = Some (tr_item q)"
      by (auto simp: skipped_def List.map_filter_def split: option.splits)
    with mapped_item_listed [OF m(2)] q raw show ?thesis by metis
  qed simp
  have "\<exists>r. read_pairings (w_node w) = Inr r" if "in_reports v \<noteq> []"
    using marked_many_reads [OF marked [OF that]] that by simp
  with got facts none some show ?thesis unfolding out sync_outcome.case by blast
qed (use sync_not_synced [OF assms] in auto)

section \<open>A service that skips a wallpaper\<close>

definition report_of :: "string \<Rightarrow> string \<Rightarrow> bool \<Rightarrow> int \<Rightarrow> json" where
  "report_of playlist entry durable epoch =
     JObj [(lit ''playlist_id'', JStr (lit playlist)), (lit ''entry_id'', JStr (lit entry)),
       (lit ''reason'', JStr (lit ''no  codec'')), (lit ''source'', JStr (lit ''mpv'')),
       (lit ''durable'', JBool durable), (lit ''observed_config_epoch'', JInt epoch)]"

definition desk_status :: dict where
  "desk_status =
     [(lit ''status_version'', JInt 2), (lit ''supported_config_schemas'', JArr [JInt 6, JInt 7, JInt 8]),
      (lit ''config_generation'', JStr (mc_digest toy_machine [])),
      (lit ''runtime_instance'', JStr (lit ''0123456789abcdef0123456789abcdef'')),
      (lit ''config_epoch'', JInt 3), (lit ''config_path'', JStr (lit ''/c/runtime.toml'')),
      (lit ''taboo_entries'', JArr [report_of ''a9'' ''e1'' True 3, report_of ''a9'' ''e1'' False 3,
         report_of ''c1'' ''e2'' True 3, report_of ''a9'' ''e1'' True 2])]"

text \<open>The two current reports of the video make one, which is not durable; the playlist of a wallpaper that
  is gone names none, and one report is of the configuration before.\<close>

lemma desk_inventory:
  "taboo_inventory toy_machine (Some desk_status) [lost, waves] [sea, hill] =
     \<lparr>in_reports = [\<lparr>tr_item = sea, tr_playlist = lit ''a9'', tr_entry = lit ''e1'', tr_reason = lit ''no  codec'',
        tr_source = lit ''mpv'', tr_durable = False, tr_epoch = 3\<rparr>], in_omitted = 0, in_unmapped = 1, in_stale = 1\<rparr>"
  by code_simp

theorem inventory_exact_witness:
  "\<exists>v. taboo_inventory toy_machine (Some desk_status) [lost, waves] [sea, hill] = v \<and>
     distinct (map (item_path \<circ> tr_item) (in_reports v)) \<and> in_unmapped v = 1 \<and> in_stale v = 1 \<and>
     length (skipped toy_machine [lost, waves] [sea, hill] desk_status) = 2"
proof -
  have "length (List.map_filter raw_report_of (status_reports desk_status)) = 4" by code_simp
  with inventory_exact [OF desk_inventory] show ?thesis unfolding desk_inventory by simp
qed

theorem sync_marks_observed_witness:
  "\<exists>v st1 w1. sync_runtime_health calm toy_machine (lit ''/c/runtime.toml'') (Inr (mc_digest toy_machine []))
       (Inr desk_session) (Some (JObj desk_status)) opened_empty (holding (plain_pairings [])) = (Synced 1 v, st1, w1) \<and>
     map_option pr_health (map_of (st_value st1) (identity_key (media_id_of sea))) =
       Some (borked (lit ''no  codec'') (lit ''mpv''))"
proof -
  let ?w = "holding (plain_pairings [])" and ?v = "taboo_inventory toy_machine (Some desk_status) [lost, waves] [sea, hill]"
  have parsed: "parse_status (Some (JObj desk_status)) = Inr desk_status" by code_simp
  have "case read_pairings (w_node ?w) of Inl _ \<Rightarrow> False | Inr r \<Rightarrow> r_value r = []" by code_simp
  then obtain r where r: "read_pairings (w_node ?w) = Inr r" "r_value r = []" by (auto split: sum.splits)
  have "fst (mark_borked_many calm [(sea, lit ''no  codec'', lit ''mpv'')] opened_empty ?w) = Inr 1 \<and>
      map_of (st_value (fst (snd (mark_borked_many calm [(sea, lit ''no  codec'', lit ''mpv'')] opened_empty ?w))))
        (identity_key (media_id_of sea)) \<noteq> None" by code_simp
  then obtain st1 w1 where mark: "mark_borked_many calm [(sea, lit ''no  codec'', lit ''mpv'')] opened_empty ?w = (Inr 1, st1, w1)"
    and news: "map_of (st_value st1) (identity_key (media_id_of sea)) \<noteq> None" by (metis prod.collapse fst_conv snd_conv)
  have schemas: "list_all (lists_schema (JObj desk_status)) [6, 7, 8]" by code_simp
  have texts: "status_reports desk_status \<noteq> []" "path_text (status_text desk_status ''config_path'') = lit ''/c/runtime.toml''"
    "status_text desk_status ''config_generation'' = mc_digest toy_machine []" "authoring_faults desk_session = []"
    "all_playlists (ss_playlists desk_session) = [lost, waves]"
    by code_simp+
  have same: "ss_settings desk_session = desk_settings" "library_items (ss_library desk_session) = [sea, hill]"
    by (simp_all add: desk_session_def)
  have reported: "mark_reported calm ?v opened_empty ?w = (Synced 1 ?v, st1, w1)"
    unfolding desk_inventory by (simp add: mark_reported_def mark)
  have run: "sync_runtime_health calm toy_machine (lit ''/c/runtime.toml'') (Inr (mc_digest toy_machine []))
      (Inr desk_session) (Some (JObj desk_status)) opened_empty ?w = (Synced 1 ?v, st1, w1)"
    unfolding sync_runtime_health_def
    by (simp add: parsed texts same desk_published [OF schemas] desk_generation reported)
  have "in_reports ?v \<noteq> []" unfolding desk_inventory by simp
  with sync_marks_observed [OF run, unfolded sync_outcome.case] obtain d ss r' where
    same_run: "parse_status (Some (JObj desk_status)) = Inr d" "(Inr desk_session :: session result) = Inr ss"
    "read_pairings (w_node ?w) = Inr r'" and marked: "\<forall>k. map_of (st_value st1) k = map_of (r_value r') k \<or>
      (\<exists>item\<in>set (library_items (ss_library ss)). \<exists>raw\<in>set (current_reports d).
        mapped_item toy_machine (all_playlists (ss_playlists ss)) (library_items (ss_library ss)) raw = Some item \<and>
        k = identity_key (media_id_of item) \<and> map_of (st_value st1) k =
          Some (with_health (r_value r') k (media_id_of item) (borked (ra_reason raw) (ra_source raw))))"
    by blast
  have eqs: "d = desk_status" "ss = desk_session" "r' = r" using same_run parsed r(1) by simp_all
  have "map_of (st_value st1) k = None \<or> (\<exists>item\<in>{sea, hill}. \<exists>raw\<in>set (current_reports desk_status).
      mapped_item toy_machine [lost, waves] [sea, hill] raw = Some item \<and> k = identity_key (media_id_of item) \<and>
      map_of (st_value st1) k = Some (with_health [] k (media_id_of item) (borked (ra_reason raw) (ra_source raw))))" for k
    using marked [unfolded eqs texts same r(2)] by simp
  from this [of "identity_key (media_id_of sea)"] news obtain raw where
    raw: "raw \<in> set (current_reports desk_status)" "map_option pr_health (map_of (st_value st1) (identity_key (media_id_of sea))) =
      Some (borked (ra_reason raw) (ra_source raw))" by auto
  have "list_all (\<lambda>raw. ra_reason raw = lit ''no  codec'' \<and> ra_source raw = lit ''mpv'') (current_reports desk_status)"
    by code_simp
  with raw have "map_option pr_health (map_of (st_value st1) (identity_key (media_id_of sea))) =
      Some (borked (lit ''no  codec'') (lit ''mpv''))" by (simp add: list_all_iff)
  with run show ?thesis by blast
qed

end
