(* ===== verification/Spec2Isabelle.thy ===== *)
theory Spec2Isabelle
  imports Schedule_Guarantees Calendar_Projection Playlist_Guarantees Display_Guarantees Favourite_Guarantees
    Pairing_Guarantees Runtime_Edits Runtime_Refusals Runtime_Web
    Health_Guarantees
begin

text \<open>
  wall-in-one plays wallpapers on a Linux desktop: stills, videos and Wallpaper Engine scenes, from
  playlists, by day and time, on each screen. This development models what the Python program decides
  and stores, under \<open>src/src/wall_in_one\<close>: the state files a person's choices live in, what those
  choices mean, and the compiler that turns them into the document the playback service plays.

  The parts and how they meet. A person's choices are in five files, each owned by a store: schedules,
  playlists, displays, favourites and pairings. Several processes edit a file (the window, the command
  line, a worker), so every store runs one locked transaction: read the file under the lock, change
  what was read, write it whole, keep in memory what was written. A playlist is named by other files
  (a rule, a screen, the default), by id or by name. The compiler reads all five and the accepted
  library, and writes \<open>runtime.toml\<close>, which the service plays without asking again. The pages ask, before
  an edit, whether the compiler could still build what is saved.

  Shared theories. \<open>Unicode\<close>, \<open>Prelude\<close>, \<open>Calendar\<close>, \<open>Sha256\<close>, \<open>Paths\<close> and \<open>Json\<close> are what the sources
  use of Python: \<open>str\<close> methods on code points, errors as values (\<open>exn + 'a\<close>, one constructor for each
  class of exception), lists changed by index, proleptic dates, SHA-256 on words of 32 bits, path texts
  and JSON values. \<open>State_File\<close> is \<open>library/state_file.py\<close>: the fields of newer versions kept across a
  rewrite, faults, and reading a bounded file. \<open>Store_Transaction\<close> is the transaction of the stores:
  \<open>transact\<close>, \<open>persist\<close> and \<open>preserve_faulted\<close> on the store's memory (\<open>store\<close>), the file and the copies
  moved aside (\<open>world\<close>), and what the operating system answers (\<open>env\<close>), with the locales
  \<open>authoring_store\<close> and \<open>exact_store\<close>: what a store's reader and renderer promise, and what every
  transaction then keeps. Each store interprets one of them on its own reader and renderer.

  Schedules (\<open>library/schedules.py\<close>, and the page's \<open>ui/next/schedule_model.py\<close>). \<open>Schedules\<close> has the rule
  and the document, \<open>Schedule_Codec\<close> that it reads back, \<open>Schedule_Store\<close> the operations,
  \<open>Schedule_Precedence\<close> when a window is open and which rule is in force, \<open>Schedule_System\<close> and
  \<open>Schedule_Guarantees\<close> whole operations, every reachable state, edits of several processes and unknown
  fields. \<open>Schedule_Model\<close> and \<open>Calendar_Projection\<close> are the calendar drawn from a few samples of the
  day, which agrees with the rules at each minute.

  Playlists (\<open>library/playlist.py\<close>, \<open>library/playlists.py\<close>). \<open>Playlist_Cursor\<close> is what plays next, with
  the random generator given as the numbers it draws. \<open>Playlists\<close>, \<open>Playlist_Codec\<close>, \<open>Playlist_Store\<close>,
  \<open>Playlist_Identity\<close>, \<open>Playlist_System\<close> and \<open>Playlist_Guarantees\<close> are the store: its document, its
  operations, that no two playlists can be taken for each other, and every reachable state.

  Displays and favourites (\<open>library/displays.py\<close>, \<open>library/favourites.py\<close>): \<open>Displays\<close>, \<open>Display_Store\<close>,
  \<open>Display_Guarantees\<close>; \<open>Favourites\<close>, \<open>Favourite_Guarantees\<close>.

  Pairings (\<open>library/pairings.py\<close>, \<open>dials.py\<close>, and of \<open>library/model.py\<close> what a wallpaper is: \<open>Media\<close>).
  \<open>Pairings\<close> is a record and its document, \<open>Pairing_Codec\<close> that it reads back, \<open>Pairing_Store\<close> the
  operations, which have a transaction of their own and compare dial values as Python does (\<open>same_value\<close>),
  \<open>Pairing_Merge\<close> that fields of newer versions put back do not change what is read, \<open>Pairing_Changes\<close>
  and \<open>Pairing_Guarantees\<close> what each operation keeps and every reachable state.

  The runtime compiler (\<open>runtime_config.py\<close>). \<open>Runtime_Wire\<close> is what a document holds (\<open>wire_document\<close>),
  its bounds and the text it is written as; \<open>Runtime_Compiler\<close> is \<open>_compile\<close> pass by pass, in its order:
  \<open>compile_wire\<close> makes the document, \<open>compile_runtime\<close> writes it and its overrides. \<open>Runtime_Guards\<close> is what
  the pages ask: what an entry plays, whether a reference stands, what an edit would break, which
  document the service holds. \<open>Runtime_Web\<close> is what a published document may still play while web
  wallpapers are off. \<open>Runtime_Facts\<close> and \<open>Runtime_Text\<close> say what each pass emits, notes and refuses;
  \<open>Runtime_Guarantees\<close>, \<open>Runtime_Bounds\<close>, \<open>Runtime_Refusals\<close> and \<open>Runtime_Edits\<close> hold the properties, and
  \<open>Runtime_Sample\<close> a session they are tried on. The compiler's rules decide as the saved ones do, its
  references mean one playlist each, a saved rule or screen is left out only if that is said or the display
  mode sets it aside, and a refusal has one of few causes. The guards agree with it on every reference but
  one to a playlist of the id reserved for All media, which only a file written by hand holds.

  The health sync (\<open>runtime_health.py\<close>, and \<open>_sync_runtime_health\<close> of \<open>cli.py\<close>). \<open>Runtime_Health\<close> reads a
  status snapshot of the service strictly, maps the entries it skips back to wallpapers, and marks those
  broken in the pairings; \<open>Health_Guarantees\<close> shows that only a snapshot of the document the stores
  compile to now marks anything, that every other outcome writes nothing, and that the inventory is exact.

  Bounds. Every cap is the source's own number, a definition of its name. Loops are recursion on what
  they consume; the scan of a parsed document (\<open>scene_ids_loop\<close>) is a partial function that is proved to
  return. No fuel is used. Integers are unbounded, as Python's are; SHA-256 works on words.

  What is assumed of code outside the repository. The answers of the operating system are arguments, and
  the theorems hold for all of them. The program paths, the engine's reading of a scene's own value and
  the digest of a document are the fields of \<open>machine\<close>. A library is what the scan returned. \<open>tomllib\<close>
  reads back what the compiler wrote, so a document is kept both as what it says and as its text.

  Not modelled. Locks, descriptors, fsync and the races they close (of \<open>state_file.py\<close> and of publishing:
  \<open>_install\<close>, \<open>publish_changes\<close>) are the operating system's; only their outcomes are here. The sentences of
  errors and warnings are left out, their kinds kept. Walking the library's folders, moving and trashing
  files with journals (\<open>library/manage.py\<close>, \<open>tidy.py\<close>), the one-time imports of older profiles, the
  providers' networks, renderer processes, themes and the GTK interface are calls of other programs
  around the stores' operations. \<open>settings.toml\<close> is read by a TOML library; its fields are a record here.
  The playback service is a Rust program, which reads the document modelled here.
\<close>

end
